(* ===== verification/Prelude.thy ===== *)
theory Prelude
  imports Main "HOL-Library.Monad_Syntax" "HOL-Library.Finite_Map" "HOL-Library.Sublist"
    "HOL-Library.Char_ord" "HOL-Library.Word"
begin

text \<open>
  What every component shares: Go's errors, strings, maps and loops.

  A Go function that can panic is a function into \<open>'a option\<close>, with \<open>None\<close> for the
  panic (a nil dereference, an index out of range, an assignment to an entry of a nil map).
  A Go function with effects takes the state \<open>s\<close> as its last argument and returns the
  pair of its result and the new state, again under \<open>option\<close>; the do-notation of
  \<open>Monad_Syntax\<close> threads both. A Go \<open>error\<close> is a value: \<open>goerr option\<close> with \<open>None\<close> for
  \<open>nil\<close>, or \<open>goerr + 'a\<close> where the function also returns a result.
\<close>

named_theorems go_defs "unfolding rules of the small helpers"
named_theorems quiet "operations that append no event to the trace"
named_theorems writes "what the operations append to the trace"

section \<open>Errors\<close>

text \<open>
  \<open>ApiError nf msg\<close> is an error returned by a Kubernetes client, \<open>nf\<close> telling whether
  \<open>errors.IsNotFound\<close> holds of it; \<open>ErrorText\<close> comes from \<open>errors.New\<close> and \<open>fmt.Errorf\<close>;
  \<open>Joined es\<close> is \<open>fmt.Errorf(strings.Join(errors, "\n"))\<close> over the texts of \<open>es\<close> (the code
  never looks into that text, so the list is kept instead of the rendering);
  \<open>RbacError\<close> and \<open>VerifierError\<close> are the two error types of the validator packages.
\<close>

datatype goerr =
    ApiError bool string
  | ErrorText string
  | LibError string
  | Joined "goerr list"
  | RbacError string
  | VerifierError string

fun IsNotFound :: "goerr option \<Rightarrow> bool" where
  "IsNotFound (Some (ApiError nf _)) = nf"
| "IsNotFound _ = False"

text \<open>\<open>errors.As\<close> at the interfaces \<open>rbac.Error\<close> and \<open>securityverifier.Error\<close>. Both
  interfaces have the same methods (\<open>Error\<close>, \<open>OrigError\<close>), so each matches both types.\<close>

fun AsRbacError :: "goerr \<Rightarrow> bool" where
  "AsRbacError (RbacError _) = True"
| "AsRbacError (VerifierError _) = True"
| "AsRbacError _ = False"

fun AsVerifierError :: "goerr \<Rightarrow> bool" where
  "AsVerifierError (RbacError _) = True"
| "AsVerifierError (VerifierError _) = True"
| "AsVerifierError _ = False"

definition join_errors :: "goerr list \<Rightarrow> goerr option" where
  "join_errors es = (if es = [] then None else Some (Joined es))"

lemma join_errors_None [simp]: "join_errors es = None \<longleftrightarrow> es = []"
  by (simp add: join_errors_def)

definition add_error :: "goerr option \<Rightarrow> goerr list \<Rightarrow> goerr list" where
  "add_error e es = (case e of None \<Rightarrow> es | Some x \<Rightarrow> es @ [x])"

lemma add_error_simps [simp]:
  "add_error None es = es"
  "add_error (Some x) es = es @ [x]"
  by (simp_all add: add_error_def)

lemma add_error_Nil [simp]: "add_error e es = [] \<longleftrightarrow> e = None \<and> es = []"
  by (simp add: add_error_def split: option.splits)

fun err_of :: "goerr + 'a \<Rightarrow> goerr option" where
  "err_of (Inl e) = Some e"
| "err_of (Inr _) = None"

lemma err_of_None [simp]: "err_of r = None \<longleftrightarrow> (\<exists>x. r = Inr x)"
  by (cases r) auto

lemma err_of_Some [simp]: "err_of r = Some e \<longleftrightarrow> r = Inl e"
  by (cases r) auto

text \<open>The values present in a list of optional ones.\<close>

primrec somes :: "'a option list \<Rightarrow> 'a list" where
  "somes [] = []"
| "somes (r # rs) = (case r of None \<Rightarrow> somes rs | Some x \<Rightarrow> x # somes rs)"

lemma somes_Nil [simp]: "somes rs = [] \<longleftrightarrow> list_all (\<lambda>r. r = None) rs"
  by (induction rs) (auto split: option.splits)

section \<open>Maps and slices\<close>

text \<open>A \<open>map[string]string\<close>: \<open>None\<close> is the nil map, which reads like an empty one and
  panics on assignment.\<close>

type_synonym gomap = "(string, string) fmap option"

definition map_get :: "gomap \<Rightarrow> string \<Rightarrow> string option" where
  "map_get m k = (case m of None \<Rightarrow> None | Some f \<Rightarrow> fmlookup f k)"

definition map_index :: "gomap \<Rightarrow> string \<Rightarrow> string" where
  "map_index m k = (case map_get m k of None \<Rightarrow> [] | Some v \<Rightarrow> v)"

definition map_set :: "gomap \<Rightarrow> string \<Rightarrow> string \<Rightarrow> gomap option" where
  "map_set m k v = (case m of None \<Rightarrow> None | Some f \<Rightarrow> Some (Some (fmupd k v f)))"

definition map_delete :: "gomap \<Rightarrow> string \<Rightarrow> gomap" where
  "map_delete m k = (case m of None \<Rightarrow> None | Some f \<Rightarrow> Some (fmdrop k f))"

definition go_map :: "(string \<times> string) list \<Rightarrow> gomap" where
  "go_map kvs = Some (fmap_of_list kvs)"

lemma map_get_simps [simp]:
  "map_get None k = None"
  "map_get (Some f) k = fmlookup f k"
  by (simp_all add: map_get_def)

lemma map_get_go_map [simp]: "map_get (go_map kvs) k = map_of kvs k"
  by (simp add: go_map_def fmlookup_of_list)

lemma map_get_delete [simp]:
  "map_get (map_delete m k) k' = (if k' = k then None else map_get m k')"
  by (cases m) (auto simp: map_delete_def)

lemma map_get_set: "map_set m k v = Some m' \<Longrightarrow> map_get m' k' = (if k' = k then Some v else map_get m k')"
  by (cases m) (auto simp: map_set_def)

lemma map_set_None [simp]: "map_set m k v = None \<longleftrightarrow> m = None"
  by (simp add: map_set_def split: option.splits)

definition slice :: "'a list option \<Rightarrow> 'a list" where
  "slice xs = (case xs of None \<Rightarrow> [] | Some ys \<Rightarrow> ys)"

lemma slice_simps [simp]: "slice None = []" "slice (Some xs) = xs"
  by (simp_all add: slice_def)

section \<open>Strings\<close>

fun strings_Contains :: "string \<Rightarrow> string \<Rightarrow> bool" where
  "strings_Contains [] sub = (sub = [])"
| "strings_Contains (c # cs) sub = (prefix sub (c # cs) \<or> strings_Contains cs sub)"

lemma strings_Contains_iff: "strings_Contains s sub \<longleftrightarrow> sublist sub s"
proof (induction s)
  case Nil
  show ?case by simp
next
  case (Cons c cs)
  then show ?case by (simp add: sublist_Cons_right)
qed

text \<open>\<open>strings.Replace(s, old, new, 1)\<close>: the first occurrence only.\<close>

fun strings_Replace1 :: "string \<Rightarrow> string \<Rightarrow> string \<Rightarrow> string" where
  "strings_Replace1 [] old new = (if old = [] then new else [])"
| "strings_Replace1 (c # cs) old new =
     (if prefix old (c # cs) then new @ drop (length old) (c # cs)
      else c # strings_Replace1 cs old new)"

lemma strings_Replace1_hit:
  "prefix old s \<Longrightarrow> strings_Replace1 s old new = new @ drop (length old) s"
  by (cases s) auto

lemma strings_Replace1_prefix: "strings_Replace1 (old @ s) old new = new @ s"
  by (simp add: strings_Replace1_hit)

lemma strings_Replace1_absent: "\<not> sublist old s \<Longrightarrow> strings_Replace1 s old new = s"
  by (induction s) (auto simp: sublist_Cons_right)

definition digit :: "nat \<Rightarrow> char" where
  "digit n = char_of (48 + n)"

fun itoa_nat :: "nat \<Rightarrow> string" where
  "itoa_nat n = (if n < 10 then [digit n] else itoa_nat (n div 10) @ [digit (n mod 10)])"

declare itoa_nat.simps [simp del]

text \<open>\<open>strconv.Itoa\<close>, \<open>strconv.FormatUint(_, 10)\<close> and \<open>strconv.FormatBool\<close>.\<close>

definition Itoa :: "int \<Rightarrow> string" where
  "Itoa i = (if i < 0 then ''-'' @ itoa_nat (nat (- i)) else itoa_nat (nat i))"

definition FormatBool :: "bool \<Rightarrow> string" where
  "FormatBool b = (if b then ''true'' else ''false'')"

definition is_digit :: "char \<Rightarrow> bool" where
  "is_digit c = (48 \<le> (of_char c :: nat) \<and> (of_char c :: nat) \<le> 57)"

lemma is_digit_digit: "n < 10 \<Longrightarrow> is_digit (digit n)"
  by (simp add: is_digit_def digit_def)

lemma itoa_nat_nonempty [simp]: "itoa_nat n \<noteq> []"
  by (subst itoa_nat.simps) simp

lemma itoa_nat_digits: "list_all is_digit (itoa_nat n)"
proof (induction n rule: itoa_nat.induct)
  case (1 n)
  then show ?case
    by (cases "n < 10") (simp_all add: itoa_nat.simps [of n] is_digit_digit)
qed

fun digits_value :: "nat \<Rightarrow> string \<Rightarrow> nat" where
  "digits_value acc [] = acc"
| "digits_value acc (c # cs) = digits_value (10 * acc + (of_char c - 48)) cs"

lemma digits_value_append: "digits_value a (xs @ ys) = digits_value (digits_value a xs) ys"
  by (induction xs arbitrary: a) simp_all

lemma of_char_digit: "n < 10 \<Longrightarrow> (of_char (digit n) :: nat) = 48 + n"
  by (simp add: digit_def)

lemma digits_value_itoa_nat: "digits_value 0 (itoa_nat n) = n"
proof (induction n rule: itoa_nat.induct)
  case (1 n)
  show ?case
  proof (cases "n < 10")
    case True
    then show ?thesis by (simp add: itoa_nat.simps [of n] of_char_digit)
  next
    case False
    with 1 show ?thesis
      by (simp add: itoa_nat.simps [of n] digits_value_append of_char_digit)
  qed
qed

section \<open>Versions\<close>

text \<open>Versions of two numbers, in the order in which they are released.\<close>

datatype version = Version (v_major: int) (v_minor: int)

instantiation version :: linorder
begin

definition less_eq_version :: "version \<Rightarrow> version \<Rightarrow> bool" where
  "less_eq_version v w \<longleftrightarrow> v_major v < v_major w \<or> v_major v = v_major w \<and> v_minor v \<le> v_minor w"

definition less_version :: "version \<Rightarrow> version \<Rightarrow> bool" where
  "less_version v w \<longleftrightarrow> v_major v < v_major w \<or> v_major v = v_major w \<and> v_minor v < v_minor w"

instance
  by standard (auto simp: less_eq_version_def less_version_def intro: version.expand)

end

lemma Version_le [simp]: "Version a b \<le> Version c d \<longleftrightarrow> a < c \<or> a = c \<and> b \<le> d"
  by (simp add: less_eq_version_def)

lemma Version_less [simp]: "Version a b < Version c d \<longleftrightarrow> a < c \<or> a = c \<and> b < d"
  by (simp add: less_version_def)

section \<open>Loops that collect errors\<close>

text \<open>
  The shape of most loops of the program: run the body on every element, remember the
  errors, go on. The state is threaded through; a panic of the body ends the loop.
\<close>

fun for_errors ::
  "('x \<Rightarrow> 's \<Rightarrow> (goerr option \<times> 's) option) \<Rightarrow> 'x list \<Rightarrow> 's \<Rightarrow> (goerr list \<times> 's) option"
where
  "for_errors f [] s = Some ([], s)"
| "for_errors f (x # xs) s = do {
     (e, s1) \<leftarrow> f x s;
     (es, s2) \<leftarrow> for_errors f xs s1;
     Some (case e of None \<Rightarrow> es | Some y \<Rightarrow> y # es, s2)
   }"

text \<open>A reflexive and transitive relation kept by the body is kept by the loop.\<close>

lemma for_errors_rel:
  assumes run: "for_errors f xs s = Some (es, s')"
    and refl: "\<And>s. R s s"
    and trans: "\<And>s t u. R s t \<Longrightarrow> R t u \<Longrightarrow> R s u"
    and body: "\<And>x s e s'. x \<in> set xs \<Longrightarrow> f x s = Some (e, s') \<Longrightarrow> R s s'"
  shows "R s s'"
  using run body
proof (induction xs arbitrary: s es)
  case Nil
  then show ?case using refl by simp
next
  case (Cons x xs)
  from Cons.prems(1) obtain e s1 es1
    where 1: "f x s = Some (e, s1)" and 2: "for_errors f xs s1 = Some (es1, s')"
    by (auto split: Option.bind_splits)
  have "R s1 s'"
    using 2 Cons.IH Cons.prems(2) by (metis list.set_intros(2))
  moreover have "R s s1"
    using 1 Cons.prems(2) by (meson list.set_intros(1))
  ultimately show ?case using trans by blast
qed

lemma for_errors_total:
  assumes "\<And>x s. x \<in> set xs \<Longrightarrow> f x s \<noteq> None"
  shows "for_errors f xs s \<noteq> None"
  using assms
proof (induction xs arbitrary: s)
  case Nil
  then show ?case by simp
next
  case (Cons x xs)
  obtain e s1 where 1: "f x s = Some (e, s1)"
    using Cons.prems by (metis list.set_intros(1) option.exhaust prod.exhaust)
  have "for_errors f xs s1 \<noteq> None"
    using Cons.IH Cons.prems by simp
  with 1 show ?case by auto
qed

lemma for_errors_cong [fundef_cong]:
  assumes "xs = ys" and "s = t" and "\<And>x s. x \<in> set ys \<Longrightarrow> f x s = g x s"
  shows "for_errors f xs s = for_errors g ys t"
  unfolding assms(1,2) using assms(3)
  by (induction ys arbitrary: t) (auto intro!: Option.bind_cong)

text \<open>If the loop reports no error, the body reported none in any iteration.\<close>

lemma for_errors_no_error:
  assumes run: "for_errors f xs s = Some ([], s')"
    and refl: "\<And>s. R s s"
    and trans: "\<And>s t u. R s t \<Longrightarrow> R t u \<Longrightarrow> R s u"
    and body: "\<And>x s s'. x \<in> set xs \<Longrightarrow> f x s = Some (None, s') \<Longrightarrow> R s s'"
  shows "R s s'"
  using run body
proof (induction xs arbitrary: s)
  case Nil
  then show ?case using refl by simp
next
  case (Cons x xs)
  from Cons.prems(1) obtain s1
    where 1: "f x s = Some (None, s1)" and 2: "for_errors f xs s1 = Some ([], s')"
    by (auto split: Option.bind_splits option.splits)
  have "R s1 s'"
    using 2 Cons.IH Cons.prems(2) by (metis list.set_intros(2))
  moreover have "R s s1"
    using 1 Cons.prems(2) by (meson list.set_intros(1))
  ultimately show ?case using trans by blast
qed

end
