(* ===== verification/Objects.thy ===== *)
theory Objects
  imports Prelude
begin

text \<open>
  The data the operator handles. First the custom resource of the operator
  (\<open>api/v1/components\<close> and \<open>api/v1/deployment_types.go\<close>), one record per struct, a
  pointer field being an \<open>option\<close>; then the objects of the Kubernetes, OpenShift and
  CSI API groups, each with the fields the operator reads or writes (the types themselves
  are declared outside this repository).
\<close>

section \<open>The Deployment custom resource\<close>

type_synonym Format = string
type_synonym Level = string

record Image =
  img_Name :: string
  img_Tag :: string

record Log =
  log_Format :: Format
  log_Level :: Level

record Metrics =
  met_Path :: string
  met_Port :: "64 word"

record NodeSelector =
  ns_Key :: string
  ns_Value :: string

record PodSecurityPolicy =
  psp_Enable :: bool
  psp_ResourceName :: string

text \<open>Quantities are kept as their texts.\<close>

record ResourceRequirements =
  res_Limits :: gomap
  res_Requests :: gomap
  res_Claims :: "string list"

record SecurityContext =
  sec_Enable :: bool
  sec_Privileged :: "bool option"
  sec_RunAsNonRoot :: "bool option"
  sec_RunAsUser :: "int option"

record Args =
  arg_Timeout :: string
  arg_RetryIntervalStart :: string
  arg_RetryIntervalMax :: string
  arg_WorkerThreads :: int

record Sidecar =
  side_Image :: "Image option"
  side_Args :: "Args option"
  side_Resources :: "ResourceRequirements option"

type_synonym Sidecars = "(string, Sidecar) fmap"

record LogReceiver =
  lrec_Name :: string
  lrec_Image :: "Image option"

record Controller =
  ctl_Image :: "Image option"
  ctl_Log :: "Log option"
  ctl_Sidecars :: Sidecars
  ctl_Resources :: "ResourceRequirements option"
  ctl_FastDelay :: string
  ctl_SlowDelay :: string
  ctl_MaxFastAttempts :: "64 word"
  ctl_SecurityContext :: "SecurityContext option"

record DriveMgr =
  dm_Image :: "Image option"
  dm_Endpoint :: string
  dm_Resources :: "ResourceRequirements option"

record Node =
  nd_ServiceAccount :: string
  nd_DriveMgr :: "DriveMgr option"
  nd_Image :: "Image option"
  nd_Log :: "Log option"
  nd_Sidecars :: Sidecars
  nd_Resources :: "ResourceRequirements option"
  nd_PodSecurityPolicy :: "PodSecurityPolicy option"

record Driver =
  drv_Controller :: "Controller option"
  drv_Node :: "Node option"
  drv_Metrics :: "Metrics option"
  drv_LogReceiver :: "LogReceiver option"
  drv_MountRootHost :: bool

record NodeController =
  nc_Enable :: bool
  nc_Image :: "Image option"
  nc_Log :: "Log option"
  nc_Resources :: "ResourceRequirements option"

record OpenshiftSecondaryScheduler =
  oss_Image :: "Image option"

record Patcher =
  pat_Enable :: bool
  pat_Image :: "Image option"
  pat_Interval :: int
  pat_RestoreOnShutdown :: bool
  pat_ConfigMapName :: string
  pat_ReadinessTimeout :: "64 word"
  pat_Resources :: "ResourceRequirements option"

record Scheduler =
  sch_Enable :: bool
  sch_ServiceAccount :: string
  sch_Image :: "Image option"
  sch_Log :: "Log option"
  sch_Metrics :: "Metrics option"
  sch_Patcher :: "Patcher option"
  sch_ExtenderPort :: string
  sch_StorageProvisioner :: string
  sch_OpenshiftSecondaryScheduler :: "OpenshiftSecondaryScheduler option"
  sch_Resources :: "ResourceRequirements option"
  sch_SecurityContext :: "SecurityContext option"
  sch_PodSecurityPolicy :: "PodSecurityPolicy option"

record DeploymentSpec =
  sp_Driver :: "Driver option"
  sp_NodeController :: "NodeController option"
  sp_Scheduler :: "Scheduler option"
  sp_GlobalRegistry :: string
  sp_RegistrySecret :: string
  sp_PullPolicy :: string
  sp_NodeSelector :: "NodeSelector option"
  sp_NodeIDAnnotation :: bool
  sp_SequentialLVGReservation :: bool
  sp_Platform :: string

section \<open>Metadata\<close>

text \<open>Instants are nanoseconds; \<open>0\<close> is Go's zero time.\<close>

type_synonym time = int

record OwnerReference =
  own_Kind :: string
  own_Name :: string

record ObjectMeta =
  m_Name :: string
  m_Namespace :: string
  m_Labels :: gomap
  m_Finalizers :: "string list"
  m_CreationTimestamp :: time
  m_DeletionTimestamp :: "time option"
  m_OwnerReferences :: "OwnerReference list"

definition object_meta :: "string \<Rightarrow> string \<Rightarrow> gomap \<Rightarrow> ObjectMeta" where
  "object_meta ns name labels =
     \<lparr>m_Name = name, m_Namespace = ns, m_Labels = labels, m_Finalizers = [],
      m_CreationTimestamp = 0, m_DeletionTimestamp = None, m_OwnerReferences = []\<rparr>"

lemma object_meta_simps [simp]:
  "m_Name (object_meta ns name labels) = name"
  "m_Namespace (object_meta ns name labels) = ns"
  "m_Labels (object_meta ns name labels) = labels"
  by (simp_all add: object_meta_def)

record Deployment =
  dep_Meta :: ObjectMeta
  dep_Spec :: DeploymentSpec

abbreviation dep_Namespace :: "Deployment \<Rightarrow> string" where
  "dep_Namespace d \<equiv> m_Namespace (dep_Meta d)"

abbreviation dep_Name :: "Deployment \<Rightarrow> string" where
  "dep_Name d \<equiv> m_Name (dep_Meta d)"

section \<open>Workloads\<close>

datatype VolumeSource =
    EmptyDir
  | HostPath string string
  | ConfigMapSource string bool

record Volume =
  vol_Name :: string
  vol_Source :: VolumeSource

record VolumeMount =
  vm_Name :: string
  vm_MountPath :: string
  vm_ReadOnly :: bool
  vm_Bidirectional :: bool

datatype EnvVar =
    EnvValue string string
  | EnvField string string string

record ContainerPort =
  cp_Name :: string
  cp_HostPort :: int
  cp_ContainerPort :: int
  cp_Protocol :: string

datatype ProbeHandler =
    HTTPGet string string string
  | Exec "string list"

record Probe =
  pr_Handler :: ProbeHandler
  pr_InitialDelaySeconds :: int
  pr_TimeoutSeconds :: int
  pr_PeriodSeconds :: int
  pr_SuccessThreshold :: int
  pr_FailureThreshold :: int

record PodSecurityContext =
  psc_RunAsNonRoot :: "bool option"
  psc_RunAsUser :: "int option"

record Container =
  co_Name :: string
  co_Image :: string
  co_ImagePullPolicy :: string
  co_Command :: "string list"
  co_Args :: "string list"
  co_PreStop :: "string list option"
  co_Ports :: "ContainerPort list"
  co_LivenessProbe :: "Probe option"
  co_ReadinessProbe :: "Probe option"
  co_Env :: "EnvVar list"
  co_Privileged :: "bool option option"
  co_VolumeMounts :: "VolumeMount list"
  co_TerminationMessagePath :: string
  co_TerminationMessagePolicy :: string
  co_Resources :: ResourceRequirements

text \<open>The field \<open>co_Privileged\<close> is \<open>SecurityContext.Privileged\<close>, its outer \<open>None\<close> a nil
  \<open>SecurityContext\<close>. A toleration is its key, operator and effect.\<close>

record PodSpec =
  ps_Volumes :: "Volume list"
  ps_Containers :: "Container list"
  ps_RestartPolicy :: string
  ps_DNSPolicy :: string
  ps_TerminationGracePeriodSeconds :: int
  ps_NodeSelector :: gomap
  ps_ServiceAccountName :: string
  ps_DeprecatedServiceAccount :: string
  ps_SecurityContext :: PodSecurityContext
  ps_ImagePullSecrets :: "string list"
  ps_SchedulerName :: string
  ps_HostIPC :: bool
  ps_HostNetwork :: bool
  ps_Tolerations :: "(string \<times> string \<times> string) list"
  ps_RequiredNodeKeys :: "string list"

text \<open>\<open>ps_RequiredNodeKeys\<close>: the keys under operator \<open>Exists\<close> of the required node affinity.\<close>

record PodTemplateSpec =
  pt_Labels :: gomap
  pt_Annotations :: gomap
  pt_Spec :: PodSpec

record DaemonSetSpec =
  dss_Selector :: gomap
  dss_Template :: PodTemplateSpec

record DaemonSet =
  ds_Meta :: ObjectMeta
  ds_Spec :: DaemonSetSpec

record AppsDeploymentSpec =
  ads_Replicas :: "int option"
  ads_Selector :: gomap
  ads_Template :: PodTemplateSpec

record AppsDeployment =
  ad_Meta :: ObjectMeta
  ad_Spec :: AppsDeploymentSpec

record ConfigMap =
  cm_Meta :: ObjectMeta
  cm_Data :: gomap

section \<open>Cluster nodes, pods and RBAC objects\<close>

record Taint =
  t_Key :: string
  t_Value :: string
  t_Effect :: string
  t_TimeAdded :: "time option"

record CoreNode =
  n_Meta :: ObjectMeta
  n_Taints :: "Taint list option"
  n_KernelVersion :: string

record ContainerStatus =
  cs_RunningStartedAt :: "time option"

record Pod =
  p_Meta :: ObjectMeta
  p_NodeName :: string
  p_Phase :: string
  p_PodIP :: string
  p_ContainerStatuses :: "ContainerStatus list"

record PolicyRule =
  rule_Verbs :: "string list"
  rule_APIGroups :: "string list"
  rule_Resources :: "string list"
  rule_ResourceNames :: "string list"

record Role =
  r_Meta :: ObjectMeta
  r_Rules :: "PolicyRule list"

record Subject =
  sub_Kind :: string
  sub_Name :: string
  sub_Namespace :: string

record RoleBinding =
  rb_Meta :: ObjectMeta
  rb_Subjects :: "Subject list"
  rb_RoleRefKind :: string
  rb_RoleRefName :: string

section \<open>CSI and scheduler resources\<close>

record CsibmNode =
  bn_Meta :: ObjectMeta
  bn_UUID :: string
  bn_Addresses :: gomap

record Drive =
  dr_Meta :: ObjectMeta
  dr_NodeId :: string

record AvailableCapacity =
  ac_Meta :: ObjectMeta
  ac_NodeId :: string

record LogicalVolumeGroup =
  lvg_Meta :: ObjectMeta
  lvg_Node :: string

record CsiVolume =
  cv_Meta :: ObjectMeta
  cv_NodeId :: string

record AvailableCapacityReservation =
  acr_Meta :: ObjectMeta
  acr_Namespace :: string

record OpenshiftScheduler =
  osch_Meta :: ObjectMeta
  osch_PolicyName :: string

record SecondaryScheduler =
  ss_Meta :: ObjectMeta
  ss_ManagementState :: string
  ss_OperatorLogLevel :: string
  ss_LogLevel :: string
  ss_SchedulerConfig :: string
  ss_SchedulerImage :: string

section \<open>One sum over all kinds\<close>

datatype kind =
    K_ConfigMap | K_DaemonSet | K_AppsDeployment | K_CoreNode | K_Pod | K_Role | K_RoleBinding
  | K_CsibmNode | K_Drive | K_AvailableCapacity | K_LogicalVolumeGroup | K_CsiVolume
  | K_ACR | K_OpenshiftScheduler | K_SecondaryScheduler | K_Deployment

datatype obj =
    O_ConfigMap ConfigMap
  | O_DaemonSet DaemonSet
  | O_AppsDeployment AppsDeployment
  | O_CoreNode CoreNode
  | O_Pod Pod
  | O_Role Role
  | O_RoleBinding RoleBinding
  | O_CsibmNode CsibmNode
  | O_Drive Drive
  | O_AvailableCapacity AvailableCapacity
  | O_LogicalVolumeGroup LogicalVolumeGroup
  | O_CsiVolume CsiVolume
  | O_ACR AvailableCapacityReservation
  | O_OpenshiftScheduler OpenshiftScheduler
  | O_SecondaryScheduler SecondaryScheduler
  | O_Deployment Deployment

fun kind_of :: "obj \<Rightarrow> kind" where
  "kind_of (O_ConfigMap _) = K_ConfigMap"
| "kind_of (O_DaemonSet _) = K_DaemonSet"
| "kind_of (O_AppsDeployment _) = K_AppsDeployment"
| "kind_of (O_CoreNode _) = K_CoreNode"
| "kind_of (O_Pod _) = K_Pod"
| "kind_of (O_Role _) = K_Role"
| "kind_of (O_RoleBinding _) = K_RoleBinding"
| "kind_of (O_CsibmNode _) = K_CsibmNode"
| "kind_of (O_Drive _) = K_Drive"
| "kind_of (O_AvailableCapacity _) = K_AvailableCapacity"
| "kind_of (O_LogicalVolumeGroup _) = K_LogicalVolumeGroup"
| "kind_of (O_CsiVolume _) = K_CsiVolume"
| "kind_of (O_ACR _) = K_ACR"
| "kind_of (O_OpenshiftScheduler _) = K_OpenshiftScheduler"
| "kind_of (O_SecondaryScheduler _) = K_SecondaryScheduler"
| "kind_of (O_Deployment _) = K_Deployment"

fun meta_of :: "obj \<Rightarrow> ObjectMeta" where
  "meta_of (O_ConfigMap x) = cm_Meta x"
| "meta_of (O_DaemonSet x) = ds_Meta x"
| "meta_of (O_AppsDeployment x) = ad_Meta x"
| "meta_of (O_CoreNode x) = n_Meta x"
| "meta_of (O_Pod x) = p_Meta x"
| "meta_of (O_Role x) = r_Meta x"
| "meta_of (O_RoleBinding x) = rb_Meta x"
| "meta_of (O_CsibmNode x) = bn_Meta x"
| "meta_of (O_Drive x) = dr_Meta x"
| "meta_of (O_AvailableCapacity x) = ac_Meta x"
| "meta_of (O_LogicalVolumeGroup x) = lvg_Meta x"
| "meta_of (O_CsiVolume x) = cv_Meta x"
| "meta_of (O_ACR x) = acr_Meta x"
| "meta_of (O_OpenshiftScheduler x) = osch_Meta x"
| "meta_of (O_SecondaryScheduler x) = ss_Meta x"
| "meta_of (O_Deployment x) = dep_Meta x"

end
