(* ===== verification/Effects.thy ===== *)
theory Effects
  imports Objects
begin

text \<open>
  The outside world: the Kubernetes API server behind the two clients of the operator
  (\<open>kubernetes.Interface\<close> and controller-runtime's \<open>client.Client\<close>), the clock, the network and
  the libraries whose code is not in this repository. All of it is a parameter, the record
  \<open>'w cluster\<close>, over an arbitrary type \<open>'w\<close> of worlds: a call may answer anything and change
  the world in any way. A theorem over all clusters and all worlds therefore holds for
  every sequence of answers the operator can meet.

  The state of a run is the world and the trace of what the operator asked for: every
  object it created, updated or deleted, with the error it got back, every event it
  emitted, every probe of a scheduler extender and every pause.
\<close>

section \<open>Clients\<close>

text \<open>\<open>list_opts\<close>: the namespace (empty for all), the label selector and the field
  selector. A label selector is a list of requirements, a key with its value, or with
  \<open>None\<close> for the selector that only names a key.\<close>

record list_opts =
  lo_Namespace :: string
  lo_Labels :: "(string \<times> string option) list"
  lo_NodeName :: "string option"

definition list_all_objects :: list_opts where
  "list_all_objects = \<lparr>lo_Namespace = [], lo_Labels = [], lo_NodeName = None\<rparr>"

type_synonym api_error = "bool \<times> string"

record ('o, 'w) kclient =
  kc_get :: "string \<Rightarrow> string \<Rightarrow> 'w \<Rightarrow> (api_error + 'o) \<times> 'w"
  kc_list :: "list_opts \<Rightarrow> 'w \<Rightarrow> (api_error + 'o list) \<times> 'w"
  kc_create :: "'o \<Rightarrow> 'w \<Rightarrow> (api_error + 'o) \<times> 'w"
  kc_update :: "'o \<Rightarrow> 'w \<Rightarrow> (api_error + 'o) \<times> 'w"
  kc_delete :: "string \<Rightarrow> string \<Rightarrow> 'w \<Rightarrow> api_error option \<times> 'w"

record 'w cluster =
  k_ConfigMaps :: "(ConfigMap, 'w) kclient"
  k_DaemonSets :: "(DaemonSet, 'w) kclient"
  k_Deployments :: "(AppsDeployment, 'w) kclient"
  k_Nodes :: "(CoreNode, 'w) kclient"
  k_Pods :: "(Pod, 'w) kclient"
  k_Roles :: "(Role, 'w) kclient"
  k_RoleBindings :: "(RoleBinding, 'w) kclient"
  k_CsibmNodes :: "(CsibmNode, 'w) kclient"
  k_Drives :: "(Drive, 'w) kclient"
  k_ACs :: "(AvailableCapacity, 'w) kclient"
  k_LVGs :: "(LogicalVolumeGroup, 'w) kclient"
  k_Volumes :: "(CsiVolume, 'w) kclient"
  k_ACRs :: "(AvailableCapacityReservation, 'w) kclient"
  k_Schedulers :: "(OpenshiftScheduler, 'w) kclient"
  k_SecondarySchedulers :: "(SecondaryScheduler, 'w) kclient"
  k_CsiDeployments :: "(Deployment, 'w) kclient"
  k_ServerVersion :: "'w \<Rightarrow> (api_error + string \<times> string) \<times> 'w"
  k_HTTPGet :: "string \<Rightarrow> 'w \<Rightarrow> (string + nat) \<times> 'w"
  k_Now :: "'w \<Rightarrow> time \<times> 'w"
  k_After :: "int \<Rightarrow> 'w \<Rightarrow> 'w"
  k_Eventf :: "Deployment \<Rightarrow> string \<Rightarrow> string \<Rightarrow> 'w \<Rightarrow> 'w"
  lib_SetControllerReference :: "Deployment \<Rightarrow> ObjectMeta \<Rightarrow> string + ObjectMeta"
  lib_EqualReplicas :: "int option \<Rightarrow> int option \<Rightarrow> bool"
  lib_EqualSelector :: "gomap \<Rightarrow> gomap \<Rightarrow> bool"
  lib_EqualTemplate :: "PodTemplateSpec \<Rightarrow> PodTemplateSpec \<Rightarrow> bool"
  lib_YamlReadiness :: "(string \<times> string \<times> bool) list \<Rightarrow> string + string"

section \<open>The trace\<close>

datatype event =
    Created obj "goerr option"
  | Updated obj "goerr option"
  | Deleted kind string string "goerr option"
  | Emitted string string
  | Probed string bool
  | Paused int

record 'w sys =
  world :: 'w
  trace :: "event list"

definition log_event :: "event \<Rightarrow> 'w sys \<Rightarrow> 'w sys" where
  "log_event e s = s\<lparr>trace := trace s @ [e]\<rparr>"

section \<open>Calls\<close>

definition api_err :: "api_error \<Rightarrow> goerr" where
  "api_err e = ApiError (fst e) (snd e)"

definition api_res :: "api_error + 'a \<Rightarrow> goerr + 'a" where
  "api_res r = (case r of Inl e \<Rightarrow> Inl (api_err e) | Inr x \<Rightarrow> Inr x)"

lemma api_res_simps [simp]:
  "api_res (Inl e) = Inl (api_err e)"
  "api_res (Inr x) = Inr x"
  by (simp_all add: api_res_def)

lemma AsRbacError_api_err [simp]: "\<not> AsRbacError (api_err e)" "\<not> AsVerifierError (api_err e)"
  by (simp_all add: api_err_def)

definition in_world :: "('w \<Rightarrow> 'a \<times> 'w) \<Rightarrow> 'w sys \<Rightarrow> 'a \<times> 'w sys" where
  "in_world f s = (case f (world s) of (r, w) \<Rightarrow> (r, s\<lparr>world := w\<rparr>))"

definition kget ::
  "('o, 'w) kclient \<Rightarrow> string \<Rightarrow> string \<Rightarrow> 'w sys \<Rightarrow> ((goerr + 'o) \<times> 'w sys) option" where
  "kget c ns name s = (case in_world (kc_get c ns name) s of (r, t) \<Rightarrow> Some (api_res r, t))"

definition klist ::
  "('o, 'w) kclient \<Rightarrow> list_opts \<Rightarrow> 'w sys \<Rightarrow> ((goerr + 'o list) \<times> 'w sys) option" where
  "klist c opts s = (case in_world (kc_list c opts) s of (r, t) \<Rightarrow> Some (api_res r, t))"

definition kcreate ::
  "('o, 'w) kclient \<Rightarrow> ('o \<Rightarrow> obj) \<Rightarrow> 'o \<Rightarrow> 'w sys \<Rightarrow> ((goerr + 'o) \<times> 'w sys) option" where
  "kcreate c mk x s =
     (case in_world (kc_create c x) s of
        (r, t) \<Rightarrow> Some (api_res r, log_event (Created (mk x) (err_of (api_res r))) t))"

definition kupdate ::
  "('o, 'w) kclient \<Rightarrow> ('o \<Rightarrow> obj) \<Rightarrow> 'o \<Rightarrow> 'w sys \<Rightarrow> ((goerr + 'o) \<times> 'w sys) option" where
  "kupdate c mk x s =
     (case in_world (kc_update c x) s of
        (r, t) \<Rightarrow> Some (api_res r, log_event (Updated (mk x) (err_of (api_res r))) t))"

definition kdelete ::
  "('o, 'w) kclient \<Rightarrow> kind \<Rightarrow> string \<Rightarrow> string \<Rightarrow> 'w sys \<Rightarrow> (goerr option \<times> 'w sys) option" where
  "kdelete c k ns name s =
     (case in_world (kc_delete c ns name) s of
        (r, t) \<Rightarrow> Some (map_option api_err r,
                      log_event (Deleted k ns name (map_option api_err r)) t))"

definition now :: "'w cluster \<Rightarrow> 'w sys \<Rightarrow> (time \<times> 'w sys) option" where
  "now k s = Some (in_world (k_Now k) s)"

definition pause :: "'w cluster \<Rightarrow> int \<Rightarrow> 'w sys \<Rightarrow> (unit \<times> 'w sys) option" where
  "pause k d s = Some ((), log_event (Paused d) (s\<lparr>world := k_After k d (world s)\<rparr>))"

definition eventf ::
  "'w cluster \<Rightarrow> Deployment \<Rightarrow> string \<Rightarrow> string \<Rightarrow> 'w sys \<Rightarrow> (unit \<times> 'w sys) option" where
  "eventf k csi reason account s =
     Some ((), log_event (Emitted reason account) (s\<lparr>world := k_Eventf k csi reason account (world s)\<rparr>))"

definition set_owner :: "'w cluster \<Rightarrow> Deployment \<Rightarrow> ObjectMeta \<Rightarrow> goerr + ObjectMeta" where
  "set_owner k csi m =
     (case lib_SetControllerReference k csi m of Inl e \<Rightarrow> Inl (LibError e) | Inr m' \<Rightarrow> Inr m')"

lemma set_owner_not_verifier [simp]: "set_owner k csi m = Inl e \<Longrightarrow> \<not> AsVerifierError e"
  by (auto simp: set_owner_def split: sum.splits)

section \<open>Reasoning about the trace\<close>

text \<open>\<open>emits P s s'\<close>: between \<open>s\<close> and \<open>s'\<close> only events with \<open>P\<close> were appended.\<close>

definition emits :: "(event \<Rightarrow> bool) \<Rightarrow> 'w sys \<Rightarrow> 'w sys \<Rightarrow> bool" where
  "emits P s s' \<longleftrightarrow> (\<exists>es. trace s' = trace s @ es \<and> list_all P es)"

abbreviation silent :: "'w sys \<Rightarrow> 'w sys \<Rightarrow> bool" where
  "silent s s' \<equiv> trace s' = trace s"

lemma emits_refl [simp, intro]: "emits P s s"
  by (simp add: emits_def)

lemma emits_trans [trans]: "emits P s t \<Longrightarrow> emits P t u \<Longrightarrow> emits P s u"
  by (auto simp: emits_def)

lemma emits_mono: "emits P s t \<Longrightarrow> (\<And>e. P e \<Longrightarrow> Q e) \<Longrightarrow> emits Q s t"
  by (auto simp: emits_def list_all_iff)

lemma silent_emits: "silent s t \<Longrightarrow> emits P s t"
  by (simp add: emits_def)

lemma silent_then_emits: "silent s t \<Longrightarrow> emits P t u \<Longrightarrow> emits P s u"
  by (simp add: emits_def)

lemma emits_False: "emits (\<lambda>_. False) s t \<longleftrightarrow> silent s t"
  by (auto simp: emits_def list_all_iff)

lemma emits_set: "emits P s t \<longleftrightarrow> (\<exists>es. trace t = trace s @ es \<and> (\<forall>e \<in> set es. P e))"
  by (simp add: emits_def list_all_iff)

text \<open>What a run appended, and the kind and the outcome of an event.\<close>

definition new_events :: "'w sys \<Rightarrow> 'w sys \<Rightarrow> event list" where
  "new_events s t = drop (length (trace s)) (trace t)"

fun event_kind :: "event \<Rightarrow> kind option" where
  "event_kind (Created x _) = Some (kind_of x)"
| "event_kind (Updated x _) = Some (kind_of x)"
| "event_kind (Deleted k _ _ _) = Some k"
| "event_kind _ = None"

fun event_error :: "event \<Rightarrow> goerr option" where
  "event_error (Created _ r) = r"
| "event_error (Updated _ r) = r"
| "event_error (Deleted _ _ _ r) = r"
| "event_error _ = None"

lemma new_events_append [simp]: "trace t = trace s @ es \<Longrightarrow> new_events s t = es"
  by (simp add: new_events_def)

lemma emits_new_events: "emits P s t \<Longrightarrow> e \<in> set (new_events s t) \<Longrightarrow> P e"
  by (auto simp: emits_def list_all_iff)

text \<open>\<open>same_key c meta\<close>: the API answers a read or an update with the object of that key.\<close>

definition same_key :: "('o, 'w) kclient \<Rightarrow> ('o \<Rightarrow> ObjectMeta) \<Rightarrow> bool" where
  "same_key c meta \<longleftrightarrow>
     (\<forall>ns n w x w'. kc_get c ns n w = (Inr x, w') \<longrightarrow> m_Namespace (meta x) = ns \<and> m_Name (meta x) = n) \<and>
     (\<forall>x w y w'. kc_update c x w = (Inr y, w') \<longrightarrow>
        m_Namespace (meta y) = m_Namespace (meta x) \<and> m_Name (meta y) = m_Name (meta x))"

lemma kget_answer: "kget c ns n s = Some (Inr x, t) \<Longrightarrow> kc_get c ns n (world s) = (Inr x, world t)"
  by (auto simp: kget_def in_world_def api_res_def split: prod.splits sum.splits)

lemma kupdate_answer: "kupdate c mk x s = Some (Inr y, t) \<Longrightarrow> kc_update c x (world s) = (Inr y, world t)"
  by (auto simp: kupdate_def in_world_def api_res_def log_event_def split: prod.splits sum.splits)

lemma kcreate_answer: "kcreate c mk x s = Some (Inr y, t) \<Longrightarrow> kc_create c x (world s) = (Inr y, world t)"
  by (auto simp: kcreate_def in_world_def api_res_def log_event_def split: prod.splits sum.splits)

lemma kget_same_key:
  "same_key c meta \<Longrightarrow> kget c ns n s = Some (Inr x, t) \<Longrightarrow> m_Namespace (meta x) = ns \<and> m_Name (meta x) = n"
  unfolding same_key_def by (blast dest: kget_answer)

lemma kupdate_same_key:
  "same_key c meta \<Longrightarrow> kupdate c mk x s = Some (Inr y, t) \<Longrightarrow>
   m_Namespace (meta y) = m_Namespace (meta x) \<and> m_Name (meta y) = m_Name (meta x)"
  unfolding same_key_def by (blast dest: kupdate_answer)

lemma kget_silent [quiet]: "kget c ns name s = Some (r, t) \<Longrightarrow> silent s t"
  by (auto simp: kget_def in_world_def split: prod.splits)

lemma klist_silent [quiet]: "klist c opts s = Some (r, t) \<Longrightarrow> silent s t"
  by (auto simp: klist_def in_world_def split: prod.splits)

lemma now_silent [quiet]: "now k s = Some (r, t) \<Longrightarrow> silent s t"
  by (auto simp: now_def in_world_def split: prod.splits)

lemma kcreate_trace [writes]:
  "kcreate c mk x s = Some (r, t) \<Longrightarrow> trace t = trace s @ [Created (mk x) (err_of r)]"
  by (auto simp: kcreate_def in_world_def log_event_def split: prod.splits)

lemma kupdate_trace [writes]:
  "kupdate c mk x s = Some (r, t) \<Longrightarrow> trace t = trace s @ [Updated (mk x) (err_of r)]"
  by (auto simp: kupdate_def in_world_def log_event_def split: prod.splits)

lemma kdelete_trace [writes]:
  "kdelete c k ns name s = Some (r, t) \<Longrightarrow> trace t = trace s @ [Deleted k ns name r]"
  by (auto simp: kdelete_def in_world_def log_event_def split: prod.splits)

lemma pause_trace [writes]: "pause k d s = Some (r, t) \<Longrightarrow> trace t = trace s @ [Paused d]"
  by (auto simp: pause_def log_event_def)

lemma eventf_trace [writes]:
  "eventf k csi reason a s = Some (r, t) \<Longrightarrow> trace t = trace s @ [Emitted reason a]"
  by (auto simp: eventf_def log_event_def)

text \<open>Loops append what their bodies append.\<close>

lemma for_errors_emits:
  assumes "for_errors f xs s = Some (es, t)"
    and "\<And>x s e s'. x \<in> set xs \<Longrightarrow> f x s = Some (e, s') \<Longrightarrow> emits P s s'"
  shows "emits P s t"
  using assms(1)
  by (rule for_errors_rel [where R = "emits P"])
    (rule emits_refl, erule (1) emits_trans, erule (1) assms(2))

lemma for_errors_emits_ok:
  assumes "for_errors f xs s = Some ([], t)"
    and "\<And>x s s'. x \<in> set xs \<Longrightarrow> f x s = Some (None, s') \<Longrightarrow> emits P s s'"
  shows "emits P s t"
  using assms(1)
  by (rule for_errors_no_error [where R = "emits P"])
    (rule emits_refl, erule (1) emits_trans, erule (1) assms(2))

text \<open>No call panics.\<close>

lemma calls_return [simp]:
  "kget c ns name s \<noteq> None" "klist c opts s \<noteq> None" "kcreate c mk x s \<noteq> None"
  "kupdate c mk x s \<noteq> None" "kdelete c kd ns name s \<noteq> None" "now k s \<noteq> None"
  "pause k d s \<noteq> None" "eventf k csi reason a s \<noteq> None"
  by (simp_all add: kget_def klist_def kcreate_def kupdate_def kdelete_def now_def pause_def
      eventf_def split: prod.splits)

lemma calls_return_ex [simp]:
  "\<exists>t r. kget c ns name s = Some (r, t)" "\<exists>t r. klist c opts s = Some (r, t)"
  "\<exists>t r. kcreate c mk x s = Some (r, t)" "\<exists>t r. kupdate c mk x s = Some (r, t)"
  "\<exists>t r. kdelete c kd ns name s = Some (r, t)"
  using calls_return by (metis not_None_eq surj_pair)+

text \<open>Errors of the API are never validator errors.\<close>

fun is_api_error :: "goerr \<Rightarrow> bool" where
  "is_api_error (ApiError _ _) = True"
| "is_api_error _ = False"

lemma is_api_error_api_err [simp]: "is_api_error (api_err e)"
  by (simp add: api_err_def)

lemma is_api_error_not_As: "is_api_error e \<Longrightarrow> \<not> AsRbacError e \<and> \<not> AsVerifierError e"
  by (cases e) auto

lemma kcalls_api_error:
  "kget c ns name s = Some (Inl e, t) \<Longrightarrow> is_api_error e"
  "klist c opts s = Some (Inl e, t) \<Longrightarrow> is_api_error e"
  "kcreate c mk x s = Some (Inl e, t) \<Longrightarrow> is_api_error e"
  "kupdate c mk x s = Some (Inl e, t) \<Longrightarrow> is_api_error e"
  "kdelete c kd ns name s = Some (Some e, t) \<Longrightarrow> is_api_error e"
  by (auto simp: kget_def klist_def kcreate_def kupdate_def kdelete_def in_world_def api_res_def
      split: prod.splits sum.splits)

end
