(* ===== verification/Calls.thy ===== *)
theory Calls
  imports Effects
begin

text \<open>
  A run of the operator as a sequence of calls to the outside. \<open>calls k K s t\<close> holds when the
  calls between \<open>s\<close> and \<open>t\<close> write only through the clients of the kinds \<open>K\<close>; it bounds both
  what is written and how the world can change, since the world only changes in calls.
  The judgements \<open>flow1\<close> to \<open>flow4\<close> say this of a computation, by the shape of its result, and
  the collection \<open>flow\<close> holds the rules by which it is shown for the operations.
\<close>

named_theorems flow "which calls an operation makes"

section \<open>Footprints\<close>

text \<open>\<open>touches K e\<close>: \<open>e\<close> writes only objects of the kinds \<open>K\<close>; probes, pauses and warning events
  write no object.\<close>

definition touches :: "kind set \<Rightarrow> event \<Rightarrow> bool" where
  "touches K e \<longleftrightarrow> (case event_kind e of None \<Rightarrow> True | Some kd \<Rightarrow> kd \<in> K)"

lemma touches_simps [simp]:
  "touches K (Created x r) \<longleftrightarrow> kind_of x \<in> K"
  "touches K (Updated x r) \<longleftrightarrow> kind_of x \<in> K"
  "touches K (Deleted kd ns n r) \<longleftrightarrow> kd \<in> K"
  "touches K (Emitted a b)" "touches K (Probed u ok)" "touches K (Paused d)"
  by (simp_all add: touches_def)

abbreviation writes_in :: "kind set \<Rightarrow> 'w sys \<Rightarrow> 'w sys \<Rightarrow> bool" where
  "writes_in K \<equiv> emits (touches K)"

lemma touches_mono: "touches K e \<Longrightarrow> K \<subseteq> L \<Longrightarrow> touches L e"
  by (auto simp: touches_def split: option.splits)

lemma writes_in_mono: "writes_in K s t \<Longrightarrow> K \<subseteq> L \<Longrightarrow> writes_in L s t"
  by (erule emits_mono) (erule (1) touches_mono)

section \<open>One call\<close>

definition client_call ::
  "('o, 'w) kclient \<Rightarrow> ('o \<Rightarrow> obj) \<Rightarrow> kind \<Rightarrow> kind set \<Rightarrow> 'w sys \<Rightarrow> 'w sys \<Rightarrow> bool" where
  "client_call c mk kd K s t \<longleftrightarrow>
     (\<exists>ns n r. kget c ns n s = Some (r, t)) \<or> (\<exists>opts r. klist c opts s = Some (r, t)) \<or>
     kd \<in> K \<and> ((\<exists>x r. kcreate c mk x s = Some (r, t)) \<or> (\<exists>x r. kupdate c mk x s = Some (r, t)) \<or>
               (\<exists>ns n r. kdelete c kd ns n s = Some (r, t)))"

definition other_call :: "'w cluster \<Rightarrow> 'w sys \<Rightarrow> 'w sys \<Rightarrow> bool" where
  "other_call k s t \<longleftrightarrow>
     (\<exists>r. in_world (k_ServerVersion k) s = (r, t)) \<or> (\<exists>r. in_world (k_Now k) s = (r, t)) \<or>
     (\<exists>r u url ok. in_world (k_HTTPGet k url) s = (r, u) \<and> t = log_event (Probed url ok) u) \<or>
     (\<exists>r d. pause k d s = Some (r, t)) \<or> (\<exists>r csi reason a. eventf k csi reason a s = Some (r, t))"

definition one_call :: "'w cluster \<Rightarrow> kind set \<Rightarrow> 'w sys \<Rightarrow> 'w sys \<Rightarrow> bool" where
  "one_call k K s t \<longleftrightarrow>
     client_call (k_ConfigMaps k) O_ConfigMap K_ConfigMap K s t \<or>
     client_call (k_DaemonSets k) O_DaemonSet K_DaemonSet K s t \<or>
     client_call (k_Deployments k) O_AppsDeployment K_AppsDeployment K s t \<or>
     client_call (k_Nodes k) O_CoreNode K_CoreNode K s t \<or>
     client_call (k_Pods k) O_Pod K_Pod K s t \<or>
     client_call (k_Roles k) O_Role K_Role K s t \<or>
     client_call (k_RoleBindings k) O_RoleBinding K_RoleBinding K s t \<or>
     client_call (k_CsibmNodes k) O_CsibmNode K_CsibmNode K s t \<or>
     client_call (k_Drives k) O_Drive K_Drive K s t \<or>
     client_call (k_ACs k) O_AvailableCapacity K_AvailableCapacity K s t \<or>
     client_call (k_LVGs k) O_LogicalVolumeGroup K_LogicalVolumeGroup K s t \<or>
     client_call (k_Volumes k) O_CsiVolume K_CsiVolume K s t \<or>
     client_call (k_ACRs k) O_ACR K_ACR K s t \<or>
     client_call (k_Schedulers k) O_OpenshiftScheduler K_OpenshiftScheduler K s t \<or>
     client_call (k_SecondarySchedulers k) O_SecondaryScheduler K_SecondaryScheduler K s t \<or>
     client_call (k_CsiDeployments k) O_Deployment K_Deployment K s t \<or>
     other_call k s t"

abbreviation calls :: "'w cluster \<Rightarrow> kind set \<Rightarrow> 'w sys \<Rightarrow> 'w sys \<Rightarrow> bool" where
  "calls k K \<equiv> (one_call k K)\<^sup>*\<^sup>*"

lemma client_call_mono: "client_call c mk kd K s t \<Longrightarrow> K \<subseteq> L \<Longrightarrow> client_call c mk kd L s t"
  by (auto simp: client_call_def)

lemma one_call_mono: "one_call k K s t \<Longrightarrow> K \<subseteq> L \<Longrightarrow> one_call k L s t"
  unfolding one_call_def using client_call_mono by meson

lemma calls_mono: "calls k K s t \<Longrightarrow> K \<subseteq> L \<Longrightarrow> calls k L s t"
  by (erule rtranclp_mono [THEN predicate2D, rotated]) (auto intro: one_call_mono)

lemma client_call_writes: "client_call c mk kd K s t \<Longrightarrow> (\<And>x. kind_of (mk x) = kd) \<Longrightarrow> writes_in K s t"
  by (auto simp: client_call_def emits_def dest!: kget_silent klist_silent kcreate_trace kupdate_trace kdelete_trace)

lemma in_world_trace: "in_world f s = (r, t) \<Longrightarrow> trace t = trace s"
  by (auto simp: in_world_def split: prod.splits)

lemma other_call_writes: "other_call k s t \<Longrightarrow> writes_in K s t"
  by (auto simp: other_call_def emits_def log_event_def dest!: in_world_trace pause_trace eventf_trace)

lemma one_call_writes: "one_call k K s t \<Longrightarrow> writes_in K s t"
  unfolding one_call_def by (elim disjE) (auto elim!: client_call_writes other_call_writes)

lemma calls_writes: "calls k K s t \<Longrightarrow> writes_in K s t"
  by (induction rule: rtranclp_induct) (auto intro: emits_trans one_call_writes)

text \<open>\<open>serves k c mk kd\<close>: \<open>c\<close> is the client of the cluster for the kind \<open>kd\<close>.\<close>

definition serves :: "'w cluster \<Rightarrow> ('o, 'w) kclient \<Rightarrow> ('o \<Rightarrow> obj) \<Rightarrow> kind \<Rightarrow> bool" where
  "serves k c mk kd \<longleftrightarrow> (\<forall>K s t. client_call c mk kd K s t \<longrightarrow> one_call k K s t)"

definition reads_from :: "'w cluster \<Rightarrow> ('o, 'w) kclient \<Rightarrow> bool" where
  "reads_from k c \<longleftrightarrow> (\<exists>mk kd. serves k c mk kd)"

definition deletes_from :: "'w cluster \<Rightarrow> ('o, 'w) kclient \<Rightarrow> kind \<Rightarrow> bool" where
  "deletes_from k c kd \<longleftrightarrow> (\<exists>mk. serves k c mk kd)"

lemma serves [simp]:
  "serves k (k_ConfigMaps k) O_ConfigMap K_ConfigMap"
  "serves k (k_DaemonSets k) O_DaemonSet K_DaemonSet"
  "serves k (k_Deployments k) O_AppsDeployment K_AppsDeployment"
  "serves k (k_Nodes k) O_CoreNode K_CoreNode"
  "serves k (k_Pods k) O_Pod K_Pod"
  "serves k (k_Roles k) O_Role K_Role"
  "serves k (k_RoleBindings k) O_RoleBinding K_RoleBinding"
  "serves k (k_CsibmNodes k) O_CsibmNode K_CsibmNode"
  "serves k (k_Drives k) O_Drive K_Drive"
  "serves k (k_ACs k) O_AvailableCapacity K_AvailableCapacity"
  "serves k (k_LVGs k) O_LogicalVolumeGroup K_LogicalVolumeGroup"
  "serves k (k_Volumes k) O_CsiVolume K_CsiVolume"
  "serves k (k_ACRs k) O_ACR K_ACR"
  "serves k (k_Schedulers k) O_OpenshiftScheduler K_OpenshiftScheduler"
  "serves k (k_SecondarySchedulers k) O_SecondaryScheduler K_SecondaryScheduler"
  "serves k (k_CsiDeployments k) O_Deployment K_Deployment"
  by (simp_all add: serves_def one_call_def)

lemma reads_from [simp]:
  "reads_from k (k_ConfigMaps k)" "reads_from k (k_DaemonSets k)" "reads_from k (k_Deployments k)" "reads_from k (k_Nodes k)"
  "reads_from k (k_Pods k)" "reads_from k (k_Roles k)" "reads_from k (k_RoleBindings k)" "reads_from k (k_CsibmNodes k)"
  "reads_from k (k_Drives k)" "reads_from k (k_ACs k)" "reads_from k (k_LVGs k)" "reads_from k (k_Volumes k)"
  "reads_from k (k_ACRs k)" "reads_from k (k_Schedulers k)" "reads_from k (k_SecondarySchedulers k)" "reads_from k (k_CsiDeployments k)"
  unfolding reads_from_def using serves by blast+

lemma deletes_from [simp]:
  "deletes_from k (k_ConfigMaps k) K_ConfigMap"
  "deletes_from k (k_DaemonSets k) K_DaemonSet"
  "deletes_from k (k_Deployments k) K_AppsDeployment"
  "deletes_from k (k_Nodes k) K_CoreNode"
  "deletes_from k (k_Pods k) K_Pod"
  "deletes_from k (k_Roles k) K_Role"
  "deletes_from k (k_RoleBindings k) K_RoleBinding"
  "deletes_from k (k_CsibmNodes k) K_CsibmNode"
  "deletes_from k (k_Drives k) K_Drive"
  "deletes_from k (k_ACs k) K_AvailableCapacity"
  "deletes_from k (k_LVGs k) K_LogicalVolumeGroup"
  "deletes_from k (k_Volumes k) K_CsiVolume"
  "deletes_from k (k_ACRs k) K_ACR"
  "deletes_from k (k_Schedulers k) K_OpenshiftScheduler"
  "deletes_from k (k_SecondarySchedulers k) K_SecondaryScheduler"
  "deletes_from k (k_CsiDeployments k) K_Deployment"
  unfolding deletes_from_def using serves by blast+

section \<open>Which calls a computation makes\<close>

definition flow1 :: "'w cluster \<Rightarrow> kind set \<Rightarrow> 'w sys \<Rightarrow> 'w sys option \<Rightarrow> bool" where
  "flow1 k K s m \<longleftrightarrow> (\<forall>t. m = Some t \<longrightarrow> calls k K s t)"

definition flow2 :: "'w cluster \<Rightarrow> kind set \<Rightarrow> 'w sys \<Rightarrow> ('a \<times> 'w sys) option \<Rightarrow> bool" where
  "flow2 k K s m \<longleftrightarrow> (\<forall>a t. m = Some (a, t) \<longrightarrow> calls k K s t)"

definition flow3 :: "'w cluster \<Rightarrow> kind set \<Rightarrow> 'w sys \<Rightarrow> ('a \<times> 'b \<times> 'w sys) option \<Rightarrow> bool" where
  "flow3 k K s m \<longleftrightarrow> (\<forall>a b t. m = Some (a, b, t) \<longrightarrow> calls k K s t)"

definition flow4 :: "'w cluster \<Rightarrow> kind set \<Rightarrow> 'w sys \<Rightarrow> ('a \<times> 'b \<times> 'c \<times> 'w sys) option \<Rightarrow> bool" where
  "flow4 k K s m \<longleftrightarrow> (\<forall>a b c t. m = Some (a, b, c, t) \<longrightarrow> calls k K s t)"

lemmas flow_defs = flow1_def flow2_def flow3_def flow4_def

lemma flow_calls:
  "m1 = Some t \<Longrightarrow> flow1 k K s m1 \<Longrightarrow> calls k K s t"
  "m2 = Some (a, t) \<Longrightarrow> flow2 k K s m2 \<Longrightarrow> calls k K s t"
  "m3 = Some (a, b, t) \<Longrightarrow> flow3 k K s m3 \<Longrightarrow> calls k K s t"
  "m4 = Some (a, b, c, t) \<Longrightarrow> flow4 k K s m4 \<Longrightarrow> calls k K s t"
  by (simp_all add: flow_defs)

lemma flow_mono:
  "flow1 k K s m1 \<Longrightarrow> K \<subseteq> L \<Longrightarrow> flow1 k L s m1"
  "flow2 k K s m2 \<Longrightarrow> K \<subseteq> L \<Longrightarrow> flow2 k L s m2"
  "flow3 k K s m3 \<Longrightarrow> K \<subseteq> L \<Longrightarrow> flow3 k L s m3"
  "flow4 k K s m4 \<Longrightarrow> K \<subseteq> L \<Longrightarrow> flow4 k L s m4"
  by (auto simp: flow_defs intro: calls_mono)

text \<open>Results.\<close>

lemma flow_results [flow]:
  "flow1 k K s (Some s)" "flow2 k K s (Some (a, s))" "flow3 k K s (Some (a, b, s))"
  "flow4 k K s (Some (a, b, c, s))"
  "flow1 k K s None" "flow2 k K s None" "flow3 k K s None" "flow4 k K s None"
  by (simp_all add: flow_defs)

text \<open>Sequences: first those whose first part only computes, then those where it makes calls.\<close>

lemma flow_pure [flow]:
  "(\<And>x. flow1 k K s (f1 x)) \<Longrightarrow> flow1 k K s (p \<bind> f1)"
  "(\<And>x. flow2 k K s (f2 x)) \<Longrightarrow> flow2 k K s (p \<bind> f2)"
  "(\<And>x. flow3 k K s (f3 x)) \<Longrightarrow> flow3 k K s (p \<bind> f3)"
  "(\<And>x. flow4 k K s (f4 x)) \<Longrightarrow> flow4 k K s (p \<bind> f4)"
  by (cases p; simp add: flow_defs)+

lemma flow_seq1 [flow]:
  "flow1 k K s m \<Longrightarrow> (\<And>t. flow1 k K t (f1 t)) \<Longrightarrow> flow1 k K s (m \<bind> f1)"
  "flow1 k K s m \<Longrightarrow> (\<And>t. flow2 k K t (f2 t)) \<Longrightarrow> flow2 k K s (m \<bind> f2)"
  "flow1 k K s m \<Longrightarrow> (\<And>t. flow3 k K t (f3 t)) \<Longrightarrow> flow3 k K s (m \<bind> f3)"
  "flow1 k K s m \<Longrightarrow> (\<And>t. flow4 k K t (f4 t)) \<Longrightarrow> flow4 k K s (m \<bind> f4)"
  by (cases m; fastforce simp: flow_defs intro: rtranclp_trans)+

lemma flow_seq2 [flow]:
  "flow2 k K s m \<Longrightarrow> (\<And>a t. flow1 k K t (f1 (a, t))) \<Longrightarrow> flow1 k K s (m \<bind> f1)"
  "flow2 k K s m \<Longrightarrow> (\<And>a t. flow2 k K t (f2 (a, t))) \<Longrightarrow> flow2 k K s (m \<bind> f2)"
  "flow2 k K s m \<Longrightarrow> (\<And>a t. flow3 k K t (f3 (a, t))) \<Longrightarrow> flow3 k K s (m \<bind> f3)"
  "flow2 k K s m \<Longrightarrow> (\<And>a t. flow4 k K t (f4 (a, t))) \<Longrightarrow> flow4 k K s (m \<bind> f4)"
  by (cases m; fastforce simp: flow_defs intro: rtranclp_trans)+

lemma flow_seq3 [flow]:
  "flow3 k K s m \<Longrightarrow> (\<And>a b t. flow1 k K t (f1 (a, b, t))) \<Longrightarrow> flow1 k K s (m \<bind> f1)"
  "flow3 k K s m \<Longrightarrow> (\<And>a b t. flow2 k K t (f2 (a, b, t))) \<Longrightarrow> flow2 k K s (m \<bind> f2)"
  "flow3 k K s m \<Longrightarrow> (\<And>a b t. flow3 k K t (f3 (a, b, t))) \<Longrightarrow> flow3 k K s (m \<bind> f3)"
  "flow3 k K s m \<Longrightarrow> (\<And>a b t. flow4 k K t (f4 (a, b, t))) \<Longrightarrow> flow4 k K s (m \<bind> f4)"
  by (cases m; fastforce simp: flow_defs intro: rtranclp_trans)+

lemma flow_seq4 [flow]:
  "flow4 k K s m \<Longrightarrow> (\<And>a b c t. flow1 k K t (f1 (a, b, c, t))) \<Longrightarrow> flow1 k K s (m \<bind> f1)"
  "flow4 k K s m \<Longrightarrow> (\<And>a b c t. flow2 k K t (f2 (a, b, c, t))) \<Longrightarrow> flow2 k K s (m \<bind> f2)"
  "flow4 k K s m \<Longrightarrow> (\<And>a b c t. flow3 k K t (f3 (a, b, c, t))) \<Longrightarrow> flow3 k K s (m \<bind> f3)"
  "flow4 k K s m \<Longrightarrow> (\<And>a b c t. flow4 k K t (f4 (a, b, c, t))) \<Longrightarrow> flow4 k K s (m \<bind> f4)"
  by (cases m; fastforce simp: flow_defs intro: rtranclp_trans)+

text \<open>Calls.\<close>

lemma served: "serves k c mk kd \<Longrightarrow> client_call c mk kd K s t \<Longrightarrow> calls k K s t"
  unfolding serves_def by blast

lemma flow_reads [flow]:
  assumes "reads_from k c"
  shows "flow2 k K s (kget c ns n s)" "flow2 k K s (klist c opts s)"
proof -
  obtain mk kd where c: "serves k c mk kd" using assms by (auto simp: reads_from_def)
  show "flow2 k K s (kget c ns n s)" "flow2 k K s (klist c opts s)"
    unfolding flow2_def by (blast intro: served [OF c] client_call_def [THEN iffD2])+
qed

lemma flow_writes [flow]:
  assumes "serves k c mk (kind_of (mk x))" "kind_of (mk x) \<in> K"
  shows "flow2 k K s (kcreate c mk x s)" "flow2 k K s (kupdate c mk x s)"
  unfolding flow2_def using assms(2) by (blast intro: served [OF assms(1)] client_call_def [THEN iffD2])+

lemma flow_deletes [flow]:
  assumes "deletes_from k c kd" "kd \<in> K"
  shows "flow2 k K s (kdelete c kd ns n s)"
proof -
  obtain mk where c: "serves k c mk kd" using assms by (auto simp: deletes_from_def)
  show ?thesis
    unfolding flow2_def using assms(2) by (blast intro: served [OF c] client_call_def [THEN iffD2])
qed

lemma other_calls: "other_call k s t \<Longrightarrow> calls k K s t"
  by (rule r_into_rtranclp) (simp add: one_call_def)

lemma flow_others [flow]:
  "flow2 k K s (now k s)" "flow2 k K s (pause k d s)" "flow2 k K s (eventf k csi reason a s)"
  unfolding flow2_def now_def by (blast intro: other_calls other_call_def [THEN iffD2])+

lemma flow_for_errors [flow]:
  assumes "\<And>x s. x \<in> set xs \<Longrightarrow> flow2 k K s (f x s)"
  shows "flow2 k K s (for_errors f xs s)"
  unfolding flow2_def
proof (intro allI impI)
  fix es t
  assume "for_errors f xs s = Some (es, t)"
  then show "calls k K s t"
    by (rule for_errors_rel) (use assms in \<open>auto simp: flow2_def intro: rtranclp_trans\<close>)
qed

end
