(* ===== verification/Common.thy ===== *)
theory Common
  imports Effects
begin

text \<open>
  The package \<open>pkg/common\<close> and the constants of \<open>pkg/constant\<close>: labels, selectors and
  image names (\<open>common.go\<close>), and the three get-or-create-or-update procedures
  (\<open>update.go\<close>) through which every workload and configmap of the operator goes.
\<close>

section \<open>Constants\<close>

definition CSIName :: string where "CSIName = ''csi-baremetal''"
definition ComponentName :: string where "ComponentName = CSIName @ ''-operator''"
definition PrometheusPort :: int where "PrometheusPort = 8787"
definition LivenessPort :: string where "LivenessPort = ''liveness-port''"
definition TerminationGracePeriodSeconds :: int where "TerminationGracePeriodSeconds = 10"
definition LogsVolume :: string where "LogsVolume = ''logs''"
definition CSISocketDirVolume :: string where "CSISocketDirVolume = ''csi-socket-dir''"
definition TerminationMessagePath :: string where
  "TerminationMessagePath = ''/var/log/termination-log''"
definition TerminationMessagePolicy :: string where "TerminationMessagePolicy = ''File''"
definition ProvisionerName :: string where "ProvisionerName = ''csi-provisioner''"
definition ResizerName :: string where "ResizerName = ''csi-resizer''"
definition DriverRegistrarName :: string where
  "DriverRegistrarName = ''csi-node-driver-registrar''"
definition LivenessProbeName :: string where "LivenessProbeName = ''livenessprobe''"
definition AppLabelKey :: string where "AppLabelKey = ''app.kubernetes.io/name''"
definition AppLabelShortKey :: string where "AppLabelShortKey = ''app''"
definition ComponentLabelKey :: string where "ComponentLabelKey = ''app.kubernetes.io/component''"
definition ComponentLabelShortKey :: string where "ComponentLabelShortKey = ''component''"
definition AppLabelValue :: string where "AppLabelValue = CSIName"
definition SelectorKey :: string where "SelectorKey = ''name''"
definition RsysLabelKey :: string where "RsysLabelKey = ''app.kubernetes.io/instance''"
definition DefaultNamespace :: string where "DefaultNamespace = ''default''"
definition LogLevelSlogan :: string where "LogLevelSlogan = ''--loglevel=''"

definition PlatformVanilla :: string where "PlatformVanilla = ''vanilla''"
definition PlatformRKE :: string where "PlatformRKE = ''rke''"
definition PlatformOpenShift :: string where "PlatformOpenShift = ''openshift''"

lemmas platform_defs = PlatformVanilla_def PlatformRKE_def PlatformOpenShift_def

lemma platforms_distinct [simp]:
  "PlatformVanilla \<noteq> PlatformRKE" "PlatformRKE \<noteq> PlatformVanilla"
  "PlatformVanilla \<noteq> PlatformOpenShift" "PlatformOpenShift \<noteq> PlatformVanilla"
  "PlatformRKE \<noteq> PlatformOpenShift" "PlatformOpenShift \<noteq> PlatformRKE"
  by (simp_all add: platform_defs)

lemmas label_keys =
  AppLabelKey_def AppLabelShortKey_def ComponentLabelKey_def ComponentLabelShortKey_def
  SelectorKey_def RsysLabelKey_def

definition CrashVolume :: Volume where
  "CrashVolume = \<lparr>vol_Name = ''crash-dump'', vol_Source = EmptyDir\<rparr>"

definition CrashMountVolume :: VolumeMount where
  "CrashMountVolume = \<lparr>vm_Name = ''crash-dump'', vm_MountPath = ''/crash-dump'',
     vm_ReadOnly = False, vm_Bidirectional = False\<rparr>"

section \<open>Helpers of \<open>common.go\<close>\<close>

definition InfoLevel :: Level where "InfoLevel = ''info''"
definition DebugLevel :: Level where "DebugLevel = ''debug''"
definition TraceLevel :: Level where "TraceLevel = ''trace''"
definition JSONFormat :: Format where "JSONFormat = ''json''"
definition TextFormat :: Format where "TextFormat = ''text''"

definition MatchLogLevel :: "Level \<Rightarrow> string" where
  "MatchLogLevel level =
     (if level = InfoLevel then level
      else if level = DebugLevel then level
      else if level = TraceLevel then level
      else InfoLevel)"

definition MatchLogFormat :: "Format \<Rightarrow> string" where
  "MatchLogFormat format =
     (if format = JSONFormat then format
      else if format = TextFormat then format
      else TextFormat)"

text \<open>A nil image is dereferenced, so it panics.\<close>

definition ConstructFullImageName :: "Image option \<Rightarrow> string \<Rightarrow> string option" where
  "ConstructFullImageName img_ptr registry = do {
     img \<leftarrow> img_ptr;
     let prefix = (if registry \<noteq> [] then registry @ ''/'' else []);
     Some (prefix @ img_Name img @ '':'' @ img_Tag img)
   }"

definition MakeNodeSelectorMap :: "NodeSelector option \<Rightarrow> gomap" where
  "MakeNodeSelectorMap ns =
     (case ns of Some n \<Rightarrow> go_map [(ns_Key n, ns_Value n)] | None \<Rightarrow> go_map [])"

definition MakeImagePullSecrets :: "string \<Rightarrow> string list" where
  "MakeImagePullSecrets rs = (if length rs \<noteq> 0 then [rs] else [])"

definition GetSelectedNodes ::
  "'w cluster \<Rightarrow> NodeSelector option \<Rightarrow> 'w sys \<Rightarrow> ((goerr + CoreNode list) \<times> 'w sys) option" where
  "GetSelectedNodes k selector s =
     (let opts = (case selector of
            None \<Rightarrow> list_all_objects
          | Some n \<Rightarrow> list_all_objects\<lparr>lo_Labels := [(ns_Key n, Some (ns_Value n))]\<rparr>)
      in klist (k_Nodes k) opts s)"

definition ConstructLabelAppMap :: "(string \<times> string) list" where
  "ConstructLabelAppMap =
     [(AppLabelKey, AppLabelValue), (AppLabelShortKey, AppLabelValue)]"

definition app_labels :: gomap where
  "app_labels = go_map ConstructLabelAppMap"

definition ConstructLabelMap :: "string \<Rightarrow> string \<Rightarrow> gomap" where
  "ConstructLabelMap appName componentName =
     Some (fmupd RsysLabelKey CSIName
          (fmupd SelectorKey appName
          (fmupd ComponentLabelShortKey componentName
          (fmupd ComponentLabelKey componentName
          (fmap_of_list ConstructLabelAppMap)))))"

definition ConstructSelectorMap :: "string \<Rightarrow> gomap" where
  "ConstructSelectorMap appName = go_map [(SelectorKey, appName)]"

definition no_resources :: ResourceRequirements where
  "no_resources = \<lparr>res_Limits = None, res_Requests = None, res_Claims = []\<rparr>"

definition ConstructResourceRequirements ::
  "ResourceRequirements option \<Rightarrow> ResourceRequirements" where
  "ConstructResourceRequirements resources =
     (case resources of Some r \<Rightarrow> r | None \<Rightarrow> no_resources)"

lemma GetSelectedNodes_silent [quiet]:
  "GetSelectedNodes k sel s = Some (r, t) \<Longrightarrow> silent s t"
  by (auto simp: GetSelectedNodes_def dest: klist_silent)

lemma GetSelectedNodes_returns [simp]: "GetSelectedNodes k sel s \<noteq> None"
  by (simp add: GetSelectedNodes_def Let_def)

text \<open>A pod that carries the labels of \<open>ConstructLabelMap\<close> matches the selector of its
  workload and the selector of the whole application.\<close>

definition selects :: "gomap \<Rightarrow> gomap \<Rightarrow> bool" where
  "selects selector labels =
     (case selector of
        None \<Rightarrow> True
      | Some f \<Rightarrow> fBall (fmdom f) (\<lambda>k. map_get labels k = fmlookup f k))"

lemma selects_iff:
  "selects selector labels \<longleftrightarrow>
   (\<forall>k v. map_get selector k = Some v \<longrightarrow> map_get labels k = Some v)"
  by (cases selector) (auto simp: selects_def fmlookup_dom_iff)

lemma ConstructLabelMap_get:
  "map_get (ConstructLabelMap a c) k =
     (if k = RsysLabelKey then Some CSIName
      else if k = SelectorKey then Some a
      else if k = ComponentLabelShortKey \<or> k = ComponentLabelKey then Some c
      else if k = AppLabelShortKey \<or> k = AppLabelKey then Some AppLabelValue
      else None)"
  by (simp add: ConstructLabelMap_def ConstructLabelAppMap_def fmlookup_of_list label_keys)

lemma selects_ConstructLabelMap:
  "selects (ConstructSelectorMap a) (ConstructLabelMap a c)"
  "selects app_labels (ConstructLabelMap a c)"
  by (auto simp: selects_iff ConstructSelectorMap_def app_labels_def ConstructLabelAppMap_def
      ConstructLabelMap_get label_keys)

end
