(* ===== verification/Workload.thy ===== *)
theory Workload
  imports Common
begin

text \<open>
  What the constructors of the daemonsets and deployments share: the constants of the
  Kubernetes API they use, by their documented values, the zero value of a container, and
  when a pod template can be scheduled at all.
\<close>

section \<open>Constants of the Kubernetes API\<close>

definition RestartPolicyAlways :: string where "RestartPolicyAlways = ''Always''"
definition DNSClusterFirst :: string where "DNSClusterFirst = ''ClusterFirst''"
definition DefaultSchedulerName :: string where "DefaultSchedulerName = ''default-scheduler''"
definition ProtocolTCP :: string where "ProtocolTCP = ''TCP''"
definition URISchemeHTTP :: string where "URISchemeHTTP = ''HTTP''"
definition HostPathDirectory :: string where "HostPathDirectory = ''Directory''"
definition HostPathDirectoryOrCreate :: string where "HostPathDirectoryOrCreate = ''DirectoryOrCreate''"
definition HostPathUnset :: string where "HostPathUnset = []"
definition HostPathFile :: string where "HostPathFile = ''File''"
definition TolerationOpExists :: string where "TolerationOpExists = ''Exists''"
definition TaintEffectNoSchedule :: string where "TaintEffectNoSchedule = ''NoSchedule''"

definition zero_container :: Container where
  "zero_container = \<lparr>co_Name = [], co_Image = [], co_ImagePullPolicy = [], co_Command = [],
     co_Args = [], co_PreStop = None, co_Ports = [], co_LivenessProbe = None,
     co_ReadinessProbe = None, co_Env = [], co_Privileged = None, co_VolumeMounts = [],
     co_TerminationMessagePath = [], co_TerminationMessagePolicy = [],
     co_Resources = no_resources\<rparr>"

definition zero_pod_spec :: PodSpec where
  "zero_pod_spec = \<lparr>ps_Volumes = [], ps_Containers = [], ps_RestartPolicy = [], ps_DNSPolicy = [],
     ps_TerminationGracePeriodSeconds = 0, ps_NodeSelector = None, ps_ServiceAccountName = [],
     ps_DeprecatedServiceAccount = [],
     ps_SecurityContext = \<lparr>psc_RunAsNonRoot = None, psc_RunAsUser = None\<rparr>,
     ps_ImagePullSecrets = [], ps_SchedulerName = [], ps_HostIPC = False, ps_HostNetwork = False,
     ps_Tolerations = [], ps_RequiredNodeKeys = []\<rparr>"

definition mount :: "string \<Rightarrow> string \<Rightarrow> VolumeMount" where
  "mount name path = \<lparr>vm_Name = name, vm_MountPath = path, vm_ReadOnly = False, vm_Bidirectional = False\<rparr>"

definition mount_bidirectional :: "string \<Rightarrow> string \<Rightarrow> VolumeMount" where
  "mount_bidirectional name path = (mount name path)\<lparr>vm_Bidirectional := True\<rparr>"

definition volume :: "string \<Rightarrow> VolumeSource \<Rightarrow> Volume" where
  "volume name src = \<lparr>vol_Name = name, vol_Source = src\<rparr>"

definition port :: "string \<Rightarrow> int \<Rightarrow> ContainerPort" where
  "port name n = \<lparr>cp_Name = name, cp_HostPort = 0, cp_ContainerPort = n, cp_Protocol = ProtocolTCP\<rparr>"

definition host_port :: "string \<Rightarrow> int \<Rightarrow> ContainerPort" where
  "host_port name n = \<lparr>cp_Name = name, cp_HostPort = n, cp_ContainerPort = n, cp_Protocol = ProtocolTCP\<rparr>"

definition probe :: "ProbeHandler \<Rightarrow> int \<Rightarrow> int \<Rightarrow> int \<Rightarrow> int \<Rightarrow> int \<Rightarrow> Probe" where
  "probe h initialDelay timeout period success failure =
     \<lparr>pr_Handler = h, pr_InitialDelaySeconds = initialDelay, pr_TimeoutSeconds = timeout,
      pr_PeriodSeconds = period, pr_SuccessThreshold = success, pr_FailureThreshold = failure\<rparr>"

definition metrics_annotations :: gomap where
  "metrics_annotations = go_map [(''prometheus.io/scrape'', ''true''),
     (''prometheus.io/port'', Itoa PrometheusPort), (''prometheus.io/path'', ''/metrics'')]"

lemma workload_part_names [simp]:
  "vm_Name (mount n p) = n" "vm_Name (mount_bidirectional n p) = n" "vol_Name (volume n src) = n"
  "vol_Name CrashVolume = ''crash-dump''" "vm_Name CrashMountVolume = ''crash-dump''"
  by (simp_all add: mount_def mount_bidirectional_def volume_def CrashVolume_def CrashMountVolume_def)

section \<open>Templates that can be scheduled\<close>

text \<open>
  The API server refuses a workload whose selector does not match its own template, a pod
  that mounts a volume it does not declare, and a pod with two volumes or two containers of
  one name. Beyond that, every pod of the operator is to be found by the application
  labels, with which node maintenance lists them.
\<close>

definition mounts_declared :: "PodSpec \<Rightarrow> bool" where
  "mounts_declared ps \<longleftrightarrow>
     (\<forall>c \<in> set (ps_Containers ps). \<forall>m \<in> set (co_VolumeMounts c).
        vm_Name m \<in> vol_Name ` set (ps_Volumes ps))"

definition schedulable :: "gomap \<Rightarrow> PodTemplateSpec \<Rightarrow> bool" where
  "schedulable selector t \<longleftrightarrow>
     selects selector (pt_Labels t) \<and> selects app_labels (pt_Labels t) \<and>
     mounts_declared (pt_Spec t) \<and>
     distinct (map vol_Name (ps_Volumes (pt_Spec t))) \<and>
     distinct (map co_Name (ps_Containers (pt_Spec t)))"

lemma mounts_declared_iff:
  "mounts_declared ps \<longleftrightarrow>
   list_all (\<lambda>c. list_all (\<lambda>m. vm_Name m \<in> vol_Name ` set (ps_Volumes ps)) (co_VolumeMounts c))
     (ps_Containers ps)"
  by (simp add: mounts_declared_def list_all_iff)

lemma schedulableI:
  assumes "pt_Labels t = ConstructLabelMap a c" and "selector = ConstructSelectorMap a"
    and "mounts_declared (pt_Spec t)"
    and "distinct (map vol_Name (ps_Volumes (pt_Spec t)))"
    and "distinct (map co_Name (ps_Containers (pt_Spec t)))"
  shows "schedulable selector t"
  using assms by (simp add: schedulable_def selects_ConstructLabelMap)

end
