(* ===== verification/PatcherConfig.thy ===== *)
theory PatcherConfig
  imports Workload
begin

text \<open>
  The pure part of \<open>pkg/patcher\<close>: which platforms can be patched, the options of the
  readiness check (\<open>extender_readiness.go\<close>), the configuration of the patcher on vanilla
  Kubernetes and RKE (\<open>patcher_configuration.go\<close>) and the configmap and daemonset made from
  it (\<open>scheduler_patcher_vanilla.go\<close>).
\<close>

section \<open>Texts\<close>

definition newline :: string where "newline = [CHR 0x0A]"
definition double_quote :: string where "double_quote = [CHR 0x22]"

text \<open>A text of several lines, the last without a line end, and a text in double quotes.\<close>

fun text_lines :: "string list \<Rightarrow> string" where
  "text_lines [] = []"
| "text_lines [l] = l"
| "text_lines (l # ls) = l @ newline @ text_lines ls"

definition in_quotes :: "string \<Rightarrow> string" where
  "in_quotes s = double_quote @ s @ double_quote"

text \<open>\<open>path.Join\<close> of two clean relative or absolute paths, which the arguments here are.\<close>

definition path_Join :: "string \<Rightarrow> string \<Rightarrow> string" where
  "path_Join a b = a @ ''/'' @ b"

section \<open>Platforms\<close>

definition isPlatformSupported :: "string \<Rightarrow> bool" where
  "isPlatformSupported platform =
     (if platform = PlatformOpenShift \<or> platform = PlatformVanilla \<or> platform = PlatformRKE
      then True else False)"

definition spec_patcher :: "Deployment \<Rightarrow> Patcher option" where
  "spec_patcher csi = do { sch \<leftarrow> sp_Scheduler (dep_Spec csi); sch_Patcher sch }"

definition IsPatchingEnabled :: "Deployment \<Rightarrow> bool option" where
  "IsPatchingEnabled csi = do {
     p \<leftarrow> spec_patcher csi;
     Some (pat_Enable p \<and> isPlatformSupported (sp_Platform (dep_Spec csi)))
   }"

definition unsupported_platform :: "Deployment \<Rightarrow> goerr" where
  "unsupported_platform csi =
     ErrorText (sp_Platform (dep_Spec csi) @ '' platform is not supported platform for the patcher'')"

section \<open>Options of the readiness check\<close>

definition ExtenderConfigMapName :: string where "ExtenderConfigMapName = ''extender-readiness''"
definition ExtenderConfigMapPath :: string where "ExtenderConfigMapPath = ''/status''"
definition ExtenderConfigMapFile :: string where "ExtenderConfigMapFile = ''nodes.yaml''"
definition K8sMasterNodeLabelKey :: string where
  "K8sMasterNodeLabelKey = ''node-role.kubernetes.io/master''"

definition openshiftConfigNamespace :: string where "openshiftConfigNamespace = ''openshift-config''"
definition openshiftSchedulerPolicyConfigMapName :: string where
  "openshiftSchedulerPolicyConfigMapName = ''scheduler-policy''"
definition csiOpenshiftSecondarySchedulerConfigMapName :: string where
  "csiOpenshiftSecondarySchedulerConfigMapName = ''csi-baremetal-scheduler-config''"
definition OpenshiftSecondarySchedulerNamespace :: string where
  "OpenshiftSecondarySchedulerNamespace = ''openshift-secondary-scheduler-operator''"
definition OpenshiftSecondarySchedulerLabelValue :: string where
  "OpenshiftSecondarySchedulerLabelValue = ''secondary-scheduler''"

record ExtenderReadinessOptions =
  ero_watchedConfigMapName :: string
  ero_watchedConfigMapNamespace :: string
  ero_readinessConfigMapName :: string
  ero_readinessConfigMapNamespace :: string
  ero_readinessConfigMapFile :: string
  ero_kubeSchedulerLabel :: "string \<times> string"

text \<open>The label is kept as its key and value instead of the text \<open>key=value\<close> that the API
  parses back.\<close>

definition ChooseKubeSchedulerLabel :: "Deployment \<Rightarrow> goerr + string \<times> string" where
  "ChooseKubeSchedulerLabel csi =
     (let platform = sp_Platform (dep_Spec csi) in
      if platform = PlatformOpenShift then Inr (''app'', ''openshift-kube-scheduler'')
      else if platform = PlatformVanilla \<or> platform = PlatformRKE
      then Inr (''component'', ''kube-scheduler'')
      else Inl (unsupported_platform csi))"

definition NewExtenderReadinessOptions ::
  "Deployment \<Rightarrow> bool \<Rightarrow> (goerr + ExtenderReadinessOptions) option" where
  "NewExtenderReadinessOptions csi useOpenshiftSecondaryScheduler = do {
     let platform = sp_Platform (dep_Spec csi);
     watched \<leftarrow>
       (if platform = PlatformOpenShift then
          Some (Inr (if useOpenshiftSecondaryScheduler
            then (csiOpenshiftSecondarySchedulerConfigMapName, OpenshiftSecondarySchedulerNamespace)
            else (openshiftSchedulerPolicyConfigMapName, openshiftConfigNamespace)))
        else if platform = PlatformVanilla \<or> platform = PlatformRKE then do {
          p \<leftarrow> spec_patcher csi;
          Some (Inr (pat_ConfigMapName p, dep_Namespace csi))
        } else Some (Inl (unsupported_platform csi)));
     case watched of
       Inl err \<Rightarrow> Some (Inl err)
     | Inr (name, ns) \<Rightarrow>
         (case ChooseKubeSchedulerLabel csi of
            Inl err \<Rightarrow> Some (Inl err)
          | Inr (labelKey, labelValue) \<Rightarrow> Some (Inr \<lparr>
              ero_watchedConfigMapName = name,
              ero_watchedConfigMapNamespace = ns,
              ero_readinessConfigMapName = ExtenderConfigMapName,
              ero_readinessConfigMapNamespace = dep_Namespace csi,
              ero_readinessConfigMapFile = ExtenderConfigMapFile,
              ero_kubeSchedulerLabel = (labelKey,
                if useOpenshiftSecondaryScheduler then OpenshiftSecondarySchedulerLabelValue
                else labelValue)\<rparr>))
   }"

section \<open>The configuration of the patcher\<close>

definition rke2ManifestsFolder :: string where
  "rke2ManifestsFolder = ''/var/lib/rancher/rke2/agent/pod-manifests''"
definition vanillaManifestsFolder :: string where
  "vanillaManifestsFolder = ''/etc/kubernetes/manifests''"
definition rke2Kubeconfig :: string where
  "rke2Kubeconfig = ''/var/lib/rancher/rke2/server/cred/scheduler.kubeconfig''"
definition vanillaKubeconfig :: string where
  "vanillaKubeconfig = ''/etc/kubernetes/scheduler.conf''"
definition schedulerFolder :: string where "schedulerFolder = ''scheduler''"
definition policyFile :: string where "policyFile = ''policy.yaml''"
definition configFile :: string where "configFile = ''config.yaml''"
definition config19File :: string where "config19File = ''config-19.yaml''"
definition config23File :: string where "config23File = ''config-23.yaml''"
definition config29File :: string where "config29File = ''config-29.yaml''"
definition policyPath :: string where "policyPath = schedulerFolder @ ''/'' @ policyFile"
definition configPath :: string where "configPath = schedulerFolder @ ''/'' @ configFile"
definition config19Path :: string where "config19Path = schedulerFolder @ ''/'' @ config19File"
definition config23Path :: string where "config23Path = schedulerFolder @ ''/'' @ config23File"
definition config29Path :: string where "config29Path = schedulerFolder @ ''/'' @ config29File"
definition configurationPath :: string where "configurationPath = ''/config''"

record patcherConfiguration =
  pc_ns :: string
  pc_image :: "Image option"
  pc_globalRegistry :: string
  pc_registrySecret :: string
  pc_pullPolicy :: string
  pc_loglevel :: Level
  pc_interval :: int
  pc_restoreOnShutdown :: bool
  pc_resources :: "ResourceRequirements option"
  pc_securityContext :: "SecurityContext option"
  pc_platform :: string
  pc_targetConfig :: string
  pc_targetPolicy :: string
  pc_targetConfig19 :: string
  pc_targetConfig23 :: string
  pc_targetConfig29 :: string
  pc_schedulerFolder :: string
  pc_manifestsFolder :: string
  pc_configMapName :: string
  pc_configFolder :: string
  pc_kubeconfig :: string
  pc_serviceAccount :: string

text \<open>The part of the configuration that depends on the platform: the folder of the
  manifests and the configuration of the scheduler.\<close>

definition platform_folders :: "string \<Rightarrow> (string \<times> string) option" where
  "platform_folders platform =
     (if platform = PlatformVanilla then Some (vanillaManifestsFolder, vanillaKubeconfig)
      else if platform = PlatformRKE then Some (rke2ManifestsFolder, rke2Kubeconfig)
      else None)"

definition newPatcherConfiguration :: "Deployment \<Rightarrow> (goerr + patcherConfiguration) option" where
  "newPatcherConfiguration csi =
     (case platform_folders (sp_Platform (dep_Spec csi)) of
        None \<Rightarrow> Some (Inl (unsupported_platform csi))
      | Some (folder, kubeconfig) \<Rightarrow> do {
          sch \<leftarrow> sp_Scheduler (dep_Spec csi);
          p \<leftarrow> sch_Patcher sch;
          log \<leftarrow> sch_Log sch;
          Some (Inr \<lparr>
            pc_ns = dep_Namespace csi,
            pc_image = pat_Image p,
            pc_globalRegistry = sp_GlobalRegistry (dep_Spec csi),
            pc_registrySecret = sp_RegistrySecret (dep_Spec csi),
            pc_pullPolicy = sp_PullPolicy (dep_Spec csi),
            pc_loglevel = log_Level log,
            pc_interval = pat_Interval p,
            pc_restoreOnShutdown = pat_RestoreOnShutdown p,
            pc_resources = pat_Resources p,
            pc_securityContext = sch_SecurityContext sch,
            pc_platform = sp_Platform (dep_Spec csi),
            pc_targetConfig = path_Join folder configPath,
            pc_targetPolicy = path_Join folder policyPath,
            pc_targetConfig19 = path_Join folder config19Path,
            pc_targetConfig23 = path_Join folder config23Path,
            pc_targetConfig29 = path_Join folder config29Path,
            pc_schedulerFolder = path_Join folder schedulerFolder,
            pc_manifestsFolder = folder,
            pc_configMapName = pat_ConfigMapName p,
            pc_configFolder = configurationPath,
            pc_kubeconfig = kubeconfig,
            pc_serviceAccount = sch_ServiceAccount sch\<rparr>)
        })"

section \<open>The configmap of the patcher\<close>

definition vanillaPolicy :: "string \<Rightarrow> string" where
  "vanillaPolicy extenderPort = text_lines [
     ''apiVersion: v1'',
     ''kind: Policy'',
     ''extenders:'',
     ''  - urlPrefix: '' @ in_quotes (''http://127.0.0.1:'' @ extenderPort),
     ''    filterVerb: filter'',
     ''    prioritizeVerb: prioritize'',
     ''    weight: 1'',
     ''    #bindVerb: bind'',
     ''    enableHttps: false'',
     ''    nodeCacheCapable: false'',
     ''    ignorable: true'',
     ''    httpTimeout: 15000000000'',
     '''']"

definition vanillaConfig :: "string \<Rightarrow> string \<Rightarrow> string" where
  "vanillaConfig targetPolicy kubeconfig = text_lines [
     ''apiVersion: kubescheduler.config.k8s.io/v1alpha1'',
     ''kind: KubeSchedulerConfiguration'',
     ''schedulerName: default-scheduler'',
     ''algorithmSource:'',
     ''  policy:'',
     ''    file:'',
     ''      path: '' @ targetPolicy,
     ''leaderElection:'',
     ''  leaderElect: true'',
     ''clientConnection:'',
     ''  kubeconfig: '' @ kubeconfig]"

definition vanillaNewConfig :: "string \<Rightarrow> string \<Rightarrow> string \<Rightarrow> string" where
  "vanillaNewConfig version extenderPort kubeconfig = text_lines [
     ''apiVersion: kubescheduler.config.k8s.io/'' @ version,
     ''kind: KubeSchedulerConfiguration'',
     ''extenders:'',
     ''  - urlPrefix: '' @ in_quotes (''http://127.0.0.1:'' @ extenderPort),
     ''    filterVerb: filter'',
     ''    prioritizeVerb: prioritize'',
     ''    weight: 1'',
     ''    #bindVerb: bind'',
     ''    enableHTTPS: false'',
     ''    nodeCacheCapable: false'',
     ''    ignorable: true'',
     ''    httpTimeout: 15s'',
     ''leaderElection:'',
     ''  leaderElect: true'',
     ''clientConnection:'',
     ''  kubeconfig: '' @ kubeconfig]"

definition createVanillaConfig :: "Deployment \<Rightarrow> (goerr + ConfigMap) option" where
  "createVanillaConfig csi = do {
     r \<leftarrow> newPatcherConfiguration csi;
     case r of
       Inl err \<Rightarrow> Some (Inl err)
     | Inr cfg \<Rightarrow> do {
         sch \<leftarrow> sp_Scheduler (dep_Spec csi);
         p \<leftarrow> sch_Patcher sch;
         let extenderPort = sch_ExtenderPort sch;
         Some (Inr \<lparr>
           cm_Meta = object_meta (dep_Namespace csi) (pat_ConfigMapName p) None,
           cm_Data = go_map [
             (policyFile, vanillaPolicy extenderPort),
             (configFile, vanillaConfig (pc_targetPolicy cfg) (pc_kubeconfig cfg)),
             (config19File, vanillaNewConfig ''v1beta1'' extenderPort (pc_kubeconfig cfg)),
             (config23File, vanillaNewConfig ''v1beta3'' extenderPort (pc_kubeconfig cfg)),
             (config29File, vanillaNewConfig ''v1'' extenderPort (pc_kubeconfig cfg))]\<rparr>)
       }
   }"

section \<open>The daemonset of the patcher\<close>

definition patcher :: string where "patcher = ''se-patcher''"
definition patcherName :: string where "patcherName = CSIName @ ''-'' @ patcher"
definition patcherContainerName :: string where "patcherContainerName = ''schedulerpatcher''"
definition kubernetesManifestsVolume :: string where "kubernetesManifestsVolume = ''kubernetes-manifests''"
definition kubernetesSchedulerVolume :: string where "kubernetesSchedulerVolume = ''kubernetes-scheduler''"

text \<open>The security context of the container: none, or one with the flag \<open>Privileged\<close>.\<close>

definition container_security :: "SecurityContext option \<Rightarrow> bool option option" where
  "container_security ctx =
     (case ctx of
        None \<Rightarrow> None
      | Some c \<Rightarrow> if \<not> sec_Enable c then None else Some (sec_Privileged c))"

definition createSecurityContext :: "patcherConfiguration \<Rightarrow> bool option option" where
  "createSecurityContext p =
     (case pc_securityContext p of
        None \<Rightarrow> None
      | Some c \<Rightarrow> if \<not> sec_Enable c then None else Some (sec_Privileged c))"

definition createPatcherContainers :: "patcherConfiguration \<Rightarrow> Container list option" where
  "createPatcherContainers p = do {
     img \<leftarrow> ConstructFullImageName (pc_image p) (pc_globalRegistry p);
     Some [zero_container\<lparr>
       co_Name := patcherContainerName,
       co_Image := img,
       co_ImagePullPolicy := pc_pullPolicy p,
       co_Command := [''python3'', ''-u'', ''main.py''],
       co_Args := [
         LogLevelSlogan @ MatchLogLevel (pc_loglevel p),
         ''--restore'',
         ''--interval='' @ Itoa (pc_interval p),
         ''--target-config-path='' @ pc_targetConfig p,
         ''--target-policy-path='' @ pc_targetPolicy p,
         ''--source-config-path='' @ pc_configFolder p @ ''/'' @ configFile,
         ''--source-policy-path='' @ pc_configFolder p @ ''/'' @ policyFile,
         ''--source_config_19_path='' @ configurationPath @ ''/'' @ config19File,
         ''--target_config_19_path='' @ pc_targetConfig19 p,
         ''--source_config_23_path='' @ configurationPath @ ''/'' @ config23File,
         ''--target_config_23_path='' @ pc_targetConfig23 p,
         ''--source_config_29_path='' @ configurationPath @ ''/'' @ config29File,
         ''--target_config_29_path='' @ pc_targetConfig29 p,
         ''--backup-path='' @ pc_schedulerFolder p,
         ''--platform='' @ pc_platform p],
       co_VolumeMounts := [
         (mount (pc_configMapName p) configurationPath)\<lparr>vm_ReadOnly := True\<rparr>,
         mount kubernetesSchedulerVolume (pc_schedulerFolder p),
         mount kubernetesManifestsVolume (pc_manifestsFolder p),
         CrashMountVolume],
       co_TerminationMessagePath := TerminationMessagePath,
       co_TerminationMessagePolicy := TerminationMessagePolicy,
       co_Resources := ConstructResourceRequirements (pc_resources p),
       co_Privileged := createSecurityContext p\<rparr>]
   }"

definition createPatcherVolumes :: "patcherConfiguration \<Rightarrow> Volume list" where
  "createPatcherVolumes p = [
     volume (pc_configMapName p) (ConfigMapSource (pc_configMapName p) True),
     volume kubernetesSchedulerVolume (HostPath (pc_schedulerFolder p) HostPathUnset),
     volume kubernetesManifestsVolume (HostPath (pc_manifestsFolder p) HostPathUnset),
     CrashVolume]"

text \<open>The tolerations and the affinity that put a pod on the masters.\<close>

definition master_tolerations :: "(string \<times> string \<times> string) list" where
  "master_tolerations = [(''CriticalAddonsOnly'', TolerationOpExists, []),
     (''node-role.kubernetes.io/master'', [], TaintEffectNoSchedule)]"

definition createPatcherDaemonSet :: "patcherConfiguration \<Rightarrow> DaemonSet option" where
  "createPatcherDaemonSet p = do {
     containers \<leftarrow> createPatcherContainers p;
     Some \<lparr>
       ds_Meta = object_meta (pc_ns p) patcherName app_labels,
       ds_Spec = \<lparr>
         dss_Selector = ConstructSelectorMap patcherName,
         dss_Template = \<lparr>
           pt_Labels = ConstructLabelMap patcherName patcher,
           pt_Annotations = None,
           pt_Spec = zero_pod_spec\<lparr>
             ps_Containers := containers,
             ps_Volumes := createPatcherVolumes p,
             ps_RestartPolicy := RestartPolicyAlways,
             ps_DNSPolicy := DNSClusterFirst,
             ps_TerminationGracePeriodSeconds := TerminationGracePeriodSeconds,
             ps_ServiceAccountName := pc_serviceAccount p,
             ps_DeprecatedServiceAccount := pc_serviceAccount p,
             ps_ImagePullSecrets := MakeImagePullSecrets (pc_registrySecret p),
             ps_SchedulerName := DefaultSchedulerName,
             ps_Tolerations := master_tolerations,
             ps_RequiredNodeKeys := [''node-role.kubernetes.io/master'']\<rparr>\<rparr>\<rparr>\<rparr>
   }"

section \<open>What is constructed\<close>

text \<open>The volumes have distinct names unless the configmap is named like one of the others.\<close>

definition patcher_volume_names :: "string list" where
  "patcher_volume_names = [kubernetesSchedulerVolume, kubernetesManifestsVolume, ''crash-dump'']"

lemma createPatcherDaemonSet_schedulable:
  assumes "createPatcherDaemonSet p = Some ds" and "pc_configMapName p \<notin> set patcher_volume_names"
  shows "schedulable (dss_Selector (ds_Spec ds)) (dss_Template (ds_Spec ds))"
  using assms
  by (auto simp: createPatcherDaemonSet_def createPatcherContainers_def createPatcherVolumes_def
      patcher_volume_names_def kubernetesSchedulerVolume_def kubernetesManifestsVolume_def
      mounts_declared_def split: Option.bind_splits intro!: schedulableI)

lemma platform_folders_supported:
  "platform_folders p \<noteq> None \<Longrightarrow> isPlatformSupported p \<and> p \<noteq> PlatformOpenShift"
  by (auto simp: platform_folders_def isPlatformSupported_def split: if_splits)

text \<open>The files the patcher is told to read are the keys of the configmap it mounts.\<close>

lemma createVanillaConfig_keys:
  assumes "createVanillaConfig csi = Some (Inr cm)"
    and "f \<in> {policyFile, configFile, config19File, config23File, config29File}"
  shows "map_get (cm_Data cm) f \<noteq> None"
  using assms
  by (auto simp: createVanillaConfig_def Let_def policyFile_def configFile_def config19File_def
      config23File_def config29File_def split: Option.bind_splits sum.splits)

end
