(* ===== verification/Platform.thy ===== *)
theory Platform
  imports Common
begin

text \<open>
  \<open>pkg/node/parser.go\<close> and \<open>pkg/node/platform_description.go\<close>: which variant of the node
  daemonset a cluster node gets. The kernel version of a node is parsed with a regular
  expression and the library \<open>semver\<close>, whose code is not in this repository and is the
  parameter \<open>'v semver\<close>; the platforms are a Go map, so the order in which they are
  tried is a parameter too.
\<close>

section \<open>The parser\<close>

definition is_letter :: "char \<Rightarrow> bool" where
  "is_letter c = ((65 \<le> (of_char c :: nat) \<and> (of_char c :: nat) \<le> 90)
     \<or> (97 \<le> (of_char c :: nat) \<and> (of_char c :: nat) \<le> 122))"

definition to_lower :: "char \<Rightarrow> char" where
  "to_lower c = (if 65 \<le> (of_char c :: nat) \<and> (of_char c :: nat) \<le> 90
     then char_of ((of_char c :: nat) + 32) else c)"

text \<open>The match of \<open>^[0-9]+\.[0-9]+\<close>; \<open>FindString\<close> returns the empty string for no match.\<close>

definition find_major_minor :: "string \<Rightarrow> string" where
  "find_major_minor s =
     (let a = takeWhile is_digit s; r = dropWhile is_digit s in
      if a = [] then []
      else case r of
        [] \<Rightarrow> []
      | c # r' \<Rightarrow>
          if c \<noteq> CHR ''.'' then []
          else let b = takeWhile is_digit r' in if b = [] then [] else a @ ''.'' @ b)"

text \<open>The leftmost match of \<open>[0-9]+\.[0-9]+\<close>.\<close>

fun find_major_minor_anywhere :: "string \<Rightarrow> string" where
  "find_major_minor_anywhere [] = []"
| "find_major_minor_anywhere (c # cs) =
     (let m = find_major_minor (c # cs)
      in if m \<noteq> [] then m else find_major_minor_anywhere cs)"

definition GetOSNameAndVersion :: "string \<Rightarrow> goerr + string \<times> string" where
  "GetOSNameAndVersion osInfo =
     (if length osInfo = 0 then Inl (ErrorText ''errorEmptyParameter'')
      else let name = takeWhile is_letter osInfo in
        if length name = 0 then Inl (ErrorText ''errorEmptyParameter'')
        else let version = find_major_minor_anywhere osInfo in
          if length version = 0 then Inl (ErrorText ''errorEmptyParameter'')
          else Inr (map to_lower name, version))"

record 'v semver =
  sem_NewVersion :: "string \<Rightarrow> string + 'v"
  sem_MustParse :: "string \<Rightarrow> 'v"
  sem_LessThan :: "'v \<Rightarrow> 'v \<Rightarrow> bool"

definition GetKernelVersion :: "'v semver \<Rightarrow> string \<Rightarrow> goerr + 'v" where
  "GetKernelVersion sv kernelVersion =
     (if length kernelVersion = 0 then Inl (ErrorText ''errorEmptyParameter'')
      else let versionStr = find_major_minor kernelVersion in
        case sem_NewVersion sv versionStr of Inl e \<Rightarrow> Inl (LibError e) | Inr v \<Rightarrow> Inr v)"

definition GetNodeKernelVersion :: "'v semver \<Rightarrow> CoreNode \<Rightarrow> goerr + 'v" where
  "GetNodeKernelVersion sv nd = GetKernelVersion sv (n_KernelVersion nd)"

section \<open>The platforms\<close>

definition supportedKernel :: string where "supportedKernel = ''5.4''"
definition defaultPlatform :: string where "defaultPlatform = ''default''"

definition supportedKernelVersion :: "'v semver \<Rightarrow> 'v" where
  "supportedKernelVersion sv = sem_MustParse sv supportedKernel"

record 'v PlatformDescription =
  pd_tag :: string
  pd_labeltag :: string
  pd_checkVersion :: "'v \<Rightarrow> bool"

definition greaterOrEqual :: "'v semver \<Rightarrow> 'v \<Rightarrow> 'v \<Rightarrow> bool" where
  "greaterOrEqual sv version supported = (\<not> sem_LessThan sv version supported)"

definition platforms :: "'v semver \<Rightarrow> (string \<times> 'v PlatformDescription) list" where
  "platforms sv =
     [(''default'', \<lparr>pd_tag = [], pd_labeltag = defaultPlatform, pd_checkVersion = (\<lambda>version. False)\<rparr>),
      (''kernel-5.4'', \<lparr>pd_tag = ''kernel-5.4'', pd_labeltag = ''kernel-5.4'',
         pd_checkVersion = (\<lambda>version. greaterOrEqual sv version (supportedKernelVersion sv))\<rparr>)]"

definition createNameWithTag :: "string \<Rightarrow> string \<Rightarrow> string" where
  "createNameWithTag name tag = (if tag \<noteq> [] then name @ ''-'' @ tag else name)"

definition DaemonsetName :: "'v PlatformDescription \<Rightarrow> string \<Rightarrow> string" where
  "DaemonsetName pd baseName = createNameWithTag baseName (pd_tag pd)"

definition NodeImage :: "'v PlatformDescription \<Rightarrow> Image option \<Rightarrow> Image option" where
  "NodeImage pd baseImage = do {
     b \<leftarrow> baseImage;
     Some \<lparr>img_Name = createNameWithTag (img_Name b) (pd_tag pd), img_Tag = img_Tag b\<rparr>
   }"

text \<open>\<open>ps\<close> is the map \<open>platforms\<close> in the order of this iteration.\<close>

fun findPlatform :: "(string \<times> 'v PlatformDescription) list \<Rightarrow> 'v \<Rightarrow> string" where
  "findPlatform [] kernelVersion = defaultPlatform"
| "findPlatform ((key, value) # ps) kernelVersion =
     (if pd_checkVersion value kernelVersion then key else findPlatform ps kernelVersion)"

text \<open>\<open>map_order m xs\<close>: \<open>xs\<close> is an iteration order of the map with the entries \<open>m\<close>.\<close>

definition map_order :: "('k \<times> 'a) list \<Rightarrow> ('k \<times> 'a) list \<Rightarrow> bool" where
  "map_order m xs \<longleftrightarrow> distinct (map fst xs) \<and> set xs = set m"

lemma findPlatform_member: "findPlatform ps v \<in> insert defaultPlatform (fst ` set ps)"
  by (induction ps v rule: findPlatform.induct) auto

lemma findPlatform_cases:
  assumes "map_order (platforms sv) ps"
  shows "findPlatform ps v =
    (if greaterOrEqual sv v (supportedKernelVersion sv) then ''kernel-5.4'' else ''default'')"
proof -
  let ?new = "(''kernel-5.4'', \<lparr>pd_tag = ''kernel-5.4'', pd_labeltag = ''kernel-5.4'',
         pd_checkVersion = (\<lambda>version. greaterOrEqual sv version (supportedKernelVersion sv))\<rparr>)"
  have "\<lbrakk>set qs \<subseteq> set (platforms sv)\<rbrakk> \<Longrightarrow> findPlatform qs v =
     (if ?new \<in> set qs \<and> greaterOrEqual sv v (supportedKernelVersion sv)
      then ''kernel-5.4'' else ''default'')" for qs
    by (induction qs) (auto simp: platforms_def defaultPlatform_def)
  moreover have "?new \<in> set ps" "set ps \<subseteq> set (platforms sv)"
    using assms by (auto simp: map_order_def platforms_def)
  ultimately show ?thesis by presburger
qed

section \<open>What is required of \<open>semver\<close>\<close>

text \<open>
  The documented behaviour for versions of two numbers that fit 63 bits: they parse, they
  are ordered by their numbers, and \<open>MustParse\<close> returns what \<open>NewVersion\<close> does. Nothing is
  said of any other string, except that an empty one is no version.
\<close>

definition number :: "string \<Rightarrow> bool" where
  "number a \<longleftrightarrow> a \<noteq> [] \<and> list_all is_digit a \<and> digits_value 0 a < 2 ^ 63"

definition version_of :: "string \<Rightarrow> string \<Rightarrow> version" where
  "version_of a b = Version (int (digits_value 0 a)) (int (digits_value 0 b))"

definition numeric_semver :: "'v semver \<Rightarrow> bool" where
  "numeric_semver sv \<longleftrightarrow>
     (\<forall>a b. number a \<and> number b \<longrightarrow>
        (\<exists>v. sem_NewVersion sv (a @ ''.'' @ b) = Inr v \<and> sem_MustParse sv (a @ ''.'' @ b) = v)) \<and>
     (\<forall>a b c d v w. number a \<and> number b \<and> number c \<and> number d
        \<and> sem_NewVersion sv (a @ ''.'' @ b) = Inr v \<and> sem_NewVersion sv (c @ ''.'' @ d) = Inr w \<longrightarrow>
        (sem_LessThan sv v w \<longleftrightarrow> version_of a b < version_of c d)) \<and>
     (\<exists>e. sem_NewVersion sv [] = Inl e)"

lemma numeric_semver_less:
  assumes "numeric_semver sv" "number a" "number b" "number c" "number d"
    "sem_NewVersion sv (a @ ''.'' @ b) = Inr v" "sem_NewVersion sv (c @ ''.'' @ d) = Inr w"
  shows "sem_LessThan sv v w \<longleftrightarrow> version_of a b < version_of c d"
  using assms unfolding numeric_semver_def by blast

lemma takeWhile_digits: "list_all is_digit a \<Longrightarrow> \<not> is_digit c \<Longrightarrow> takeWhile is_digit (a @ c # r) = a"
  by (induction a) auto

lemma dropWhile_digits: "list_all is_digit a \<Longrightarrow> \<not> is_digit c \<Longrightarrow> dropWhile is_digit (a @ c # r) = c # r"
  by (induction a) auto

lemma takeWhile_digits_stop:
  "list_all is_digit b \<Longrightarrow> (r = [] \<or> \<not> is_digit (hd r)) \<Longrightarrow> takeWhile is_digit (b @ r) = b"
proof (induction b)
  case Nil
  then show ?case by (cases r) auto
qed simp

lemma dot_no_digit [simp]: "\<not> is_digit CHR ''.''"
  by code_simp

lemma find_major_minor_hit:
  assumes "a \<noteq> []" "list_all is_digit a" "b \<noteq> []" "list_all is_digit b" "r = [] \<or> \<not> is_digit (hd r)"
  shows "find_major_minor (a @ ''.'' @ b @ r) = a @ ''.'' @ b"
  using assms by (simp add: find_major_minor_def takeWhile_digits dropWhile_digits
      takeWhile_digits_stop)

text \<open>C17. The platform of a node follows its kernel alone: for a kernel version
  "X.Y...", whatever the order in which the map of platforms is iterated, the variant
  \<open>kernel-5.4\<close> is chosen exactly if (X, Y) is at least (5, 4), the default otherwise.\<close>

theorem kernel_selects_platform:
  assumes sv: "numeric_semver sv" and order: "map_order (platforms sv) ps"
    and a: "number a" and b: "number b" and r: "r = [] \<or> \<not> is_digit (hd r)"
  shows "\<exists>v. GetKernelVersion sv (a @ ''.'' @ b @ r) = Inr v \<and>
    findPlatform ps v =
      (if Version 5 4 \<le> version_of a b
       then ''kernel-5.4'' else ''default'')"
proof -
  have d: "digits_value 0 ''5'' = 5" "digits_value 0 ''4'' = 4"
    by simp_all
  moreover have "list_all is_digit ''5''" "list_all is_digit ''4''"
    by code_simp+
  ultimately have s: "number ''5''" "number ''4''"
    by (simp_all only: number_def) simp_all
  obtain v where v: "sem_NewVersion sv (a @ ''.'' @ b) = Inr v"
    using sv a b unfolding numeric_semver_def by blast
  obtain w where w: "sem_NewVersion sv (''5'' @ ''.'' @ ''4'') = Inr w"
    "sem_MustParse sv (''5'' @ ''.'' @ ''4'') = w"
    using sv s(1,2) unfolding numeric_semver_def by blast
  have lt: "sem_LessThan sv v w \<longleftrightarrow> version_of a b < Version 5 4"
    using numeric_semver_less [OF sv a b s v w(1)] by (simp add: version_of_def d)
  have "GetKernelVersion sv (a @ ''.'' @ b @ r) = Inr v"
    using find_major_minor_hit [of a b r] a b r v
    by (simp add: GetKernelVersion_def number_def)
  moreover have "supportedKernelVersion sv = w"
    using w(2) by (simp add: supportedKernelVersion_def supportedKernel_def)
  ultimately show ?thesis
    using findPlatform_cases [OF order, of v] lt by (auto simp: greaterOrEqual_def not_less)
qed

text \<open>A semver library for the witnesses: versions are the two numbers.\<close>

definition split_version :: "string \<Rightarrow> nat \<times> nat" where
  "split_version s = (digits_value 0 (takeWhile is_digit s), digits_value 0 (drop 1 (dropWhile is_digit s)))"

definition two_numbers :: "(nat \<times> nat) semver" where
  "two_numbers = \<lparr>
     sem_NewVersion = (\<lambda>s. if find_major_minor s = s \<and> s \<noteq> [] then Inr (split_version s)
        else Inl ''Invalid Semantic Version''),
     sem_MustParse = split_version,
     sem_LessThan = (\<lambda>(a, b) (c, d). a < c \<or> a = c \<and> b < d)\<rparr>"

lemma two_numbers_numeric: "numeric_semver two_numbers"
proof -
  have hit: "sem_NewVersion two_numbers (a @ ''.'' @ b) = Inr (digits_value 0 a, digits_value 0 b)
      \<and> sem_MustParse two_numbers (a @ ''.'' @ b) = (digits_value 0 a, digits_value 0 b)"
    if "number a" "number b" for a b
    using that find_major_minor_hit [of a b "[]"]
    by (simp add: two_numbers_def split_version_def number_def takeWhile_digits dropWhile_digits)
  have lt: "sem_LessThan two_numbers (p, q) (u, v) \<longleftrightarrow> p < u \<or> p = u \<and> q < v" for p q u v
    by (simp add: two_numbers_def)
  have "\<exists>e. sem_NewVersion two_numbers [] = Inl e"
    by (simp add: two_numbers_def)
  with hit lt show ?thesis unfolding numeric_semver_def by (auto simp: version_of_def)
qed

lemma platforms_order: "map_order (platforms sv) (platforms sv)"
  by (simp add: map_order_def platforms_def)

theorem kernel_selects_platform_witness:
  "\<exists>v. GetKernelVersion two_numbers ''5.15.0-66-generic'' = Inr v \<and>
     findPlatform (platforms two_numbers) v = ''kernel-5.4''"
proof -
  have d: "digits_value 0 ''5'' = 5" "digits_value 0 ''15'' = 15"
    by simp_all
  moreover have "list_all is_digit ''5''" "list_all is_digit ''15''"
    by code_simp+
  ultimately have "number ''5''" "number ''15''"
    by (simp_all only: number_def) simp_all
  moreover have "\<not> is_digit (hd ''.0-66-generic'')"
    by (simp add: is_digit_def)
  moreover note d
  ultimately show ?thesis
    using kernel_selects_platform [OF two_numbers_numeric platforms_order, of "''5''" "''15''" "''.0-66-generic''"]
    by (simp add: version_of_def)
qed

end
