(* ===== verification/NodeDaemonSet.thy ===== *)
theory NodeDaemonSet
  imports Workload Platform
begin

text \<open>\<open>pkg/node/node_daemonset.go\<close>: the daemonset of the node component.\<close>

section \<open>Names\<close>

definition node :: string where "node = ''node''"
definition nodeName :: string where "nodeName = CSIName @ ''-'' @ node"
definition loopbackManagerImageName :: string where "loopbackManagerImageName = ''loopbackmgr''"
definition loopbackManagerConfigName :: string where "loopbackManagerConfigName = ''loopback-config''"
definition registrationDirVolume :: string where "registrationDirVolume = ''registration-dir''"
definition hostDevVolume :: string where "hostDevVolume = ''host-dev''"
definition hostHomeVolume :: string where "hostHomeVolume = ''host-home''"
definition hostSysVolume :: string where "hostSysVolume = ''host-sys''"
definition hostRootVolume :: string where "hostRootVolume = ''host-root''"
definition hostRunUdevVolume :: string where "hostRunUdevVolume = ''host-run-udev''"
definition hostRunLVMVolume :: string where "hostRunLVMVolume = ''host-run-lvm''"
definition hostRunLock :: string where "hostRunLock = ''host-run-lock''"
definition mountPointDirVolume :: string where "mountPointDirVolume = ''mountpoint-dir''"
definition csiPathVolume :: string where "csiPathVolume = ''csi-path''"
definition driveConfigVolume :: string where "driveConfigVolume = ''drive-config''"
definition nodeConfigVolume :: string where "nodeConfigVolume = ''node-config''"
definition nodeConfigMapName :: string where "nodeConfigMapName = ''node-config''"
definition nodeConfigPath :: string where "nodeConfigPath = ''/etc/node_config''"

definition platformLabel :: string where
  "platformLabel = ''nodes.csi-baremetal.dell.com/platform''"

lemmas node_names =
  hostDevVolume_def hostHomeVolume_def hostSysVolume_def hostRootVolume_def hostRunUdevVolume_def
  hostRunLVMVolume_def hostRunLock_def mountPointDirVolume_def csiPathVolume_def
  driveConfigVolume_def nodeConfigVolume_def nodeConfigMapName_def registrationDirVolume_def
  LogsVolume_def CSISocketDirVolume_def

text \<open>The label selector of the pods of the node daemonsets, as requirements.\<close>

definition GetNodeDaemonsetPodsSelector :: "(string \<times> string option) list" where
  "GetNodeDaemonsetPodsSelector = [(SelectorKey, Some nodeName)]"

definition isLoopbackMgr :: "string \<Rightarrow> bool" where
  "isLoopbackMgr imageName = strings_Contains imageName loopbackManagerImageName"

text \<open>\<open>csi.Spec.Driver.Node\<close>, two pointers.\<close>

definition spec_node :: "Deployment \<Rightarrow> Node option" where
  "spec_node csi = do { driver \<leftarrow> sp_Driver (dep_Spec csi); drv_Node driver }"

section \<open>The constructors\<close>

definition createNodeVolumes :: "Deployment \<Rightarrow> Volume list option" where
  "createNodeVolumes csi = do {
     let volumes = [
       volume LogsVolume EmptyDir,
       volume hostDevVolume (HostPath ''/dev'' HostPathDirectory),
       volume hostHomeVolume (HostPath ''/home'' HostPathDirectory),
       volume hostSysVolume (HostPath ''/sys'' HostPathDirectory),
       volume hostRootVolume (HostPath ''/'' HostPathDirectory),
       volume hostRunUdevVolume (HostPath ''/run/udev'' HostPathDirectory),
       volume hostRunLVMVolume (HostPath ''/run/lvm'' HostPathDirectory),
       volume hostRunLock (HostPath ''/run/lock'' HostPathDirectory),
       volume CSISocketDirVolume
         (HostPath ''/var/lib/kubelet/plugins/csi-baremetal'' HostPathDirectoryOrCreate),
       volume registrationDirVolume
         (HostPath ''/var/lib/kubelet/plugins_registry/'' HostPathDirectoryOrCreate),
       volume mountPointDirVolume (HostPath ''/var/lib/kubelet/pods'' HostPathDirectory),
       volume csiPathVolume (HostPath ''/var/lib/kubelet/plugins/kubernetes.io/csi'' HostPathUnset),
       volume nodeConfigVolume (ConfigMapSource nodeConfigMapName True),
       CrashVolume];
     nd \<leftarrow> spec_node csi;
     driveMgr \<leftarrow> nd_DriveMgr nd;
     img \<leftarrow> dm_Image driveMgr;
     Some (if isLoopbackMgr (img_Name img)
           then volumes @ [volume driveConfigVolume (ConfigMapSource loopbackManagerConfigName True)]
           else volumes)
   }"

definition driveMgr_mounts :: "string \<Rightarrow> VolumeMount list" where
  "driveMgr_mounts driveMgrImage =
     [mount hostDevVolume ''/dev'', mount hostHomeVolume ''/host/home'', CrashMountVolume] @
     (if isLoopbackMgr driveMgrImage then [mount driveConfigVolume ''/etc/config''] else [])"

definition node_mounts :: "VolumeMount list" where
  "node_mounts = [
     mount LogsVolume ''/var/log'',
     mount hostDevVolume ''/dev'',
     mount hostSysVolume ''/sys'',
     mount hostRunUdevVolume ''/run/udev'',
     mount hostRunLVMVolume ''/run/lvm'',
     mount hostRunLock ''/run/lock'',
     mount CSISocketDirVolume ''/csi'',
     mount_bidirectional mountPointDirVolume ''/var/lib/kubelet/pods'',
     mount_bidirectional csiPathVolume ''/var/lib/kubelet/plugins/kubernetes.io/csi'',
     mount_bidirectional hostRootVolume ''/hostroot'',
     mount nodeConfigMapName nodeConfigPath,
     CrashMountVolume]"

text \<open>The last container, the drive manager, over the settings all four containers share.\<close>

definition drivemgr_container ::
  "Container \<Rightarrow> string \<Rightarrow> string list \<Rightarrow> Log \<Rightarrow> DriveMgr \<Rightarrow> Image \<Rightarrow> Container" where
  "drivemgr_container base dmImage args log driveMgr driveMgrImage =
     base\<lparr>co_Name := ''drivemgr'',
       co_Image := dmImage,
       co_Args := args,
       co_Env := [EnvValue ''LOG_FORMAT'' (MatchLogFormat (log_Format log)),
         EnvField ''KUBE_NODE_NAME'' ''v1'' ''spec.nodeName''],
       co_Privileged := Some (Some True),
       co_VolumeMounts := driveMgr_mounts (img_Name driveMgrImage),
       co_Resources := ConstructResourceRequirements (dm_Resources driveMgr)\<rparr>"

definition createNodeContainers ::
  "Deployment \<Rightarrow> 'v PlatformDescription \<Rightarrow> Container list option" where
  "createNodeContainers csi platform = do {
     nd \<leftarrow> spec_node csi;
     let lp = fmlookup (nd_Sidecars nd) LivenessProbeName;
     let dr = fmlookup (nd_Sidecars nd) DriverRegistrarName;
     nodeImage \<leftarrow> NodeImage platform (nd_Image nd);
     log \<leftarrow> nd_Log nd;
     driveMgr \<leftarrow> nd_DriveMgr nd;
     driveMgrImage \<leftarrow> dm_Image driveMgr;
     let args = [LogLevelSlogan @ MatchLogLevel (log_Level log),
                 ''--drivemgrendpoint='' @ dm_Endpoint driveMgr];
     let args = (if isLoopbackMgr (img_Name driveMgrImage)
                 then args @ [''--usenodeannotation='' @ FormatBool (sp_NodeIDAnnotation (dep_Spec csi))]
                 else args);
     lp \<leftarrow> lp;
     dr \<leftarrow> dr;
     let registry = sp_GlobalRegistry (dep_Spec csi);
     lpImage \<leftarrow> ConstructFullImageName (side_Image lp) registry;
     drImage \<leftarrow> ConstructFullImageName (side_Image dr) registry;
     ndImage \<leftarrow> ConstructFullImageName (Some nodeImage) registry;
     dmImage \<leftarrow> ConstructFullImageName (dm_Image driveMgr) registry;
     let base = zero_container\<lparr>co_ImagePullPolicy := sp_PullPolicy (dep_Spec csi),
           co_TerminationMessagePath := TerminationMessagePath,
           co_TerminationMessagePolicy := TerminationMessagePolicy\<rparr>;
     Some [
       base\<lparr>co_Name := LivenessProbeName,
         co_Image := lpImage,
         co_Args := [''--csi-address=$(ADDRESS)''],
         co_Env := [EnvValue ''ADDRESS'' ''/csi/csi.sock''],
         co_VolumeMounts := [mount CSISocketDirVolume ''/csi'', CrashMountVolume],
         co_Resources := ConstructResourceRequirements (side_Resources lp)\<rparr>,
       base\<lparr>co_Name := DriverRegistrarName,
         co_Image := drImage,
         co_Args := [''--v=5'', ''--csi-address=$(ADDRESS)'',
           ''--kubelet-registration-path=$(DRIVER_REG_SOCK_PATH)''],
         co_PreStop := Some [''/bin/sh'', ''-c'',
           ''rm -rf /registration/csi-baremetal /registration/csi-baremetal-reg.sock''],
         co_Env := [EnvValue ''ADDRESS'' ''/csi/csi.sock'',
           EnvValue ''DRIVER_REG_SOCK_PATH'' ''/var/lib/kubelet/plugins/csi-baremetal/csi.sock'',
           EnvField ''KUBE_NODE_NAME'' ''v1'' ''spec.nodeName''],
         co_VolumeMounts := [mount CSISocketDirVolume ''/csi'',
           mount registrationDirVolume ''/registration'', CrashMountVolume],
         co_Resources := ConstructResourceRequirements (side_Resources dr)\<rparr>,
       base\<lparr>co_Name := ''node'',
         co_Image := ndImage,
         co_Args := [
           ''--csiendpoint=$(CSI_ENDPOINT)'',
           ''--nodename=$(KUBE_NODE_NAME)'',
           ''--namespace=$(NAMESPACE)'',
           ''--extender=true'',
           LogLevelSlogan @ MatchLogLevel (log_Level log),
           ''--metrics-address=:'' @ Itoa PrometheusPort,
           ''--metrics-path=/metrics'',
           ''--drivemgrendpoint='' @ dm_Endpoint driveMgr,
           ''--usenodeannotation='' @ FormatBool (sp_NodeIDAnnotation (dep_Spec csi))],
         co_Ports := [port LivenessPort 9808, port ''metrics'' PrometheusPort],
         co_LivenessProbe := Some (probe (HTTPGet ''/healthz'' LivenessPort URISchemeHTTP) 300 3 10 1 5),
         co_ReadinessProbe := Some (probe (Exec [''/health_probe'', ''-addr=:9999'']) 3 1 3 3 100),
         co_Env := [EnvValue ''CSI_ENDPOINT'' ''unix:///csi/csi.sock'',
           EnvValue ''LOG_FORMAT'' (MatchLogFormat (log_Format log)),
           EnvField ''KUBE_NODE_NAME'' ''v1'' ''spec.nodeName'',
           EnvField ''MY_POD_IP'' ''v1'' ''status.podIP'',
           EnvField ''NAMESPACE'' ''v1'' ''metadata.namespace'',
           EnvField ''POD_NAME'' ''v1'' ''metadata.name''],
         co_Privileged := Some (Some True),
         co_VolumeMounts := node_mounts,
         co_Resources := ConstructResourceRequirements (nd_Resources nd)\<rparr>,
       drivemgr_container base dmImage args log driveMgr driveMgrImage]
   }"

definition createNodeDaemonSet :: "Deployment \<Rightarrow> 'v PlatformDescription \<Rightarrow> DaemonSet option" where
  "createNodeDaemonSet csi platform = do {
     nodeSelectors \<leftarrow> map_set (MakeNodeSelectorMap (sp_NodeSelector (dep_Spec csi)))
       platformLabel (pd_labeltag platform);
     volumes \<leftarrow> createNodeVolumes csi;
     containers \<leftarrow> createNodeContainers csi platform;
     nd \<leftarrow> spec_node csi;
     Some \<lparr>
       ds_Meta = object_meta (dep_Namespace csi) (DaemonsetName platform nodeName) app_labels,
       ds_Spec = \<lparr>
         dss_Selector = ConstructSelectorMap nodeName,
         dss_Template = \<lparr>
           pt_Labels = ConstructLabelMap nodeName node,
           pt_Annotations = metrics_annotations,
           pt_Spec = zero_pod_spec\<lparr>
             ps_Volumes := volumes,
             ps_Containers := containers,
             ps_RestartPolicy := RestartPolicyAlways,
             ps_DNSPolicy := DNSClusterFirst,
             ps_TerminationGracePeriodSeconds := TerminationGracePeriodSeconds,
             ps_NodeSelector := nodeSelectors,
             ps_ServiceAccountName := nd_ServiceAccount nd,
             ps_DeprecatedServiceAccount := nd_ServiceAccount nd,
             ps_ImagePullSecrets := MakeImagePullSecrets (sp_RegistrySecret (dep_Spec csi)),
             ps_SchedulerName := DefaultSchedulerName,
             ps_HostIPC := True\<rparr>\<rparr>\<rparr>\<rparr>
   }"

section \<open>What is constructed\<close>

lemma createNodeVolumes_names:
  assumes "createNodeVolumes csi = Some vs" and "spec_node csi = Some nd"
    and "nd_DriveMgr nd = Some dm" and "dm_Image dm = Some img"
  shows "map vol_Name vs =
    [LogsVolume, hostDevVolume, hostHomeVolume, hostSysVolume, hostRootVolume, hostRunUdevVolume,
     hostRunLVMVolume, hostRunLock, CSISocketDirVolume, registrationDirVolume, mountPointDirVolume,
     csiPathVolume, nodeConfigVolume, ''crash-dump''] @
    (if isLoopbackMgr (img_Name img) then [driveConfigVolume] else [])"
  using assms by (auto simp: createNodeVolumes_def)

lemma createNodeContainers_mounts:
  assumes "createNodeContainers csi p = Some cs" and "spec_node csi = Some nd"
    and "nd_DriveMgr nd = Some dm" and "dm_Image dm = Some img"
  shows "map co_Name cs = [LivenessProbeName, DriverRegistrarName, ''node'', ''drivemgr''] \<and>
    map co_VolumeMounts cs =
      [[mount CSISocketDirVolume ''/csi'', CrashMountVolume],
       [mount CSISocketDirVolume ''/csi'', mount registrationDirVolume ''/registration'', CrashMountVolume],
       node_mounts, driveMgr_mounts (img_Name img)]"
  using assms by (auto simp: createNodeContainers_def drivemgr_container_def Let_def split: Option.bind_splits)

lemma createNodeDaemonSet_cases:
  assumes "createNodeDaemonSet csi p = Some ds"
  obtains vs cs nd dm img where
    "createNodeVolumes csi = Some vs" "createNodeContainers csi p = Some cs"
    "spec_node csi = Some nd" "nd_DriveMgr nd = Some dm" "dm_Image dm = Some img"
    "ds_Meta ds = object_meta (dep_Namespace csi) (DaemonsetName p nodeName) app_labels"
    "dss_Selector (ds_Spec ds) = ConstructSelectorMap nodeName"
    "pt_Labels (dss_Template (ds_Spec ds)) = ConstructLabelMap nodeName node"
    "ps_Volumes (pt_Spec (dss_Template (ds_Spec ds))) = vs"
    "ps_Containers (pt_Spec (dss_Template (ds_Spec ds))) = cs"
    "map_get (ps_NodeSelector (pt_Spec (dss_Template (ds_Spec ds)))) platformLabel = Some (pd_labeltag p)"
proof -
  from assms obtain sel vs cs nd where
    1: "map_set (MakeNodeSelectorMap (sp_NodeSelector (dep_Spec csi))) platformLabel (pd_labeltag p) = Some sel"
      "createNodeVolumes csi = Some vs" "createNodeContainers csi p = Some cs" "spec_node csi = Some nd"
    by (auto simp: createNodeDaemonSet_def split: Option.bind_splits)
  from 1(2,4) obtain dm img where 2: "nd_DriveMgr nd = Some dm" "dm_Image dm = Some img"
    by (auto simp: createNodeVolumes_def Let_def split: Option.bind_splits)
  from 1 map_get_set [OF 1(1), of platformLabel] that [OF 1(2-4) 2] assms show ?thesis
    by (auto simp: createNodeDaemonSet_def)
qed

lemma createNodeDaemonSet_schedulable:
  assumes "createNodeDaemonSet csi p = Some ds"
  shows "schedulable (dss_Selector (ds_Spec ds)) (dss_Template (ds_Spec ds))"
  using assms
proof (cases rule: createNodeDaemonSet_cases)
  case (1 vs cs nd dm img)
  from createNodeVolumes_names [OF 1(1,3-5)]
  have vs: "map vol_Name vs =
    [LogsVolume, hostDevVolume, hostHomeVolume, hostSysVolume, hostRootVolume, hostRunUdevVolume,
     hostRunLVMVolume, hostRunLock, CSISocketDirVolume, registrationDirVolume, mountPointDirVolume,
     csiPathVolume, nodeConfigVolume, ''crash-dump''] @
    (if isLoopbackMgr (img_Name img) then [driveConfigVolume] else [])" .
  from createNodeContainers_mounts [OF 1(2-5)]
  have cs: "map co_Name cs = [LivenessProbeName, DriverRegistrarName, ''node'', ''drivemgr'']"
    and m: "map co_VolumeMounts cs =
      [[mount CSISocketDirVolume ''/csi'', CrashMountVolume],
       [mount CSISocketDirVolume ''/csi'', mount registrationDirVolume ''/registration'', CrashMountVolume],
       node_mounts, driveMgr_mounts (img_Name img)]" by auto
  have "vol_Name ` set vs = set (map vol_Name vs)" by simp
  moreover have "(\<forall>c \<in> set cs. \<forall>x \<in> set (co_VolumeMounts c). vm_Name x \<in> set (map vol_Name vs)) \<longleftrightarrow>
      (\<forall>ms \<in> set (map co_VolumeMounts cs). \<forall>x \<in> set ms. vm_Name x \<in> set (map vol_Name vs))"
    by simp
  moreover have "\<forall>ms \<in> set (map co_VolumeMounts cs). \<forall>x \<in> set ms. vm_Name x \<in> set (map vol_Name vs)"
    unfolding m vs by (simp add: node_mounts_def driveMgr_mounts_def nodeConfigMapName_def nodeConfigVolume_def)
  ultimately have "mounts_declared (pt_Spec (dss_Template (ds_Spec ds)))"
    using 1(9,10) by (simp add: mounts_declared_def)
  then show ?thesis
  proof (rule schedulableI [OF 1(8,7)])
    show "distinct (map vol_Name (ps_Volumes (pt_Spec (dss_Template (ds_Spec ds)))))"
      unfolding 1(9) vs by (simp add: node_names)
    show "distinct (map co_Name (ps_Containers (pt_Spec (dss_Template (ds_Spec ds)))))"
      unfolding 1(10) cs by (simp add: LivenessProbeName_def DriverRegistrarName_def)
  qed
qed

end
