(* ===== verification/Recording.thy ===== *)
theory Recording
  imports Calls
begin

text \<open>
  Runs with a record of every request to the API server and of its answer. The trace of a run
  holds what the operator wrote; \<open>recording k\<close> is the cluster \<open>k\<close> with a list of all requests
  made through its clients, the reads included, each with what was answered. The operator
  cannot tell the two apart; a theorem about a run on \<open>recording k\<close>, for every \<open>k\<close>, can
  speak of the answers this very run got, and of what came before what.
\<close>

section \<open>Requests and answers\<close>

datatype request =
    R_Get kind string string
  | R_List kind list_opts
  | R_Create obj
  | R_Update obj
  | R_Delete kind string string

datatype answer =
    A_Error goerr
  | A_Object obj
  | A_Items "obj list"
  | A_Done

type_synonym entry = "request \<times> answer"

fun request_kind :: "request \<Rightarrow> kind" where
  "request_kind (R_Get kd _ _) = kd"
| "request_kind (R_List kd _) = kd"
| "request_kind (R_Create x) = kind_of x"
| "request_kind (R_Update x) = kind_of x"
| "request_kind (R_Delete kd _ _) = kd"

fun is_read :: "request \<Rightarrow> bool" where
  "is_read (R_Get _ _ _) = True"
| "is_read (R_List _ _) = True"
| "is_read _ = False"

definition succeeded :: "entry \<Rightarrow> bool" where
  "succeeded c \<longleftrightarrow> (\<forall>e. snd c \<noteq> A_Error e)"

definition object_answer :: "('o \<Rightarrow> obj) \<Rightarrow> goerr + 'o \<Rightarrow> answer" where
  "object_answer mk r = (case r of Inl e \<Rightarrow> A_Error e | Inr x \<Rightarrow> A_Object (mk x))"

definition items_answer :: "('o \<Rightarrow> obj) \<Rightarrow> goerr + 'o list \<Rightarrow> answer" where
  "items_answer mk r = (case r of Inl e \<Rightarrow> A_Error e | Inr xs \<Rightarrow> A_Items (map mk xs))"

definition done_answer :: "goerr option \<Rightarrow> answer" where
  "done_answer r = (case r of Some e \<Rightarrow> A_Error e | None \<Rightarrow> A_Done)"

lemma answer_simps [simp]:
  "object_answer mk (Inl e) = A_Error e" "object_answer mk (Inr x) = A_Object (mk x)"
  "items_answer mk (Inl e) = A_Error e" "items_answer mk (Inr xs) = A_Items (map mk xs)"
  "done_answer None = A_Done" "done_answer (Some e) = A_Error e"
  by (simp_all add: object_answer_def items_answer_def done_answer_def)

lemma succeeded_simps [simp]:
  "succeeded (q, object_answer mk r) \<longleftrightarrow> err_of r = None"
  "succeeded (q, items_answer mk l) \<longleftrightarrow> err_of l = None"
  "succeeded (q, done_answer d) \<longleftrightarrow> d = None"
  "succeeded (q, A_Items ys)" "succeeded (q, A_Object y)" "succeeded (q, A_Done)" "\<not> succeeded (q, A_Error e)"
  by (auto simp: succeeded_def object_answer_def items_answer_def done_answer_def
      split: sum.splits option.splits)

section \<open>The recording cluster\<close>

definition recorded :: "('r \<Rightarrow> entry) \<Rightarrow> ('w \<Rightarrow> 'r \<times> 'w) \<Rightarrow> 'w \<times> entry list \<Rightarrow> 'r \<times> ('w \<times> entry list)" where
  "recorded e f wl = (case f (fst wl) of (r, w) \<Rightarrow> (r, (w, snd wl @ [e r])))"

definition unrecorded :: "('w \<Rightarrow> 'r \<times> 'w) \<Rightarrow> 'w \<times> entry list \<Rightarrow> 'r \<times> ('w \<times> entry list)" where
  "unrecorded f wl = (case f (fst wl) of (r, w) \<Rightarrow> (r, (w, snd wl)))"

definition recording_client ::
  "('o \<Rightarrow> obj) \<Rightarrow> kind \<Rightarrow> ('o, 'w) kclient \<Rightarrow> ('o, 'w \<times> entry list) kclient" where
  "recording_client mk kd c = \<lparr>
     kc_get = (\<lambda>ns n. recorded (\<lambda>r. (R_Get kd ns n, object_answer mk (api_res r))) (kc_get c ns n)),
     kc_list = (\<lambda>opts. recorded (\<lambda>r. (R_List kd opts, items_answer mk (api_res r))) (kc_list c opts)),
     kc_create = (\<lambda>x. recorded (\<lambda>r. (R_Create (mk x), object_answer mk (api_res r))) (kc_create c x)),
     kc_update = (\<lambda>x. recorded (\<lambda>r. (R_Update (mk x), object_answer mk (api_res r))) (kc_update c x)),
     kc_delete = (\<lambda>ns n. recorded (\<lambda>r. (R_Delete kd ns n, done_answer (map_option api_err r))) (kc_delete c ns n))\<rparr>"

definition recording :: "'w cluster \<Rightarrow> ('w \<times> entry list) cluster" where
  "recording k = \<lparr>
     k_ConfigMaps = recording_client O_ConfigMap K_ConfigMap (k_ConfigMaps k),
     k_DaemonSets = recording_client O_DaemonSet K_DaemonSet (k_DaemonSets k),
     k_Deployments = recording_client O_AppsDeployment K_AppsDeployment (k_Deployments k),
     k_Nodes = recording_client O_CoreNode K_CoreNode (k_Nodes k),
     k_Pods = recording_client O_Pod K_Pod (k_Pods k),
     k_Roles = recording_client O_Role K_Role (k_Roles k),
     k_RoleBindings = recording_client O_RoleBinding K_RoleBinding (k_RoleBindings k),
     k_CsibmNodes = recording_client O_CsibmNode K_CsibmNode (k_CsibmNodes k),
     k_Drives = recording_client O_Drive K_Drive (k_Drives k),
     k_ACs = recording_client O_AvailableCapacity K_AvailableCapacity (k_ACs k),
     k_LVGs = recording_client O_LogicalVolumeGroup K_LogicalVolumeGroup (k_LVGs k),
     k_Volumes = recording_client O_CsiVolume K_CsiVolume (k_Volumes k),
     k_ACRs = recording_client O_ACR K_ACR (k_ACRs k),
     k_Schedulers = recording_client O_OpenshiftScheduler K_OpenshiftScheduler (k_Schedulers k),
     k_SecondarySchedulers = recording_client O_SecondaryScheduler K_SecondaryScheduler (k_SecondarySchedulers k),
     k_CsiDeployments = recording_client O_Deployment K_Deployment (k_CsiDeployments k),
     k_ServerVersion = unrecorded (k_ServerVersion k),
     k_HTTPGet = (\<lambda>url. unrecorded (k_HTTPGet k url)),
     k_Now = unrecorded (k_Now k),
     k_After = (\<lambda>d wl. (k_After k d (fst wl), snd wl)),
     k_Eventf = (\<lambda>csi reason account wl. (k_Eventf k csi reason account (fst wl), snd wl)),
     lib_SetControllerReference = lib_SetControllerReference k,
     lib_EqualReplicas = lib_EqualReplicas k, lib_EqualSelector = lib_EqualSelector k,
     lib_EqualTemplate = lib_EqualTemplate k, lib_YamlReadiness = lib_YamlReadiness k\<rparr>"

lemma recording_clients [simp]:
  "k_ConfigMaps (recording k) = recording_client O_ConfigMap K_ConfigMap (k_ConfigMaps k)"
  "k_DaemonSets (recording k) = recording_client O_DaemonSet K_DaemonSet (k_DaemonSets k)"
  "k_Deployments (recording k) = recording_client O_AppsDeployment K_AppsDeployment (k_Deployments k)"
  "k_Nodes (recording k) = recording_client O_CoreNode K_CoreNode (k_Nodes k)"
  "k_Pods (recording k) = recording_client O_Pod K_Pod (k_Pods k)"
  "k_Roles (recording k) = recording_client O_Role K_Role (k_Roles k)"
  "k_RoleBindings (recording k) = recording_client O_RoleBinding K_RoleBinding (k_RoleBindings k)"
  "k_CsibmNodes (recording k) = recording_client O_CsibmNode K_CsibmNode (k_CsibmNodes k)"
  "k_Drives (recording k) = recording_client O_Drive K_Drive (k_Drives k)"
  "k_ACs (recording k) = recording_client O_AvailableCapacity K_AvailableCapacity (k_ACs k)"
  "k_LVGs (recording k) = recording_client O_LogicalVolumeGroup K_LogicalVolumeGroup (k_LVGs k)"
  "k_Volumes (recording k) = recording_client O_CsiVolume K_CsiVolume (k_Volumes k)"
  "k_ACRs (recording k) = recording_client O_ACR K_ACR (k_ACRs k)"
  "k_Schedulers (recording k) = recording_client O_OpenshiftScheduler K_OpenshiftScheduler (k_Schedulers k)"
  "k_SecondarySchedulers (recording k) =
     recording_client O_SecondaryScheduler K_SecondaryScheduler (k_SecondarySchedulers k)"
  "k_CsiDeployments (recording k) = recording_client O_Deployment K_Deployment (k_CsiDeployments k)"
  by (simp_all add: recording_def)

section \<open>What a run has recorded\<close>

definition record_of :: "('w \<times> entry list) sys \<Rightarrow> entry list" where
  "record_of s = snd (world s)"

definition new_entries :: "('w \<times> entry list) sys \<Rightarrow> ('w \<times> entry list) sys \<Rightarrow> entry list" where
  "new_entries s t = drop (length (record_of s)) (record_of t)"

definition appends :: "('w \<times> entry list) sys \<Rightarrow> entry list \<Rightarrow> ('w \<times> entry list) sys \<Rightarrow> bool" where
  "appends s cs t \<longleftrightarrow> record_of t = record_of s @ cs"

lemma appends_refl [simp, intro]: "appends s [] s"
  by (simp add: appends_def)

lemma appends_trans [trans]: "appends s cs t \<Longrightarrow> appends t ds u \<Longrightarrow> appends s (cs @ ds) u"
  by (simp add: appends_def)

lemma appends_new: "appends s cs t \<Longrightarrow> new_entries s t = cs"
  by (simp add: appends_def new_entries_def)

lemma record_of_log [simp]: "record_of (log_event e s) = record_of s"
  by (simp add: record_of_def log_event_def)

lemma in_world_recorded: "in_world (recorded e f) s = (r, t) \<Longrightarrow> appends s [e r] t"
  by (auto simp: in_world_def recorded_def appends_def record_of_def split: prod.splits)

lemma in_world_unrecorded: "in_world (unrecorded f) s = (r, t) \<Longrightarrow> appends s [] t"
  by (auto simp: in_world_def unrecorded_def appends_def record_of_def split: prod.splits)

lemma appends_log [simp]: "appends s cs (log_event e t) \<longleftrightarrow> appends s cs t"
  by (simp add: appends_def)

lemma kget_recorded:
  "kget (recording_client mk kd c) ns n s = Some (r, t) \<Longrightarrow> appends s [(R_Get kd ns n, object_answer mk r)] t"
  unfolding kget_def recording_client_def by (auto dest!: in_world_recorded split: prod.splits)

lemma klist_recorded:
  "klist (recording_client mk kd c) opts s = Some (r, t) \<Longrightarrow> appends s [(R_List kd opts, items_answer mk r)] t"
  unfolding klist_def recording_client_def by (auto dest!: in_world_recorded split: prod.splits)

lemma kcreate_recorded:
  "kcreate (recording_client mk kd c) mk' x s = Some (r, t) \<Longrightarrow> appends s [(R_Create (mk x), object_answer mk r)] t"
  unfolding kcreate_def recording_client_def by (auto dest!: in_world_recorded split: prod.splits)

lemma kupdate_recorded:
  "kupdate (recording_client mk kd c) mk' x s = Some (r, t) \<Longrightarrow> appends s [(R_Update (mk x), object_answer mk r)] t"
  unfolding kupdate_def recording_client_def by (auto dest!: in_world_recorded split: prod.splits)

lemma kdelete_recorded:
  "kdelete (recording_client mk kd c) kd' ns n s = Some (r, t) \<Longrightarrow> appends s [(R_Delete kd ns n, done_answer r)] t"
  unfolding kdelete_def recording_client_def by (auto dest!: in_world_recorded split: prod.splits)

lemmas calls_recorded = kget_recorded klist_recorded kcreate_recorded kupdate_recorded kdelete_recorded

lemma recording_same_key: "same_key c meta \<Longrightarrow> same_key (recording_client mk kd c) meta"
  unfolding same_key_def recording_client_def
  by (clarsimp simp: recorded_def split: prod.splits) blast

section \<open>Loops\<close>

text \<open>A loop appends what its iterations append, in order, and returns their errors.\<close>

lemma for_errors_appends:
  assumes "for_errors f xs s = Some (es, t)"
    and "\<And>x s e s'. x \<in> set xs \<Longrightarrow> f x s = Some (e, s') \<Longrightarrow> \<exists>cs. appends s cs s' \<and> Q x e cs"
  shows "\<exists>os. list_all2 (\<lambda>x (e, cs). Q x e cs) xs os \<and> appends s (concat (map snd os)) t \<and> es = somes (map fst os)"
  using assms
proof (induction xs arbitrary: s es)
  case Nil
  then show ?case by (intro exI [of _ "[]"]) simp
next
  case (Cons x xs)
  from Cons.prems(1) obtain e s1 es' where 1: "f x s = Some (e, s1)" "for_errors f xs s1 = Some (es', t)"
    and es: "es = (case e of None \<Rightarrow> es' | Some e \<Rightarrow> e # es')"
    by (auto split: Option.bind_splits)
  from Cons.prems(2) [OF _ 1(1)] obtain cs where cs: "appends s cs s1" "Q x e cs" by auto
  from Cons.IH [OF 1(2)] Cons.prems(2) obtain os where
    "list_all2 (\<lambda>x (e, cs). Q x e cs) xs os" "appends s1 (concat (map snd os)) t" "es' = somes (map fst os)"
    by auto
  with cs es show ?case
    by (intro exI [of _ "(e, cs) # os"]) (auto intro: appends_trans split: option.splits)
qed

lemma for_errors_appends_all:
  assumes run: "for_errors f xs s = Some (es, t)"
    and "\<And>x s e s'. x \<in> set xs \<Longrightarrow> f x s = Some (e, s') \<Longrightarrow> \<exists>cs. appends s cs s' \<and> Q cs"
  shows "\<exists>css. appends s (concat css) t \<and> (\<forall>cs \<in> set css. Q cs)"
proof -
  have "\<exists>os. list_all2 (\<lambda>_ (_, cs). Q cs) xs os \<and> appends s (concat (map snd os)) t \<and> es = somes (map fst os)"
    by (rule for_errors_appends [OF run]) (rule assms(2))
  then obtain os where os: "list_all2 (\<lambda>_ (_, cs). Q cs) xs os" "appends s (concat (map snd os)) t"
    "es = somes (map fst os)" by blast
  from os(1) have "\<forall>cs \<in> set (map snd os). Q cs" by (induction rule: list_all2_induct) auto
  with os(2) show ?thesis by blast
qed

section \<open>What came before\<close>

text \<open>\<open>guarded G seen cs\<close>: every entry of \<open>cs\<close> satisfies \<open>G\<close> together with the set of the entries
  before it, those of \<open>seen\<close> included.\<close>

fun guarded :: "(entry set \<Rightarrow> entry \<Rightarrow> bool) \<Rightarrow> entry set \<Rightarrow> entry list \<Rightarrow> bool" where
  "guarded G seen [] \<longleftrightarrow> True"
| "guarded G seen (c # cs) \<longleftrightarrow> G seen c \<and> guarded G (insert c seen) cs"

lemma guarded_append:
  "guarded G seen (cs @ ds) \<longleftrightarrow> guarded G seen cs \<and> guarded G (set cs \<union> seen) ds"
  by (induction cs arbitrary: seen) simp_all

lemma guarded_split: "guarded G seen (pre @ c # post) \<Longrightarrow> G (set pre \<union> seen) c"
  by (simp add: guarded_append)

lemma guarded_all: "(\<And>c A. c \<in> set cs \<Longrightarrow> seen \<subseteq> A \<Longrightarrow> G A c) \<Longrightarrow> guarded G seen cs"
proof (induction cs arbitrary: seen)
  case (Cons c cs)
  have "guarded G (insert c seen) cs"
    by (rule Cons.IH) (use Cons.prems in auto)
  with Cons.prems show ?case by simp
qed simp

lemma guarded_concat:
  "(\<And>cs A. cs \<in> set css \<Longrightarrow> seen \<subseteq> A \<Longrightarrow> guarded G A cs) \<Longrightarrow> guarded G seen (concat css)"
proof (induction css arbitrary: seen)
  case (Cons cs css)
  have "guarded G (set cs \<union> seen) (concat css)"
    by (rule Cons.IH) (use Cons.prems in auto)
  with Cons.prems show ?case by (simp add: guarded_append)
qed simp

section \<open>Which requests are recorded\<close>

text \<open>Only reads, and writes of the kinds of \<open>K\<close>.\<close>

definition entry_in :: "kind set \<Rightarrow> entry \<Rightarrow> bool" where
  "entry_in K c \<longleftrightarrow> is_read (fst c) \<or> request_kind (fst c) \<in> K"

lemma appends_entry: "appends s [c] t \<Longrightarrow> entry_in K c \<Longrightarrow> \<exists>cs. appends s cs t \<and> list_all (entry_in K) cs"
  by (rule exI [of _ "[c]"]) simp

lemma recorded_client_call:
  assumes "client_call (recording_client mk kd c) mk' kd K s t" "\<And>x. kind_of (mk x) = kd"
  shows "\<exists>cs. appends s cs t \<and> list_all (entry_in K) cs"
proof -
  note e = calls_recorded [THEN appends_entry]
  from assms(1) [unfolded client_call_def] show ?thesis
    by (elim disjE exE conjE) (auto simp: entry_in_def assms(2) elim!: e)
qed

lemma recorded_other_call: "other_call (recording k) s t \<Longrightarrow> appends s [] t"
  unfolding other_call_def recording_def
  by (elim disjE exE conjE)
    (auto dest!: in_world_unrecorded simp: pause_def eventf_def appends_def record_of_def log_event_def)

lemma recorded_one_call:
  assumes "one_call (recording k) K s t"
  shows "\<exists>cs. appends s cs t \<and> list_all (entry_in K) cs"
  using assms unfolding one_call_def recording_clients
  by (elim disjE) (auto elim!: recorded_client_call dest!: recorded_other_call)

lemma recorded_calls:
  assumes "calls (recording k) K s t"
  obtains cs where "appends s cs t" "list_all (entry_in K) cs"
proof -
  from assms have "\<exists>cs. appends s cs t \<and> list_all (entry_in K) cs"
  proof (induction rule: rtranclp_induct)
    case base
    show ?case by (intro exI [of _ "[]"]) simp
  next
    case (step t u)
    then obtain cs ds where "appends s cs t" "list_all (entry_in K) cs" "appends t ds u" "list_all (entry_in K) ds"
      using recorded_one_call by blast
    then show ?case by (intro exI [of _ "cs @ ds"]) (simp add: appends_def)
  qed
  with that show ?thesis by blast
qed

end
