(* ===== verification/ExampleCluster.thy ===== *)
theory ExampleCluster
  imports Recording
begin

text \<open>
  One concrete cluster for the witnesses: an API server that answers every list with a
  fixed list of objects, finds nothing by name, and accepts every write. The witnesses
  replace the clients they are about.
\<close>

definition canned :: "'o list \<Rightarrow> ('o, 'w) kclient" where
  "canned xs = \<lparr>
     kc_get = (\<lambda>ns n w. (Inl (True, ''not found''), w)),
     kc_list = (\<lambda>opts w. (Inr xs, w)),
     kc_create = (\<lambda>x w. (Inr x, w)),
     kc_update = (\<lambda>x w. (Inr x, w)),
     kc_delete = (\<lambda>ns n w. (None, w))\<rparr>"

definition quiet_cluster :: "'w cluster" where
  "quiet_cluster = \<lparr>
     k_ConfigMaps = canned [], k_DaemonSets = canned [], k_Deployments = canned [],
     k_Nodes = canned [], k_Pods = canned [], k_Roles = canned [], k_RoleBindings = canned [],
     k_CsibmNodes = canned [], k_Drives = canned [], k_ACs = canned [], k_LVGs = canned [],
     k_Volumes = canned [], k_ACRs = canned [], k_Schedulers = canned [],
     k_SecondarySchedulers = canned [], k_CsiDeployments = canned [],
     k_ServerVersion = (\<lambda>w. (Inr (''1'', ''22''), w)),
     k_HTTPGet = (\<lambda>url w. (Inr 200, w)),
     k_Now = (\<lambda>w. (0, w)),
     k_After = (\<lambda>d w. w),
     k_Eventf = (\<lambda>csi reason account w. w),
     lib_SetControllerReference = (\<lambda>csi m. Inr m),
     lib_EqualReplicas = (=), lib_EqualSelector = (=), lib_EqualTemplate = (=),
     lib_YamlReadiness = (\<lambda>statuses. Inr ''nodes'')\<rparr>"

definition start :: "'w \<Rightarrow> 'w sys" where
  "start w = \<lparr>world = w, trace = []\<rparr>"

lemma start_simps [simp]: "world (start w) = w" "trace (start w) = []"
  by (simp_all add: start_def)

lemma canned_calls [simp]:
  "kget (canned xs) ns n s = Some (Inl (ApiError True ''not found''), s)"
  "klist (canned xs) opts s = Some (Inr xs, s)"
  "kcreate (canned xs) mk x s = Some (Inr x, log_event (Created (mk x) None) s)"
  "kupdate (canned xs) mk x s = Some (Inr x, log_event (Updated (mk x) None) s)"
  "kdelete (canned xs) kd ns n s = Some (None, log_event (Deleted kd ns n None) s)"
  by (simp_all add: kget_def klist_def kcreate_def kupdate_def kdelete_def in_world_def canned_def
      api_err_def)

lemma canned_same_key [simp]: "same_key (canned xs) meta"
  by (simp add: same_key_def canned_def)

lemma trace_log_event [simp]: "trace (log_event e s) = trace s @ [e]"
  by (simp add: log_event_def)

lemma world_log_event [simp]: "world (log_event e s) = world s"
  by (simp add: log_event_def)

lemma quiet_cluster_simps [simp]:
  "k_ConfigMaps quiet_cluster = canned []" "k_DaemonSets quiet_cluster = canned []"
  "k_Deployments quiet_cluster = canned []" "k_Nodes quiet_cluster = canned []"
  "k_Pods quiet_cluster = canned []" "k_Roles quiet_cluster = canned []"
  "k_RoleBindings quiet_cluster = canned []" "k_CsibmNodes quiet_cluster = canned []"
  "k_Drives quiet_cluster = canned []" "k_ACs quiet_cluster = canned []"
  "k_LVGs quiet_cluster = canned []" "k_Volumes quiet_cluster = canned []"
  "k_ACRs quiet_cluster = canned []" "k_Schedulers quiet_cluster = canned []"
  "k_SecondarySchedulers quiet_cluster = canned []" "k_CsiDeployments quiet_cluster = canned []"
  "k_ServerVersion quiet_cluster = (\<lambda>w. (Inr (''1'', ''22''), w))"
  "k_HTTPGet quiet_cluster = (\<lambda>url w. (Inr 200, w))"
  "k_Now quiet_cluster = (\<lambda>w. (0, w))"
  "k_After quiet_cluster = (\<lambda>d w. w)"
  "k_Eventf quiet_cluster = (\<lambda>csi reason account w. w)"
  "lib_SetControllerReference quiet_cluster = (\<lambda>csi m. Inr m)"
  "lib_EqualReplicas quiet_cluster = (=)" "lib_EqualSelector quiet_cluster = (=)"
  "lib_EqualTemplate quiet_cluster = (=)"
  "lib_YamlReadiness quiet_cluster = (\<lambda>statuses. Inr ''nodes'')"
  by (simp_all add: quiet_cluster_def)

text \<open>The same clients on the recording cluster.\<close>

definition record_entry :: "entry \<Rightarrow> ('w \<times> entry list) sys \<Rightarrow> ('w \<times> entry list) sys" where
  "record_entry c s = s\<lparr>world := (fst (world s), snd (world s) @ [c])\<rparr>"

lemma record_entry_simps [simp]:
  "trace (record_entry c s) = trace s" "record_of (record_entry c s) = record_of s @ [c]"
  "fst (world (record_entry c s)) = fst (world s)" "record_of (start (w, cs)) = cs"
  by (simp_all add: record_entry_def record_of_def)

lemma recording_canned [simp]:
  "kget (recording_client mk kd (canned xs)) ns n s =
     Some (Inl (ApiError True ''not found''), record_entry (R_Get kd ns n, A_Error (ApiError True ''not found'')) s)"
  "klist (recording_client mk kd (canned xs)) opts s =
     Some (Inr xs, record_entry (R_List kd opts, A_Items (map mk xs)) s)"
  "kupdate (recording_client mk kd (canned xs)) mk' x s =
     Some (Inr x, log_event (Updated (mk' x) None) (record_entry (R_Update (mk x), A_Object (mk x)) s))"
  "kdelete (recording_client mk kd (canned xs)) kd' ns n s =
     Some (None, log_event (Deleted kd' ns n None) (record_entry (R_Delete kd ns n, A_Done) s))"
  by (simp_all add: kget_def klist_def kupdate_def kdelete_def in_world_def canned_def recording_client_def
      recorded_def record_entry_def api_err_def log_event_def)

text \<open>Their calls leave the world alone.\<close>

lemma canned_client_call: "client_call (canned xs) mk kd K s t \<Longrightarrow> world t = world s"
  by (auto simp: client_call_def)

lemma quiet_other_call:
  assumes "other_call k s t"
    and "k_ServerVersion k = k_ServerVersion quiet_cluster" "k_Now k = k_Now quiet_cluster"
    "k_HTTPGet k = k_HTTPGet quiet_cluster" "k_After k = k_After quiet_cluster" "k_Eventf k = k_Eventf quiet_cluster"
  shows "world t = world s"
  using assms by (auto simp: other_call_def in_world_def pause_def eventf_def)

text \<open>And one custom resource with every pointer set.\<close>

definition example_image :: "string \<Rightarrow> Image option" where
  "example_image n = Some \<lparr>img_Name = n, img_Tag = ''1.0''\<rparr>"

definition example_log :: "Log option" where
  "example_log = Some \<lparr>log_Format = ''text'', log_Level = ''info''\<rparr>"

definition example_sidecar :: "string \<Rightarrow> Sidecar" where
  "example_sidecar n = \<lparr>side_Image = example_image n,
     side_Args = Some \<lparr>arg_Timeout = ''60s'', arg_RetryIntervalStart = ''20s'',
       arg_RetryIntervalMax = ''30s'', arg_WorkerThreads = 1\<rparr>,
     side_Resources = None\<rparr>"

definition example_sidecars :: Sidecars where
  "example_sidecars = fmap_of_list
     (map (\<lambda>n. (n, example_sidecar n))
       [''livenessprobe'', ''csi-node-driver-registrar'', ''csi-provisioner'', ''csi-resizer''])"

definition example_spec_node :: Node where
  "example_spec_node = \<lparr>nd_ServiceAccount = ''sa'',
     nd_DriveMgr = Some \<lparr>dm_Image = example_image ''loopbackmgr'', dm_Endpoint = ''tcp://:8888'',
       dm_Resources = None\<rparr>,
     nd_Image = example_image ''node'', nd_Log = example_log, nd_Sidecars = example_sidecars,
     nd_Resources = None,
     nd_PodSecurityPolicy = Some \<lparr>psp_Enable = True, psp_ResourceName = ''privileged''\<rparr>\<rparr>"

definition example_controller :: Controller where
  "example_controller = \<lparr>ctl_Image = example_image ''controller'', ctl_Log = example_log,
     ctl_Sidecars = example_sidecars, ctl_Resources = None, ctl_FastDelay = ''1.5s'',
     ctl_SlowDelay = ''12s'', ctl_MaxFastAttempts = 30,
     ctl_SecurityContext = None\<rparr>"

definition example_scheduler :: Scheduler where
  "example_scheduler = \<lparr>sch_Enable = True, sch_ServiceAccount = ''sa'',
     sch_Image = example_image ''extender'', sch_Log = example_log, sch_Metrics = None,
     sch_Patcher = Some \<lparr>pat_Enable = True, pat_Image = example_image ''patcher'', pat_Interval = 60,
       pat_RestoreOnShutdown = False, pat_ConfigMapName = ''schedulerpatcher-config'',
       pat_ReadinessTimeout = 10, pat_Resources = None\<rparr>,
     sch_ExtenderPort = ''8889'', sch_StorageProvisioner = ''csi-baremetal'',
     sch_OpenshiftSecondaryScheduler = None, sch_Resources = None, sch_SecurityContext = None,
     sch_PodSecurityPolicy = Some \<lparr>psp_Enable = True, psp_ResourceName = ''privileged''\<rparr>\<rparr>"

definition example_node_controller :: NodeController where
  "example_node_controller = \<lparr>nc_Enable = True, nc_Image = example_image ''node-controller'',
     nc_Log = example_log, nc_Resources = None\<rparr>"

definition example_csi :: "string \<Rightarrow> Deployment" where
  "example_csi platform = \<lparr>dep_Meta = object_meta ''ns'' ''csi'' None,
     dep_Spec = \<lparr>
       sp_Driver = Some \<lparr>drv_Controller = Some example_controller, drv_Node = Some example_spec_node,
         drv_Metrics = None, drv_LogReceiver = None, drv_MountRootHost = False\<rparr>,
       sp_NodeController = Some example_node_controller,
       sp_Scheduler = Some example_scheduler,
       sp_GlobalRegistry = ''registry'', sp_RegistrySecret = [], sp_PullPolicy = ''Always'',
       sp_NodeSelector = None, sp_NodeIDAnnotation = True, sp_SequentialLVGReservation = False,
       sp_Platform = platform\<rparr>\<rparr>"

lemmas example_defs = example_csi_def example_node_controller_def example_scheduler_def
  example_controller_def example_spec_node_def example_sidecars_def example_sidecar_def
  example_log_def example_image_def

end
