(* ===== verification/Rbac.thy ===== *)
theory Rbac
  imports ExampleCluster Common
begin

text \<open>
  The packages \<open>pkg/validator\<close>, \<open>pkg/validator/rbac\<close> and \<open>pkg/feature/security_verifier\<close>: is
  the service account of a component bound to a role with the policies it needs? The
  matcher is an interface of the code, here a record of its methods with a locale for what
  the validator relies on; the two security verifiers share a contract, stated as a locale
  and interpreted on both.
\<close>

section \<open>The matcher (\<open>rbac/matcher.go\<close>)\<close>

text \<open>\<open>covers actual requested\<close>: the check of one of the four lists of a policy rule, every
  requested entry is a key of the map prepared from the actual ones.\<close>

definition covers :: "string list \<Rightarrow> string list \<Rightarrow> bool" where
  "covers actual requested = list_all (\<lambda>x. x \<in> set actual) requested"

definition MatchPolicyRule :: "PolicyRule \<Rightarrow> PolicyRule \<Rightarrow> bool" where
  "MatchPolicyRule actual requested =
     (if \<not> covers (rule_Verbs actual) (rule_Verbs requested) then False
      else if \<not> covers (rule_APIGroups actual) (rule_APIGroups requested) then False
      else if \<not> covers (rule_Resources actual) (rule_Resources requested) then False
      else if \<not> covers (rule_ResourceNames actual) (rule_ResourceNames requested) then False
      else True)"

text \<open>The inner loop over the requested rules carries the flag \<open>matches\<close>; it stops at the
  first rule that does not match.\<close>

fun match_requested :: "PolicyRule \<Rightarrow> PolicyRule list \<Rightarrow> bool \<Rightarrow> bool" where
  "match_requested actual [] matches = matches"
| "match_requested actual (r # rs) matches =
     (if MatchPolicyRule actual r then match_requested actual rs True else False)"

fun MatchPolicyRules_loop :: "PolicyRule list \<Rightarrow> PolicyRule list \<Rightarrow> bool \<Rightarrow> bool" where
  "MatchPolicyRules_loop [] requested matches = False"
| "MatchPolicyRules_loop (a # as) requested matches =
     (let matches = match_requested a requested matches
      in if matches then True else MatchPolicyRules_loop as requested matches)"

definition MatchPolicyRules :: "PolicyRule list \<Rightarrow> PolicyRule list \<Rightarrow> bool" where
  "MatchPolicyRules actual requested = MatchPolicyRules_loop actual requested False"

fun match_subjects :: "Subject list \<Rightarrow> string \<Rightarrow> string \<Rightarrow> bool" where
  "match_subjects [] subjectName namespace = False"
| "match_subjects (subject # rest) subjectName namespace =
     (if sub_Name subject = subjectName \<and> sub_Namespace subject = namespace then True
      else match_subjects rest subjectName namespace)"

definition MatchRoleBindingSubjects :: "RoleBinding \<Rightarrow> string \<Rightarrow> string \<Rightarrow> bool" where
  "MatchRoleBindingSubjects roleBinding subjectName namespace =
     match_subjects (rb_Subjects roleBinding) subjectName namespace"

definition MatchRoleBindingsSubjects ::
  "RoleBinding list \<Rightarrow> string \<Rightarrow> string \<Rightarrow> RoleBinding list" where
  "MatchRoleBindingsSubjects roleBindings subjectName namespace =
     filter (\<lambda>rb. MatchRoleBindingSubjects rb subjectName namespace) roleBindings"

definition MatchRoles :: "Role list \<Rightarrow> string list \<Rightarrow> Role list" where
  "MatchRoles roles names = filter (\<lambda>role. m_Name (r_Meta role) \<in> set names) roles"

record Matcher =
  mt_PolicyRules :: "PolicyRule list \<Rightarrow> PolicyRule list \<Rightarrow> bool"
  mt_PolicyRule :: "PolicyRule \<Rightarrow> PolicyRule \<Rightarrow> bool"
  mt_RoleBindingsSubjects :: "RoleBinding list \<Rightarrow> string \<Rightarrow> string \<Rightarrow> RoleBinding list"
  mt_RoleBindingSubjects :: "RoleBinding \<Rightarrow> string \<Rightarrow> string \<Rightarrow> bool"
  mt_Roles :: "Role list \<Rightarrow> string list \<Rightarrow> Role list"

definition NewMatcher :: Matcher where
  "NewMatcher = \<lparr>mt_PolicyRules = MatchPolicyRules, mt_PolicyRule = MatchPolicyRule,
     mt_RoleBindingsSubjects = MatchRoleBindingsSubjects,
     mt_RoleBindingSubjects = MatchRoleBindingSubjects, mt_Roles = MatchRoles\<rparr>"

text \<open>What a match means.\<close>

definition rule_covers :: "PolicyRule \<Rightarrow> PolicyRule \<Rightarrow> bool" where
  "rule_covers a r \<longleftrightarrow>
     set (rule_Verbs r) \<subseteq> set (rule_Verbs a) \<and> set (rule_APIGroups r) \<subseteq> set (rule_APIGroups a) \<and>
     set (rule_Resources r) \<subseteq> set (rule_Resources a) \<and>
     set (rule_ResourceNames r) \<subseteq> set (rule_ResourceNames a)"

definition binds :: "RoleBinding \<Rightarrow> string \<Rightarrow> string \<Rightarrow> bool" where
  "binds rb account ns \<longleftrightarrow>
     (\<exists>sub \<in> set (rb_Subjects rb). sub_Name sub = account \<and> sub_Namespace sub = ns)"

lemma covers_iff: "covers a r \<longleftrightarrow> set r \<subseteq> set a"
  by (auto simp: covers_def list_all_iff)

lemma MatchPolicyRule_iff: "MatchPolicyRule a r \<longleftrightarrow> rule_covers a r"
  by (simp add: MatchPolicyRule_def rule_covers_def covers_iff)

lemma match_requested_iff:
  "match_requested a rs m \<longleftrightarrow> (if rs = [] then m else list_all (rule_covers a) rs)"
  by (induction rs arbitrary: m) (auto simp: MatchPolicyRule_iff)

lemma MatchPolicyRules_loop_iff:
  "MatchPolicyRules_loop as rs False \<longleftrightarrow> rs \<noteq> [] \<and> (\<exists>a \<in> set as. list_all (rule_covers a) rs)"
  by (induction as) (auto simp: match_requested_iff Let_def)

lemma match_subjects_iff:
  "match_subjects subs account ns \<longleftrightarrow>
   (\<exists>sub \<in> set subs. sub_Name sub = account \<and> sub_Namespace sub = ns)"
  by (induction subs) auto

text \<open>C20. A rule of a role has to grant everything that is requested, and it has to grant it
  alone: \<open>MatchPolicyRules\<close> holds exactly if there is a request and one actual rule covers
  every requested rule in verbs, groups, resources and resource names.\<close>

theorem MatchPolicyRules_spec:
  "MatchPolicyRules actual requested \<longleftrightarrow>
   requested \<noteq> [] \<and> (\<exists>a \<in> set actual. \<forall>r \<in> set requested. rule_covers a r)"
  by (simp add: MatchPolicyRules_def MatchPolicyRules_loop_iff list_all_iff)

section \<open>The validator (\<open>rbac/validator.go\<close>, \<open>validator.go\<close>)\<close>

record ServiceAccountIsRoleBoundData =
  sa_Role :: "Role option"
  sa_ServiceAccountName :: string
  sa_Namespace :: string

definition in_namespace :: "string \<Rightarrow> list_opts" where
  "in_namespace ns = list_all_objects\<lparr>lo_Namespace := ns\<rparr>"

definition quoted :: "string \<Rightarrow> string" where
  "quoted s = CHR 0x27 # s @ [CHR 0x27]"

definition NewRBACError :: "string \<Rightarrow> goerr" where
  [simp]: "NewRBACError message = RbacError message"

definition rbac_message :: "string \<Rightarrow> ServiceAccountIsRoleBoundData \<Rightarrow> goerr" where
  "rbac_message what rules =
     NewRBACError (what @ '', service account: '' @ quoted (sa_ServiceAccountName rules) @
       '', namespace: '' @ quoted (sa_Namespace rules))"

text \<open>The loop over the matched roles; a nil role is dereferenced.\<close>

fun match_any_role :: "Matcher \<Rightarrow> Role option \<Rightarrow> Role list \<Rightarrow> bool option" where
  "match_any_role matcher wanted [] = Some False"
| "match_any_role matcher wanted (role # roles) = do {
     w \<leftarrow> wanted;
     if m_Name (r_Meta w) \<noteq> [] \<and> m_Name (r_Meta w) \<noteq> m_Name (r_Meta role)
     then match_any_role matcher wanted roles
     else if m_Namespace (r_Meta w) \<noteq> [] \<and> m_Namespace (r_Meta w) \<noteq> m_Namespace (r_Meta role)
     then match_any_role matcher wanted roles
     else if mt_PolicyRules matcher (r_Rules role) (r_Rules w) then Some True
     else match_any_role matcher wanted roles
   }"

definition ValidateServiceAccountIsBound ::
  "'w cluster \<Rightarrow> Matcher \<Rightarrow> ServiceAccountIsRoleBoundData \<Rightarrow> 'w sys \<Rightarrow>
   (goerr option \<times> 'w sys) option" where
  "ValidateServiceAccountIsBound k matcher rules s = do {
     (r, s) \<leftarrow> klist (k_RoleBindings k) (in_namespace (sa_Namespace rules)) s;
     case r of
       Inl err \<Rightarrow> Some (Some err, s)
     | Inr roleBindings \<Rightarrow> do {
         let matchesRoleBindings = mt_RoleBindingsSubjects matcher roleBindings
               (sa_ServiceAccountName rules) (sa_Namespace rules);
         if length matchesRoleBindings = 0
         then Some (Some (rbac_message ''service account not matched'' rules), s)
         else do {
           (r, s) \<leftarrow> klist (k_Roles k) (in_namespace (sa_Namespace rules)) s;
           case r of
             Inl err \<Rightarrow> Some (Some err, s)
           | Inr roles \<Rightarrow> do {
               let matchesRoleBindingsRefs = map rb_RoleRefName matchesRoleBindings;
               let matchesRoles = mt_Roles matcher roles matchesRoleBindingsRefs;
               if length matchesRoles = 0
               then Some (Some (rbac_message ''roles not matched'' rules), s)
               else do {
                 found \<leftarrow> match_any_role matcher (sa_Role rules) matchesRoles;
                 if found then Some (None, s)
                 else Some (Some (rbac_message
                   ''failed to find any roles, matched to passed service account'' rules), s)
               }
             }
         }
       }
   }"

text \<open>\<open>RBACRules.Data\<close> is an \<open>interface{}\<close>; the rule type
  \<open>ServiceAccountIsRoleBound\<close> is a variable never assigned, so the empty string.\<close>

datatype rbac_data = RoleBoundData ServiceAccountIsRoleBoundData | OtherData

record RBACRules =
  rr_Data :: rbac_data
  rr_Type :: string

definition ServiceAccountIsRoleBound :: string where
  "ServiceAccountIsRoleBound = []"

definition ValidateRBAC ::
  "'w cluster \<Rightarrow> Matcher \<Rightarrow> RBACRules \<Rightarrow> 'w sys \<Rightarrow> (goerr option \<times> 'w sys) option" where
  "ValidateRBAC k matcher rules s =
     (if rr_Type rules = ServiceAccountIsRoleBound then
        (case rr_Data rules of
           RoleBoundData adaptedRules \<Rightarrow> ValidateServiceAccountIsBound k matcher adaptedRules s
         | OtherData \<Rightarrow> Some (Some (ErrorText
             ''unknown data for service account is role bound validation''), s))
      else Some (Some (ErrorText (''unknown validation rule type, '' @ rr_Type rules)), s))"

section \<open>What the validator promises\<close>

text \<open>\<open>role_bound\<close>: some listed binding names the account, some listed role has the name that
  binding refers to, and this role passes the filters and grants the policies.\<close>

definition role_wanted :: "Role \<Rightarrow> Role \<Rightarrow> bool" where
  "role_wanted w role \<longleftrightarrow>
     (m_Name (r_Meta w) = [] \<or> m_Name (r_Meta w) = m_Name (r_Meta role)) \<and>
     (m_Namespace (r_Meta w) = [] \<or> m_Namespace (r_Meta w) = m_Namespace (r_Meta role)) \<and>
     r_Rules w \<noteq> [] \<and> (\<exists>a \<in> set (r_Rules role). \<forall>r \<in> set (r_Rules w). rule_covers a r)"

definition role_bound :: "RoleBinding list \<Rightarrow> Role list \<Rightarrow> Role \<Rightarrow> string \<Rightarrow> string \<Rightarrow> bool" where
  "role_bound bindings roles w account ns \<longleftrightarrow>
     (\<exists>rb \<in> set bindings. binds rb account ns \<and>
        (\<exists>role \<in> set roles. m_Name (r_Meta role) = rb_RoleRefName rb \<and> role_wanted w role))"

text \<open>What the validator relies on from any \<open>Matcher\<close>.\<close>

locale role_matcher =
  fixes matcher :: Matcher
  assumes rules_law: "mt_PolicyRules matcher actual requested \<longleftrightarrow>
      requested \<noteq> [] \<and> (\<exists>a \<in> set actual. \<forall>r \<in> set requested. rule_covers a r)"
    and bindings_law: "set (mt_RoleBindingsSubjects matcher bs account ns) =
      {rb \<in> set bs. binds rb account ns}"
    and roles_law: "set (mt_Roles matcher roles names) = {role \<in> set roles. m_Name (r_Meta role) \<in> set names}"
begin

lemma match_any_role_iff:
  "match_any_role matcher (Some w) roles = Some (\<exists>role \<in> set roles. role_wanted w role)"
proof (induction roles)
  case (Cons role roles)
  have "match_any_role matcher (Some w) (role # roles) =
      (if role_wanted w role then Some True else match_any_role matcher (Some w) roles)"
    by (cases "role_wanted w role") (auto simp: role_wanted_def rules_law)
  with Cons.IH show ?case by simp
qed simp

lemma bound_result:
  assumes "klist (k_RoleBindings k) (in_namespace (sa_Namespace rules)) s = Some (Inr bs, s1)"
    and "klist (k_Roles k) (in_namespace (sa_Namespace rules)) s1 = Some (Inr roles, s2)"
    and "sa_Role rules = Some w"
  shows "\<exists>err t. ValidateServiceAccountIsBound k matcher rules s = Some (err, t) \<and> silent s t \<and> t \<in> {s1, s2} \<and>
    (err = None \<longleftrightarrow> role_bound bs roles w (sa_ServiceAccountName rules) (sa_Namespace rules)) \<and>
    (\<forall>e. err = Some e \<longrightarrow> AsRbacError e)"
proof -
  let ?acc = "sa_ServiceAccountName rules" and ?ns = "sa_Namespace rules"
  let ?mb = "mt_RoleBindingsSubjects matcher bs ?acc ?ns"
  let ?mr = "mt_Roles matcher roles (map rb_RoleRefName ?mb)"
  have mb: "set ?mb = {rb \<in> set bs. binds rb ?acc ?ns}" by (rule bindings_law)
  have mr: "set ?mr = {role \<in> set roles. \<exists>rb \<in> set bs. binds rb ?acc ?ns \<and> m_Name (r_Meta role) = rb_RoleRefName rb}"
    using mb by (auto simp: roles_law)
  have q: "silent s s1" "silent s s2"
    using klist_silent [OF assms(1)] klist_silent [OF assms(2)] by simp_all
  have iff: "role_bound bs roles w ?acc ?ns \<longleftrightarrow> (\<exists>role \<in> set ?mr. role_wanted w role)"
    unfolding role_bound_def mr by blast
  consider "set ?mb = {}" | "set ?mb \<noteq> {}" "set ?mr = {}" | "set ?mb \<noteq> {}" "set ?mr \<noteq> {}" by blast
  then show ?thesis
  proof cases
    case 1
    then have "{rb \<in> set bs. binds rb ?acc ?ns} = {}" unfolding mb .
    then have "\<not> (\<exists>role \<in> set ?mr. role_wanted w role)" unfolding mr by blast
    with 1 iff q assms show ?thesis
      by (simp add: ValidateServiceAccountIsBound_def rbac_message_def)
  next
    case 2
    then have "\<not> (\<exists>role \<in> set ?mr. role_wanted w role)" by simp
    with 2 iff q assms show ?thesis
      by (simp add: ValidateServiceAccountIsBound_def rbac_message_def)
  next
    case 3
    with iff q assms show ?thesis
      by (cases "\<exists>role \<in> set ?mr. role_wanted w role")
        (simp_all add: ValidateServiceAccountIsBound_def rbac_message_def match_any_role_iff)
  qed
qed

end

interpretation go_matcher: role_matcher NewMatcher
  by unfold_locales
    (auto simp: NewMatcher_def MatchPolicyRules_def MatchPolicyRules_loop_iff list_all_iff
      MatchRoleBindingsSubjects_def MatchRoleBindingSubjects_def match_subjects_iff binds_def
      MatchRoles_def)

section \<open>The security verifiers (\<open>pkg/feature/security_verifier\<close>)\<close>

record 'w SecurityVerifier =
  sv_Verify :: "Deployment \<Rightarrow> string \<Rightarrow> 'w sys \<Rightarrow> (goerr option \<times> 'w sys) option"
  sv_HandleError :: "Deployment \<Rightarrow> string \<Rightarrow> goerr \<Rightarrow> 'w sys \<Rightarrow> (goerr option \<times> 'w sys) option"

definition NewVerifierError :: "string \<Rightarrow> goerr" where
  [simp]: "NewVerifierError message = VerifierError message"

definition verifierNode :: string where "verifierNode = ''Node''"
definition verifierScheduler :: string where "verifierScheduler = ''Scheduler''"

definition bound_rules :: "Deployment \<Rightarrow> string \<Rightarrow> PolicyRule list \<Rightarrow> RBACRules" where
  "bound_rules csi serviceAccount rules =
     \<lparr>rr_Data = RoleBoundData \<lparr>
        sa_Role = Some \<lparr>r_Meta = object_meta [] [] None, r_Rules = rules\<rparr>,
        sa_ServiceAccountName = serviceAccount,
        sa_Namespace = dep_Namespace csi\<rparr>,
      rr_Type = ServiceAccountIsRoleBound\<rparr>"

definition pspVerify ::
  "'w cluster \<Rightarrow> Matcher \<Rightarrow> PolicyRule \<Rightarrow> Deployment \<Rightarrow> string \<Rightarrow> 'w sys \<Rightarrow>
   (goerr option \<times> 'w sys) option" where
  "pspVerify k matcher matchPolicyTemplate csi component s =
     (if component = verifierNode then do {
        driver \<leftarrow> sp_Driver (dep_Spec csi);
        nd \<leftarrow> drv_Node driver;
        psp \<leftarrow> nd_PodSecurityPolicy nd;
        let policyRule = matchPolicyTemplate\<lparr>rule_ResourceNames := [psp_ResourceName psp]\<rparr>;
        ValidateRBAC k matcher (bound_rules csi (nd_ServiceAccount nd) [policyRule]) s
      } else if component = verifierScheduler then do {
        sch \<leftarrow> sp_Scheduler (dep_Spec csi);
        psp \<leftarrow> sch_PodSecurityPolicy sch;
        let policyRule = matchPolicyTemplate\<lparr>rule_ResourceNames := [psp_ResourceName psp]\<rparr>;
        ValidateRBAC k matcher (bound_rules csi (sch_ServiceAccount sch) [policyRule]) s
      } else Some (Some (ErrorText ''unknown component was passed''), s))"

definition pspHandleError ::
  "'w cluster \<Rightarrow> Deployment \<Rightarrow> string \<Rightarrow> goerr \<Rightarrow> 'w sys \<Rightarrow> (goerr option \<times> 'w sys) option" where
  "pspHandleError k csi serviceAccount err s =
     (if AsRbacError err then do {
        (_, s) \<leftarrow> eventf k csi ''PodSecurityPolicyVerificationFailed'' serviceAccount s;
        Some (Some (NewVerifierError
          ''Service account has insufficient pod security policies, should have privileged''), s)
      } else Some (Some err, s))"

definition sccVerify ::
  "'w cluster \<Rightarrow> Matcher \<Rightarrow> PolicyRule list \<Rightarrow> Deployment \<Rightarrow> string \<Rightarrow> 'w sys \<Rightarrow>
   (goerr option \<times> 'w sys) option" where
  "sccVerify k matcher matchPolicies csi component s =
     (if component = verifierNode then do {
        driver \<leftarrow> sp_Driver (dep_Spec csi);
        nd \<leftarrow> drv_Node driver;
        ValidateRBAC k matcher (bound_rules csi (nd_ServiceAccount nd) matchPolicies) s
      } else if component = verifierScheduler then do {
        sch \<leftarrow> sp_Scheduler (dep_Spec csi);
        ValidateRBAC k matcher (bound_rules csi (sch_ServiceAccount sch) matchPolicies) s
      } else Some (Some (ErrorText ''unknown component was passed''), s))"

definition sccHandleError ::
  "'w cluster \<Rightarrow> Deployment \<Rightarrow> string \<Rightarrow> goerr \<Rightarrow> 'w sys \<Rightarrow> (goerr option \<times> 'w sys) option" where
  "sccHandleError k csi serviceAccount err s =
     (if AsRbacError err then do {
        (_, s) \<leftarrow> eventf k csi ''SecurityContextConstraintsVerificationFailed'' serviceAccount s;
        Some (Some (NewVerifierError
          ''Service account has insufficient securityContextConstraints, should have privileged''), s)
      } else Some (Some err, s))"

definition NewPodSecurityPolicyVerifier :: "'w cluster \<Rightarrow> Matcher \<Rightarrow> PolicyRule \<Rightarrow> 'w SecurityVerifier" where
  "NewPodSecurityPolicyVerifier k matcher matchPolicyTemplate =
     \<lparr>sv_Verify = pspVerify k matcher matchPolicyTemplate, sv_HandleError = pspHandleError k\<rparr>"

definition NewSecurityContextConstraintsVerifier ::
  "'w cluster \<Rightarrow> Matcher \<Rightarrow> PolicyRule list \<Rightarrow> 'w SecurityVerifier" where
  "NewSecurityContextConstraintsVerifier k matcher matchPolicies =
     \<lparr>sv_Verify = sccVerify k matcher matchPolicies, sv_HandleError = sccHandleError k\<rparr>"

text \<open>
  The block both \<open>Update\<close> methods repeat for each verifier: verify, hand the error over, and
  return early, with \<open>nil\<close> when the error is one of the verifier. The result is \<open>None\<close> to go
  on, or \<open>Some err\<close> to return \<open>err\<close>.
\<close>

definition security_gate ::
  "'w SecurityVerifier \<Rightarrow> Deployment \<Rightarrow> string \<Rightarrow> string \<Rightarrow> 'w sys \<Rightarrow>
   (goerr option option \<times> 'w sys) option" where
  "security_gate v csi component serviceAccount s = do {
     (err, s) \<leftarrow> sv_Verify v csi component s;
     case err of
       None \<Rightarrow> Some (None, s)
     | Some err \<Rightarrow> do {
         (err, s) \<leftarrow> sv_HandleError v csi serviceAccount err s;
         case err of
           Some e \<Rightarrow> if AsVerifierError e then Some (Some None, s) else Some (Some (Some e), s)
         | None \<Rightarrow> Some (Some None, s)
       }
   }"

text \<open>The two methods of a verifier, and what the components rely on: verification only reads,
  an insufficiency is reported as one event and turned into an error of the verifier, any
  other error is passed on.\<close>

locale security_verifier =
  fixes v :: "'w SecurityVerifier" and reason :: string
  assumes verify_reads: "sv_Verify v csi cmpt s = Some (err, t) \<Longrightarrow> silent s t"
    and handle_insufficient: "AsRbacError e \<Longrightarrow>
      \<exists>m t. sv_HandleError v csi account e s = Some (Some (VerifierError m), t)
          \<and> trace t = trace s @ [Emitted reason account]"
    and handle_other: "\<not> AsRbacError e \<Longrightarrow> sv_HandleError v csi account e s = Some (Some e, s)"
begin

text \<open>The three outcomes of the gate.\<close>

lemma gate_cases:
  assumes "security_gate v csi cmpt account s = Some (early, t)"
  obtains (passed) "sv_Verify v csi cmpt s = Some (None, t)" "early = None" "silent s t"
  | (insufficient) e s1 where "sv_Verify v csi cmpt s = Some (Some e, s1)" "AsRbacError e"
      "early = Some None" "trace t = trace s @ [Emitted reason account]"
  | (failed) e where "sv_Verify v csi cmpt s = Some (Some e, t)" "\<not> AsRbacError e"
      "early = Some (Some e)" "silent s t"
proof -
  from assms obtain err s1 where v: "sv_Verify v csi cmpt s = Some (err, s1)"
    by (auto simp: security_gate_def split: Option.bind_splits)
  note q = verify_reads [OF v]
  show ?thesis
  proof (cases err)
    case None
    with assms v q passed show ?thesis by (auto simp: security_gate_def)
  next
    case (Some e)
    show ?thesis
    proof (cases "AsRbacError e")
      case True
      from handle_insufficient [OF True, of csi account s1] obtain m t' where
        "sv_HandleError v csi account e s1 = Some (Some (VerifierError m), t')"
        "trace t' = trace s1 @ [Emitted reason account]" by blast
      with assms v q Some True insufficient [of e s1] show ?thesis by (auto simp: security_gate_def)
    next
      case False
      then have "\<not> AsVerifierError e" by (cases e) auto
      with assms v q Some False handle_other [OF False] failed show ?thesis
        by (auto simp: security_gate_def)
    qed
  qed
qed

lemma gate_emits:
  "security_gate v csi cmpt account s = Some (early, t) \<Longrightarrow>
   emits (\<lambda>e. e = Emitted reason account) s t"
  by (erule gate_cases) (simp_all add: emits_def)

end

lemma ValidateServiceAccountIsBound_silent [quiet]:
  assumes "ValidateServiceAccountIsBound k m rules s = Some (err, t)"
  shows "silent s t"
proof -
  obtain r s1 where l: "klist (k_RoleBindings k) (in_namespace (sa_Namespace rules)) s = Some (r, s1)"
    using calls_return_ex(2) by blast
  obtain r' s2 where l': "klist (k_Roles k) (in_namespace (sa_Namespace rules)) s1 = Some (r', s2)"
    using calls_return_ex(2) by blast
  from assms l l' klist_silent [OF l] klist_silent [OF l'] show ?thesis
    by (auto simp: ValidateServiceAccountIsBound_def Let_def split: sum.splits if_splits Option.bind_splits)
qed

lemma ValidateRBAC_silent [quiet]: "ValidateRBAC k m rules s = Some (err, t) \<Longrightarrow> silent s t"
  by (auto simp: ValidateRBAC_def split: if_splits rbac_data.splits dest: ValidateServiceAccountIsBound_silent)

lemma Verify_silent [quiet]:
  "pspVerify k m rule csi cmpt s = Some (err, t) \<Longrightarrow> silent s t"
  "sccVerify k m rules csi cmpt s = Some (err, t) \<Longrightarrow> silent s t"
  by (auto simp: pspVerify_def sccVerify_def Let_def split: if_splits Option.bind_splits
      dest: ValidateRBAC_silent)

interpretation psp: security_verifier "NewPodSecurityPolicyVerifier k m rule" "''PodSecurityPolicyVerificationFailed''"
  by unfold_locales
    (auto simp: NewPodSecurityPolicyVerifier_def pspHandleError_def eventf_def log_event_def
      dest: Verify_silent)

interpretation scc: security_verifier "NewSecurityContextConstraintsVerifier k m rules"
    "''SecurityContextConstraintsVerificationFailed''"
  by unfold_locales
    (auto simp: NewSecurityContextConstraintsVerifier_def sccHandleError_def eventf_def log_event_def
      dest: Verify_silent)

section \<open>The gate on an API that reads\<close>

text \<open>\<open>granted\<close>: the account of the component has a role that grants the policies.\<close>

definition granted :: "RoleBinding list \<Rightarrow> Role list \<Rightarrow> string \<Rightarrow> string \<Rightarrow> PolicyRule list \<Rightarrow> bool" where
  "granted bs roles account ns rules =
     role_bound bs roles \<lparr>r_Meta = object_meta [] [] None, r_Rules = rules\<rparr> account ns"

text \<open>\<open>rbac_view\<close>: the API answers the two list requests for this namespace with these objects.\<close>

definition rbac_view :: "'w cluster \<Rightarrow> string \<Rightarrow> RoleBinding list \<Rightarrow> Role list \<Rightarrow> bool" where
  "rbac_view k ns bs roles \<longleftrightarrow>
     (\<forall>s. klist (k_RoleBindings k) (in_namespace ns) s = Some (Inr bs, s)) \<and>
     (\<forall>s. klist (k_Roles k) (in_namespace ns) s = Some (Inr roles, s))"

lemma ValidateRBAC_view:
  assumes "rbac_view k (dep_Namespace csi) bs roles"
  shows "\<exists>err. ValidateRBAC k NewMatcher (bound_rules csi account rules) s = Some (err, s)
    \<and> (err = None \<longleftrightarrow> granted bs roles account (dep_Namespace csi) rules)
    \<and> (\<forall>e. err = Some e \<longrightarrow> AsRbacError e)"
proof -
  let ?d = "\<lparr>sa_Role = Some \<lparr>r_Meta = object_meta [] [] None, r_Rules = rules\<rparr>,
     sa_ServiceAccountName = account, sa_Namespace = dep_Namespace csi\<rparr>"
  have "klist (k_RoleBindings k) (in_namespace (sa_Namespace ?d)) s = Some (Inr bs, s)"
    "klist (k_Roles k) (in_namespace (sa_Namespace ?d)) s = Some (Inr roles, s)"
    using assms by (simp_all add: rbac_view_def)
  from go_matcher.bound_result [OF this, of "\<lparr>r_Meta = object_meta [] [] None, r_Rules = rules\<rparr>"]
  have "\<exists>err. ValidateServiceAccountIsBound k NewMatcher ?d s = Some (err, s)
    \<and> (err = None \<longleftrightarrow> granted bs roles account (dep_Namespace csi) rules)
    \<and> (\<forall>e. err = Some e \<longrightarrow> AsRbacError e)"
    by (auto simp: granted_def)
  then show ?thesis
    by (simp add: ValidateRBAC_def bound_rules_def)
qed

text \<open>What the gate does then: pass, or one warning event and an early return of \<open>nil\<close>.\<close>

definition gate_outcome ::
  "'w cluster \<Rightarrow> Deployment \<Rightarrow> string \<Rightarrow> string \<Rightarrow> bool \<Rightarrow> 'w sys \<Rightarrow> (goerr option option \<times> 'w sys) option" where
  "gate_outcome k csi reason account ok s =
     (if ok then Some (None, s)
      else do { (_, s) \<leftarrow> eventf k csi reason account s; Some (Some None, s) })"

definition sccReason :: string where "sccReason = ''SecurityContextConstraintsVerificationFailed''"
definition pspReason :: string where "pspReason = ''PodSecurityPolicyVerificationFailed''"

lemma scc_gate:
  assumes "rbac_view k (dep_Namespace csi) bs roles"
    and "sv_Verify (NewSecurityContextConstraintsVerifier k NewMatcher pols) csi cmpt s =
      ValidateRBAC k NewMatcher (bound_rules csi account pols) s"
  shows "security_gate (NewSecurityContextConstraintsVerifier k NewMatcher pols) csi cmpt account s =
    gate_outcome k csi sccReason account (granted bs roles account (dep_Namespace csi) pols) s"
  using ValidateRBAC_view [OF assms(1), of account pols s] assms(2)
  by (auto simp: security_gate_def gate_outcome_def sccHandleError_def sccReason_def eventf_def
      NewSecurityContextConstraintsVerifier_def)

lemma psp_gate:
  assumes "rbac_view k (dep_Namespace csi) bs roles"
    and "sv_Verify (NewPodSecurityPolicyVerifier k NewMatcher tmpl) csi cmpt s =
      ValidateRBAC k NewMatcher (bound_rules csi account rules) s"
  shows "security_gate (NewPodSecurityPolicyVerifier k NewMatcher tmpl) csi cmpt account s =
    gate_outcome k csi pspReason account (granted bs roles account (dep_Namespace csi) rules) s"
  using ValidateRBAC_view [OF assms(1), of account rules s] assms(2)
  by (auto simp: security_gate_def gate_outcome_def pspHandleError_def pspReason_def eventf_def
      NewPodSecurityPolicyVerifier_def)

text \<open>The checks a component has to pass, in the order in which they are made, and the first
  one that fails.\<close>

definition required_checks ::
  "Deployment \<Rightarrow> PolicyRule list \<Rightarrow> PolicyRule \<Rightarrow> PodSecurityPolicy option \<Rightarrow>
   (string \<times> PolicyRule list) list" where
  "required_checks csi pols tmpl policy =
     (if sp_Platform (dep_Spec csi) = PlatformOpenShift \<and> dep_Namespace csi \<noteq> DefaultNamespace
      then [(sccReason, pols)] else []) @
     (case policy of
        Some p \<Rightarrow> if psp_Enable p
          then [(pspReason, [tmpl\<lparr>rule_ResourceNames := [psp_ResourceName p]\<rparr>])] else []
      | None \<Rightarrow> [])"

definition first_failing ::
  "RoleBinding list \<Rightarrow> Role list \<Rightarrow> string \<Rightarrow> string \<Rightarrow> (string \<times> PolicyRule list) list \<Rightarrow> string option" where
  "first_failing bs roles account ns checks =
     map_option fst (find (\<lambda>(reason, rules). \<not> granted bs roles account ns rules) checks)"

section \<open>The validator is sound and complete\<close>

text \<open>C19. Soundness and completeness of the service account check, for the answers the API gave
  to the two list requests: no error is returned exactly if a listed binding of this
  namespace names the account and refers to a listed role that grants the requested
  policies; otherwise the error is one of the validator, and nothing is ever written.\<close>

theorem ValidateServiceAccountIsBound_spec:
  assumes "klist (k_RoleBindings k) (in_namespace (sa_Namespace rules)) s = Some (Inr bs, s1)"
    and "klist (k_Roles k) (in_namespace (sa_Namespace rules)) s1 = Some (Inr roles, s2)"
    and "sa_Role rules = Some w"
  shows "\<exists>err t. ValidateServiceAccountIsBound k NewMatcher rules s = Some (err, t) \<and> silent s t \<and>
    (err = None \<longleftrightarrow> role_bound bs roles w (sa_ServiceAccountName rules) (sa_Namespace rules)) \<and>
    (\<forall>e. err = Some e \<longrightarrow> AsRbacError e)"
  using go_matcher.bound_result [OF assms] by blast

definition example_rule :: PolicyRule where
  "example_rule = \<lparr>rule_Verbs = [''use''], rule_APIGroups = [''policy''],
     rule_Resources = [''podsecuritypolicies''], rule_ResourceNames = [''privileged'']\<rparr>"

theorem MatchPolicyRules_spec_witness:
  "MatchPolicyRules [example_rule] [example_rule, example_rule\<lparr>rule_Verbs := []\<rparr>]
   \<and> \<not> MatchPolicyRules [example_rule\<lparr>rule_Verbs := []\<rparr>] [example_rule]"
  by (simp add: MatchPolicyRules_spec rule_covers_def example_rule_def)

definition example_role :: Role where
  "example_role = \<lparr>r_Meta = object_meta ''ns'' ''r'' None, r_Rules = [example_rule]\<rparr>"

definition example_binding :: RoleBinding where
  "example_binding = \<lparr>rb_Meta = object_meta ''ns'' ''b'' None,
     rb_Subjects = [\<lparr>sub_Kind = ''ServiceAccount'', sub_Name = ''sa'', sub_Namespace = ''ns''\<rparr>],
     rb_RoleRefKind = ''Role'', rb_RoleRefName = ''r''\<rparr>"

definition rbac_cluster :: "unit cluster" where
  "rbac_cluster = quiet_cluster\<lparr>k_Roles := canned [example_role],
     k_RoleBindings := canned [example_binding]\<rparr>"

definition example_data :: ServiceAccountIsRoleBoundData where
  "example_data = \<lparr>sa_Role = Some \<lparr>r_Meta = object_meta [] [] None, r_Rules = [example_rule]\<rparr>,
     sa_ServiceAccountName = ''sa'', sa_Namespace = ''ns''\<rparr>"

theorem ValidateServiceAccountIsBound_spec_witness:
  "\<exists>t. ValidateServiceAccountIsBound rbac_cluster NewMatcher example_data (start ()) = Some (None, t)
     \<and> trace t = []"
proof -
  let ?w = "\<lparr>r_Meta = object_meta [] [] None, r_Rules = [example_rule]\<rparr>"
  have l: "klist (k_RoleBindings rbac_cluster) (in_namespace (sa_Namespace example_data)) (start ())
      = Some (Inr [example_binding], start ())"
    "klist (k_Roles rbac_cluster) (in_namespace (sa_Namespace example_data)) (start ())
      = Some (Inr [example_role], start ())"
    "sa_Role example_data = Some ?w"
    by (simp_all add: rbac_cluster_def example_data_def)
  have "role_bound [example_binding] [example_role] ?w ''sa'' ''ns''"
    by (simp add: role_bound_def role_wanted_def binds_def rule_covers_def example_binding_def
        example_role_def)
  with ValidateServiceAccountIsBound_spec [OF l] show ?thesis
    by (auto simp: example_data_def)
qed

end
