(* ===== verification/Update.thy ===== *)
theory Update
  imports Common ExampleCluster
begin

text \<open>
  \<open>pkg/common/update.go\<close>: read the object; create it when it is not found, update it when
  it differs from what is expected, leave it alone otherwise. The three procedures share
  this contract, stated as the locale \<open>upsert\<close> and proved once.
\<close>

section \<open>The procedures\<close>

definition UpdateConfigMap ::
  "'w cluster \<Rightarrow> ConfigMap \<Rightarrow> 'w sys \<Rightarrow> (goerr option \<times> 'w sys) option" where
  "UpdateConfigMap k expected s = do {
     (r, s) \<leftarrow> kget (k_ConfigMaps k) (m_Namespace (cm_Meta expected)) (m_Name (cm_Meta expected)) s;
     case r of
       Inl err \<Rightarrow>
         if \<not> IsNotFound (Some err) then Some (Some err, s)
         else do {
           (c, s) \<leftarrow> kcreate (k_ConfigMaps k) O_ConfigMap expected s;
           Some (err_of c, s)
         }
     | Inr found \<Rightarrow>
         if cm_Data found \<noteq> cm_Data expected then do {
           let found = found\<lparr>cm_Data := cm_Data expected\<rparr>;
           (u, s) \<leftarrow> kupdate (k_ConfigMaps k) O_ConfigMap found s;
           Some (err_of u, s)
         } else Some (None, s)
   }"

definition daemonsetChanged :: "'w cluster \<Rightarrow> DaemonSet \<Rightarrow> DaemonSet \<Rightarrow> bool" where
  "daemonsetChanged k expected found =
     (if \<not> lib_EqualSelector k (dss_Selector (ds_Spec expected)) (dss_Selector (ds_Spec found))
      then True
      else if \<not> lib_EqualTemplate k (dss_Template (ds_Spec expected)) (dss_Template (ds_Spec found))
      then True
      else False)"

definition UpdateDaemonSet ::
  "'w cluster \<Rightarrow> DaemonSet \<Rightarrow> 'w sys \<Rightarrow> (goerr option \<times> 'w sys) option" where
  "UpdateDaemonSet k expected s = do {
     (r, s) \<leftarrow> kget (k_DaemonSets k) (m_Namespace (ds_Meta expected)) (m_Name (ds_Meta expected)) s;
     case r of
       Inl err \<Rightarrow>
         if IsNotFound (Some err) then do {
           (c, s) \<leftarrow> kcreate (k_DaemonSets k) O_DaemonSet expected s;
           Some (err_of c, s)
         } else Some (Some err, s)
     | Inr found \<Rightarrow>
         if daemonsetChanged k expected found then do {
           let found = found\<lparr>ds_Spec := ds_Spec expected\<rparr>;
           (u, s) \<leftarrow> kupdate (k_DaemonSets k) O_DaemonSet found s;
           Some (err_of u, s)
         } else Some (None, s)
   }"

definition deploymentChanged :: "'w cluster \<Rightarrow> AppsDeployment \<Rightarrow> AppsDeployment \<Rightarrow> bool" where
  "deploymentChanged k expected found =
     (if \<not> lib_EqualReplicas k (ads_Replicas (ad_Spec expected)) (ads_Replicas (ad_Spec found))
      then True
      else if \<not> lib_EqualSelector k (ads_Selector (ad_Spec expected)) (ads_Selector (ad_Spec found))
      then True
      else if \<not> lib_EqualTemplate k (ads_Template (ad_Spec expected)) (ads_Template (ad_Spec found))
      then True
      else False)"

definition UpdateDeployment ::
  "'w cluster \<Rightarrow> AppsDeployment \<Rightarrow> 'w sys \<Rightarrow> (goerr option \<times> 'w sys) option" where
  "UpdateDeployment k expected s = do {
     (r, s) \<leftarrow> kget (k_Deployments k) (m_Namespace (ad_Meta expected)) (m_Name (ad_Meta expected)) s;
     case r of
       Inl err \<Rightarrow>
         if IsNotFound (Some err) then do {
           (c, s) \<leftarrow> kcreate (k_Deployments k) O_AppsDeployment expected s;
           Some (err_of c, s)
         } else Some (Some err, s)
     | Inr found \<Rightarrow>
         if deploymentChanged k expected found then do {
           let found = found\<lparr>ad_Spec := ad_Spec expected\<rparr>;
           (u, s) \<leftarrow> kupdate (k_Deployments k) O_AppsDeployment found s;
           Some (err_of u, s)
         } else Some (None, s)
   }"

section \<open>Their common contract\<close>

text \<open>
  \<open>truthful c look chg\<close>: what the code relies on from an API client, over a view
  \<open>look w namespace name\<close> of the objects stored in world \<open>w\<close>. A read changes nothing and
  answers from the store (it may fail, but it says "not found" only when nothing is stored);
  a create or update that reports success has stored an object under the same key which the
  comparison \<open>chg\<close> does not tell from the one sent. Calls that report an error are not
  restricted.
\<close>

definition truthful ::
  "('o, 'w) kclient \<Rightarrow> ('o \<Rightarrow> ObjectMeta) \<Rightarrow> ('w \<Rightarrow> string \<Rightarrow> string \<Rightarrow> 'o option) \<Rightarrow>
   ('o \<Rightarrow> 'o \<Rightarrow> bool) \<Rightarrow> bool" where
  "truthful c meta look chg \<longleftrightarrow>
     (\<forall>ns n w r w'. kc_get c ns n w = (r, w') \<longrightarrow>
        look w' = look w \<and>
        (case r of Inr x \<Rightarrow> look w ns n = Some x \<and> m_Namespace (meta x) = ns \<and> m_Name (meta x) = n
                 | Inl e \<Rightarrow> fst e \<longrightarrow> look w ns n = None)) \<and>
     (\<forall>x w y w'. kc_create c x w = (Inr y, w') \<or> kc_update c x w = (Inr y, w') \<longrightarrow>
        (\<exists>z. look w' (m_Namespace (meta x)) (m_Name (meta x)) = Some z \<and> \<not> chg x z))"

lemma truthful_get:
  assumes "truthful c meta look chg" and "kget c ns n s = Some (r, t)"
  shows "look (world t) = look (world s)"
    and "r = Inr x \<Longrightarrow> look (world s) ns n = Some x \<and> m_Namespace (meta x) = ns \<and> m_Name (meta x) = n"
    and "r = Inl e \<Longrightarrow> IsNotFound (Some e) \<Longrightarrow> look (world s) ns n = None"
proof -
  obtain r0 w0 where g: "kc_get c ns n (world s) = (r0, w0)" by fastforce
  with assms(2) have r: "r = api_res r0" and t: "world t = w0"
    by (auto simp: kget_def in_world_def)
  from assms(1) g have law: "look w0 = look (world s) \<and>
      (case r0 of Inr x \<Rightarrow> look (world s) ns n = Some x \<and> m_Namespace (meta x) = ns \<and> m_Name (meta x) = n
                | Inl e \<Rightarrow> fst e \<longrightarrow> look (world s) ns n = None)"
    unfolding truthful_def by blast
  from law t show "look (world t) = look (world s)" by simp
  from law r show "r = Inr x \<Longrightarrow>
      look (world s) ns n = Some x \<and> m_Namespace (meta x) = ns \<and> m_Name (meta x) = n"
    by (cases r0) auto
  from law r show "r = Inl e \<Longrightarrow> IsNotFound (Some e) \<Longrightarrow> look (world s) ns n = None"
    by (cases r0) (auto simp: api_err_def)
qed

lemma truthful_stored:
  assumes "truthful c meta look chg"
    and "kcreate c mk x s = Some (r, t) \<or> kupdate c mk x s = Some (r, t)" and "err_of r = None"
  shows "\<exists>z. look (world t) (m_Namespace (meta x)) (m_Name (meta x)) = Some z \<and> \<not> chg x z"
proof -
  from assms(2) have "\<exists>y. kc_create c x (world s) = (Inr y, world t) \<or> kc_update c x (world s) = (Inr y, world t)"
  proof
    assume "kcreate c mk x s = Some (r, t)"
    with assms(3) show ?thesis
      by (auto simp: kcreate_def in_world_def log_event_def api_res_def split: prod.splits sum.splits)
  next
    assume "kupdate c mk x s = Some (r, t)"
    with assms(3) show ?thesis
      by (auto simp: kupdate_def in_world_def log_event_def api_res_def split: prod.splits sum.splits)
  qed
  with assms(1) show ?thesis unfolding truthful_def by blast
qed

text \<open>A write or a deletion, whatever it is answered, changes what is stored under its own key only.\<close>

definition isolated ::
  "('o, 'w) kclient \<Rightarrow> ('o \<Rightarrow> ObjectMeta) \<Rightarrow> ('w \<Rightarrow> string \<Rightarrow> string \<Rightarrow> 'o option) \<Rightarrow> bool" where
  "isolated c meta look \<longleftrightarrow>
     (\<forall>x w r w' ns n. kc_create c x w = (r, w') \<or> kc_update c x w = (r, w') \<longrightarrow>
        (m_Namespace (meta x), m_Name (meta x)) \<noteq> (ns, n) \<longrightarrow> look w' ns n = look w ns n) \<and>
     (\<forall>ns' n' w r w' ns n. kc_delete c ns' n' w = (r, w') \<longrightarrow>
        (ns', n') \<noteq> (ns, n) \<longrightarrow> look w' ns n = look w ns n)"

lemma write_worlds:
  "kcreate c mk x s = Some (r, t) \<Longrightarrow> \<exists>r0. kc_create c x (world s) = (r0, world t)"
  "kupdate c mk x s = Some (r, t) \<Longrightarrow> \<exists>r0. kc_update c x (world s) = (r0, world t)"
  "kdelete c kd ns n s = Some (e, t) \<Longrightarrow> \<exists>r0. kc_delete c ns n (world s) = (r0, world t)"
  by (auto simp: kcreate_def kupdate_def kdelete_def in_world_def log_event_def split: prod.splits)

lemma isolated_calls:
  assumes "isolated c meta look"
  shows "kcreate c mk x s = Some (r, t) \<Longrightarrow> (m_Namespace (meta x), m_Name (meta x)) \<noteq> (ns, n) \<Longrightarrow>
      look (world t) ns n = look (world s) ns n"
    and "kupdate c mk x s = Some (r, t) \<Longrightarrow> (m_Namespace (meta x), m_Name (meta x)) \<noteq> (ns, n) \<Longrightarrow>
      look (world t) ns n = look (world s) ns n"
    and "kdelete c kd ns' n' s = Some (e, t) \<Longrightarrow> (ns', n') \<noteq> (ns, n) \<Longrightarrow>
      look (world t) ns n = look (world s) ns n"
proof -
  note law = assms [unfolded isolated_def]
  { assume "kcreate c mk x s = Some (r, t)" "(m_Namespace (meta x), m_Name (meta x)) \<noteq> (ns, n)"
    with law [THEN conjunct1] show "look (world t) ns n = look (world s) ns n"
      by (auto dest!: write_worlds(1)) }
  { assume "kupdate c mk x s = Some (r, t)" "(m_Namespace (meta x), m_Name (meta x)) \<noteq> (ns, n)"
    with law [THEN conjunct1] show "look (world t) ns n = look (world s) ns n"
      by (auto dest!: write_worlds(2)) }
  { assume "kdelete c kd ns' n' s = Some (e, t)" "(ns', n') \<noteq> (ns, n)"
    with law [THEN conjunct2] show "look (world t) ns n = look (world s) ns n"
      by (auto dest!: write_worlds(3)) }
qed

locale upsert =
  fixes upd :: "'w cluster \<Rightarrow> 'o \<Rightarrow> 'w sys \<Rightarrow> (goerr option \<times> 'w sys) option"
    and client :: "'w cluster \<Rightarrow> ('o, 'w) kclient"
    and mk :: "'o \<Rightarrow> obj"
    and meta :: "'o \<Rightarrow> ObjectMeta"
    and changed :: "'w cluster \<Rightarrow> 'o \<Rightarrow> 'o \<Rightarrow> bool"
    and merged :: "'o \<Rightarrow> 'o \<Rightarrow> 'o"
  assumes upd_eq: "upd k x s =
      (case kget (client k) (m_Namespace (meta x)) (m_Name (meta x)) s of
         None \<Rightarrow> None
       | Some (Inl e, t) \<Rightarrow>
           if IsNotFound (Some e)
           then map_option (\<lambda>(r, u). (err_of r, u)) (kcreate (client k) mk x t)
           else Some (Some e, t)
       | Some (Inr f, t) \<Rightarrow>
           if changed k x f
           then map_option (\<lambda>(r, u). (err_of r, u)) (kupdate (client k) mk (merged x f) t)
           else Some (None, t))"
    and merged_meta: "meta (merged x f) = meta f"
    and merged_changed: "changed k (merged x f) z \<longleftrightarrow> changed k x z"
begin

lemma returns [simp]: "upd k x s \<noteq> None"
  by (auto simp: upd_eq split: option.splits sum.splits if_splits)

text \<open>Every run is one of four: a read error, a create, an update, or nothing to do.\<close>

lemma run_cases:
  assumes "upd k x s = Some (err, t)"
  obtains (read_error) e s1 where
      "kget (client k) (m_Namespace (meta x)) (m_Name (meta x)) s = Some (Inl e, s1)"
      "\<not> IsNotFound (Some e)" "err = Some e" "t = s1"
  | (created) e s1 r where
      "kget (client k) (m_Namespace (meta x)) (m_Name (meta x)) s = Some (Inl e, s1)"
      "IsNotFound (Some e)" "kcreate (client k) mk x s1 = Some (r, t)" "err = err_of r"
  | (updated) f s1 r where
      "kget (client k) (m_Namespace (meta x)) (m_Name (meta x)) s = Some (Inr f, s1)"
      "changed k x f" "kupdate (client k) mk (merged x f) s1 = Some (r, t)" "err = err_of r"
  | (current) f where
      "kget (client k) (m_Namespace (meta x)) (m_Name (meta x)) s = Some (Inr f, t)"
      "\<not> changed k x f" "err = None"
  using assms
  by (auto simp: upd_eq split: option.splits sum.splits if_splits prod.splits)

text \<open>At most one write, of the expected object or of the stored one brought up to date.\<close>

lemma trace_cases:
  assumes "upd k x s = Some (err, t)"
  shows "trace t = trace s
       \<or> trace t = trace s @ [Created (mk x) err]
       \<or> (\<exists>f. trace t = trace s @ [Updated (mk (merged x f)) err] \<and> changed k x f)"
  using assms
proof (cases rule: run_cases)
  case (read_error e s1)
  then show ?thesis by (auto dest: kget_silent)
next
  case (created e s1 r)
  then show ?thesis by (auto dest!: kget_silent kcreate_trace)
next
  case (updated f s1 r)
  then have "trace t = trace s @ [Updated (mk (merged x f)) err]"
    by (auto dest!: kget_silent kupdate_trace)
  with updated(2) show ?thesis by blast
next
  case (current f)
  then show ?thesis by (auto dest: kget_silent)
qed

lemma errors_are_api:
  assumes "upd k x s = Some (Some e, t)"
  shows "is_api_error e"
  using assms
proof (cases rule: run_cases)
  case (created e s1 r)
  then show ?thesis by (cases r) (auto dest: kcalls_api_error(3))
next
  case (updated f s1 r)
  then show ?thesis by (cases r) (auto dest: kcalls_api_error(4))
qed (auto dest: kcalls_api_error(1))

text \<open>Success means the stored object is current.\<close>

lemma converges:
  assumes run: "upd k x s = Some (None, t)" and ok: "truthful (client k) meta look (changed k)"
  shows "\<exists>z. look (world t) (m_Namespace (meta x)) (m_Name (meta x)) = Some z \<and> \<not> changed k x z"
  using run
proof (cases rule: run_cases)
  case (created e s1 r)
  then show ?thesis using truthful_stored [OF ok] by metis
next
  case (updated f s1 r)
  have "m_Namespace (meta f) = m_Namespace (meta x)" "m_Name (meta f) = m_Name (meta x)"
    using truthful_get(2) [OF ok updated(1), of f] by simp_all
  moreover from updated(3,4)
  obtain z where "look (world t) (m_Namespace (meta (merged x f))) (m_Name (meta (merged x f))) = Some z"
    "\<not> changed k (merged x f) z"
    using truthful_stored [OF ok] by metis
  ultimately show ?thesis by (auto simp: merged_meta merged_changed)
next
  case (current f)
  then show ?thesis using truthful_get(1,2) [OF ok current(1)] by auto
qed simp

text \<open>On a current object nothing is written, whatever else the API does.\<close>

lemma current_no_write:
  assumes ok: "truthful (client k) meta look (changed k)"
    and cur: "look (world s) (m_Namespace (meta x)) (m_Name (meta x)) = Some z" "\<not> changed k x z"
    and run: "upd k x s = Some (err, t)"
  shows "silent s t \<and> look (world t) = look (world s)"
  using run
proof (cases rule: run_cases)
  case (read_error e s1)
  then show ?thesis using truthful_get(1) [OF ok read_error(1)] by (simp add: kget_silent)
next
  case (created e s1 r)
  then show ?thesis using truthful_get(3) [OF ok created(1)] cur by simp
next
  case (updated f s1 r)
  then show ?thesis using truthful_get(2) [OF ok updated(1), of f] cur by simp
next
  case (current f)
  then show ?thesis using truthful_get(1) [OF ok current(1)] by (simp add: kget_silent)
qed

text \<open>Objects under other keys stay as they are.\<close>

lemma keeps_other:
  assumes ok: "truthful (client k) meta look (changed k)" and iso: "isolated (client k) meta look"
    and run: "upd k x s = Some (err, t)" and other: "(m_Namespace (meta x), m_Name (meta x)) \<noteq> (ns, n)"
  shows "look (world t) ns n = look (world s) ns n"
  using run
proof (cases rule: run_cases)
  case (read_error e s1)
  then show ?thesis using truthful_get(1) [OF ok read_error(1)] by simp
next
  case (created e s1 r)
  then show ?thesis
    using truthful_get(1) [OF ok created(1)] isolated_calls(1) [OF iso created(3) other] by simp
next
  case (updated f s1 r)
  have "(m_Namespace (meta (merged x f)), m_Name (meta (merged x f))) \<noteq> (ns, n)"
    using truthful_get(2) [OF ok updated(1), of f] other by (simp add: merged_meta)
  then show ?thesis
    using truthful_get(1) [OF ok updated(1)] isolated_calls(2) [OF iso updated(3)] by simp
next
  case (current f)
  then show ?thesis using truthful_get(1) [OF ok current(1)] by simp
qed

lemma idempotent:
  assumes ok: "truthful (client k) meta look (changed k)"
    and "upd k x s = Some (None, t)" and "upd k x t = Some (err, u)"
  shows "silent t u"
  using converges [OF assms(2) ok] current_no_write [OF ok _ _ assms(3)] by blast

end

section \<open>The three procedures meet it\<close>

lemma case_bind_prod:
  "Option.bind m (\<lambda>(r, s). g r s) = (case m of None \<Rightarrow> None | Some (r, s) \<Rightarrow> g r s)"
  by (cases m) auto

interpretation cms: upsert UpdateConfigMap k_ConfigMaps O_ConfigMap cm_Meta
  "\<lambda>k x f. cm_Data f \<noteq> cm_Data x" "\<lambda>x f. f\<lparr>cm_Data := cm_Data x\<rparr>"
  by unfold_locales
    (auto simp: UpdateConfigMap_def Let_def split: option.splits sum.splits Option.bind_splits)

interpretation dss: upsert UpdateDaemonSet k_DaemonSets O_DaemonSet ds_Meta
  daemonsetChanged "\<lambda>x f. f\<lparr>ds_Spec := ds_Spec x\<rparr>"
  by unfold_locales
    (auto simp: UpdateDaemonSet_def daemonsetChanged_def Let_def
      split: option.splits sum.splits Option.bind_splits)

interpretation deps: upsert UpdateDeployment k_Deployments O_AppsDeployment ad_Meta
  deploymentChanged "\<lambda>x f. f\<lparr>ad_Spec := ad_Spec x\<rparr>"
  by unfold_locales
    (auto simp: UpdateDeployment_def deploymentChanged_def Let_def
      split: option.splits sum.splits Option.bind_splits)

section \<open>The contract on each of them\<close>

text \<open>Convergence of a configmap: against an API that stores what it accepts, a run of
  \<open>UpdateConfigMap\<close> that reports success leaves a configmap with the expected data under the
  expected key, whatever was there before, and a second run writes nothing.\<close>

theorem UpdateConfigMap_converges:
  assumes "truthful (k_ConfigMaps k) cm_Meta look (\<lambda>x f. cm_Data f \<noteq> cm_Data x)"
    and "UpdateConfigMap k expected s = Some (None, t)"
  shows "(\<exists>z. look (world t) (m_Namespace (cm_Meta expected)) (m_Name (cm_Meta expected)) = Some z
      \<and> cm_Data z = cm_Data expected)
    \<and> (\<exists>err u. UpdateConfigMap k expected t = Some (err, u) \<and> silent t u)"
proof -
  obtain err u where "UpdateConfigMap k expected t = Some (err, u)"
    using cms.returns [of k expected t] by (metis option.exhaust prod.exhaust)
  then show ?thesis
    using cms.converges [OF assms(2,1)] cms.idempotent [OF assms] by blast
qed

text \<open>A daemonset is touched only when needed: \<open>UpdateDaemonSet\<close> always returns; when the API
  does not find the daemonset it creates the expected one, when the one found differs it
  updates that one with the expected specification and all else kept, and the error of this
  single request is its result; when reading fails, or nothing differs, it writes nothing
  and returns the error of the reading, or none.\<close>

theorem UpdateDaemonSet_writes:
  "\<exists>r s1 err t. kget (k_DaemonSets k) (m_Namespace (ds_Meta expected)) (m_Name (ds_Meta expected)) s = Some (r, s1)
     \<and> UpdateDaemonSet k expected s = Some (err, t)
     \<and> (case r of
          Inl e \<Rightarrow>
            if IsNotFound (Some e) then new_events s t = [Created (O_DaemonSet expected) err]
            else new_events s t = [] \<and> err = Some e
        | Inr f \<Rightarrow>
            if daemonsetChanged k expected f
            then new_events s t = [Updated (O_DaemonSet (f\<lparr>ds_Spec := ds_Spec expected\<rparr>)) err]
            else new_events s t = [] \<and> err = None)"
proof -
  obtain r s1 where g: "kget (k_DaemonSets k) (m_Namespace (ds_Meta expected)) (m_Name (ds_Meta expected)) s
      = Some (r, s1)"
    using calls_return_ex(1) by blast
  obtain err t where run: "UpdateDaemonSet k expected s = Some (err, t)"
    using dss.returns [of k expected s] by (metis option.exhaust prod.exhaust)
  note q = kget_silent [OF g]
  show ?thesis
    using g run q
    by (intro exI [of _ r] exI [of _ s1] exI [of _ err] exI [of _ t])
      (auto simp: UpdateDaemonSet_def new_events_def split: Option.bind_splits sum.splits if_splits
        dest!: kcreate_trace kupdate_trace)
qed

text \<open>An API that stores every object under its key, for the witnesses.\<close>

definition stored ::
  "('o \<Rightarrow> ObjectMeta) \<Rightarrow> (string \<times> string \<Rightarrow> 'o option) \<Rightarrow> string \<Rightarrow> string \<Rightarrow> 'o option" where
  "stored meta w ns n =
     (case w (ns, n) of
        Some x \<Rightarrow> if m_Namespace (meta x) = ns \<and> m_Name (meta x) = n then Some x else None
      | None \<Rightarrow> None)"

definition put :: "('o \<Rightarrow> ObjectMeta) \<Rightarrow> 'o \<Rightarrow> (string \<times> string \<Rightarrow> 'o option) \<Rightarrow> string \<times> string \<Rightarrow> 'o option" where
  "put meta x w = w((m_Namespace (meta x), m_Name (meta x)) \<mapsto> x)"

definition store_client :: "('o \<Rightarrow> ObjectMeta) \<Rightarrow> ('o, string \<times> string \<Rightarrow> 'o option) kclient" where
  "store_client meta = \<lparr>
     kc_get = (\<lambda>ns n w. (case stored meta w ns n of
        Some x \<Rightarrow> Inr x | None \<Rightarrow> Inl (True, ''not found''), w)),
     kc_list = (\<lambda>opts w. (Inr [], w)),
     kc_create = (\<lambda>x w. (Inr x, put meta x w)),
     kc_update = (\<lambda>x w. (Inr x, put meta x w)),
     kc_delete = (\<lambda>ns n w. (None, w((ns, n) := None)))\<rparr>"

lemma truthful_store: "(\<And>x. \<not> chg x x) \<Longrightarrow> truthful (store_client meta) meta (stored meta) chg"
  by (auto simp: truthful_def store_client_def stored_def put_def split: option.splits if_splits)

lemma isolated_store: "isolated (store_client meta) meta (stored meta)"
  by (auto simp: isolated_def store_client_def stored_def put_def)

definition example_cm :: ConfigMap where
  "example_cm = \<lparr>cm_Meta = object_meta ''ns'' ''cm'' None, cm_Data = go_map [(''a'', ''b'')]\<rparr>"

definition cm_cluster :: "(string \<times> string \<Rightarrow> ConfigMap option) cluster" where
  "cm_cluster = quiet_cluster\<lparr>k_ConfigMaps := store_client cm_Meta\<rparr>"

theorem UpdateConfigMap_converges_witness:
  "\<exists>t z u err. UpdateConfigMap cm_cluster example_cm (start (\<lambda>_. None)) = Some (None, t)
     \<and> stored cm_Meta (world t) ''ns'' ''cm'' = Some z \<and> cm_Data z = go_map [(''a'', ''b'')]
     \<and> UpdateConfigMap cm_cluster example_cm t = Some (err, u) \<and> silent t u"
proof -
  have law: "truthful (k_ConfigMaps cm_cluster) cm_Meta (stored cm_Meta) (\<lambda>x f. cm_Data f \<noteq> cm_Data x)"
    by (simp add: cm_cluster_def truthful_store)
  obtain t where "UpdateConfigMap cm_cluster example_cm (start (\<lambda>_. None)) = Some (None, t)"
    by (simp add: UpdateConfigMap_def cm_cluster_def store_client_def kget_def kcreate_def in_world_def
        stored_def api_err_def)
  with UpdateConfigMap_converges [OF law this] show ?thesis by (auto simp: example_cm_def)
qed

end
