(* ===== verification/NodeComponent.thy ===== *)
theory NodeComponent
  imports NodeDaemonSet Rbac Update
begin

text \<open>
  \<open>pkg/node/node.go\<close>: the node component. \<open>Update\<close> checks the service account, labels every
  selected cluster node with its platform and deploys one daemonset per platform in use;
  \<open>Uninstall\<close> takes the labels away. \<open>ps\<close> and \<open>order\<close> are the orders in which the Go maps
  \<open>platforms\<close> and \<open>needToDeploy\<close> are iterated; \<open>idLabel\<close> is the constant
  \<open>NodeIDTopologyLabelKey\<close> of the CSI repository.
\<close>

section \<open>Labels\<close>

abbreviation n_Labels :: "CoreNode \<Rightarrow> gomap" where
  "n_Labels n \<equiv> m_Labels (n_Meta n)"

definition with_labels :: "CoreNode \<Rightarrow> gomap \<Rightarrow> CoreNode" where
  "with_labels n ls = n\<lparr>n_Meta := (n_Meta n)\<lparr>m_Labels := ls\<rparr>\<rparr>"

type_synonym Set = "(string, bool) fmap"

definition createPlatformsSet :: "'v semver \<Rightarrow> Set" where
  "createPlatformsSet sv = fmap_of_list (map (\<lambda>(key, _). (key, False)) (platforms sv))"

text \<open>The loop of \<open>updateNodeLabels\<close>; writing to the nil map of labels panics.\<close>

fun node_labels_loop ::
  "'w cluster \<Rightarrow> 'v semver \<Rightarrow> (string \<times> 'v PlatformDescription) list \<Rightarrow> CoreNode list \<Rightarrow>
   Set \<Rightarrow> goerr option \<Rightarrow> 'w sys \<Rightarrow> (Set \<times> goerr option \<times> 'w sys) option" where
  "node_labels_loop k sv ps [] needToDeploy resultErr s = Some (needToDeploy, resultErr, s)"
| "node_labels_loop k sv ps (nd # rest) needToDeploy resultErr s =
     (case GetNodeKernelVersion sv nd of
        Inl err \<Rightarrow> node_labels_loop k sv ps rest needToDeploy (Some err) s
      | Inr kernelVersion \<Rightarrow> do {
          let platformName = findPlatform ps kernelVersion;
          let needToDeploy = fmupd platformName True needToDeploy;
          platform \<leftarrow> map_of (platforms sv) platformName;
          if map_get (n_Labels nd) platformLabel = Some (pd_labeltag platform)
          then node_labels_loop k sv ps rest needToDeploy resultErr s
          else do {
            ls \<leftarrow> map_set (n_Labels nd) platformLabel (pd_labeltag platform);
            (u, s) \<leftarrow> kupdate (k_Nodes k) O_CoreNode (with_labels nd ls) s;
            let resultErr = (case err_of u of None \<Rightarrow> resultErr | Some err \<Rightarrow> Some err);
            node_labels_loop k sv ps rest needToDeploy resultErr s
          }
        })"

definition updateNodeLabels ::
  "'w cluster \<Rightarrow> 'v semver \<Rightarrow> (string \<times> 'v PlatformDescription) list \<Rightarrow> NodeSelector option \<Rightarrow>
   'w sys \<Rightarrow> (Set \<times> goerr option \<times> 'w sys) option" where
  "updateNodeLabels k sv ps selector s = do {
     let needToDeploy = createPlatformsSet sv;
     (r, s) \<leftarrow> GetSelectedNodes k selector s;
     case r of
       Inl err \<Rightarrow> Some (needToDeploy, Some err, s)
     | Inr nodes \<Rightarrow> node_labels_loop k sv ps nodes needToDeploy None s
   }"

fun clean_labels_loop ::
  "'w cluster \<Rightarrow> string \<Rightarrow> CoreNode list \<Rightarrow> 'w sys \<Rightarrow> ('w sys) option" where
  "clean_labels_loop k idLabel [] s = Some s"
| "clean_labels_loop k idLabel (nd # rest) s = do {
     let (nodeIns, toUpdate) = (nd, False);
     let (nodeIns, toUpdate) =
       (if map_get (n_Labels nodeIns) platformLabel \<noteq> None
        then (with_labels nodeIns (map_delete (n_Labels nodeIns) platformLabel), True)
        else (nodeIns, toUpdate));
     let (nodeIns, toUpdate) =
       (if map_get (n_Labels nodeIns) idLabel \<noteq> None
        then (with_labels nodeIns (map_delete (n_Labels nodeIns) idLabel), True)
        else (nodeIns, toUpdate));
     s \<leftarrow> (if toUpdate then do {
            (_, s) \<leftarrow> kupdate (k_Nodes k) O_CoreNode nodeIns s;
            Some s
          } else Some s);
     clean_labels_loop k idLabel rest s
   }"

definition cleanNodeLabels ::
  "'w cluster \<Rightarrow> string \<Rightarrow> 'w sys \<Rightarrow> (goerr option \<times> 'w sys) option" where
  "cleanNodeLabels k idLabel s = do {
     (r, s) \<leftarrow> klist (k_Nodes k) list_all_objects s;
     case r of
       Inl err \<Rightarrow> Some (Some err, s)
     | Inr nodes \<Rightarrow> do {
         s \<leftarrow> clean_labels_loop k idLabel nodes s;
         Some (None, s)
       }
   }"

definition node_Uninstall ::
  "'w cluster \<Rightarrow> string \<Rightarrow> 'w sys \<Rightarrow> (goerr option \<times> 'w sys) option" where
  "node_Uninstall k idLabel s = cleanNodeLabels k idLabel s"

section \<open>\<open>Update\<close>\<close>

text \<open>The loop over \<open>needToDeploy\<close>: an error of \<open>SetControllerReference\<close> is only logged.\<close>

fun deploy_loop ::
  "'w cluster \<Rightarrow> 'v semver \<Rightarrow> Deployment \<Rightarrow> Set \<Rightarrow> string list \<Rightarrow> goerr option \<Rightarrow> 'w sys \<Rightarrow>
   (goerr option \<times> 'w sys) option" where
  "deploy_loop k sv csi needToDeploy [] resultErr s = Some (resultErr, s)"
| "deploy_loop k sv csi needToDeploy (platformName # rest) resultErr s =
     (if fmlookup needToDeploy platformName = Some True then do {
        platform \<leftarrow> map_of (platforms sv) platformName;
        expected \<leftarrow> createNodeDaemonSet csi platform;
        case set_owner k csi (ds_Meta expected) of
          Inl err \<Rightarrow> deploy_loop k sv csi needToDeploy rest resultErr s
        | Inr m \<Rightarrow> do {
            (err, s) \<leftarrow> UpdateDaemonSet k (expected\<lparr>ds_Meta := m\<rparr>) s;
            let resultErr = (case err of None \<Rightarrow> resultErr | Some e \<Rightarrow> Some e);
            deploy_loop k sv csi needToDeploy rest resultErr s
          }
      } else deploy_loop k sv csi needToDeploy rest resultErr s)"

text \<open>The part of \<open>Update\<close> after the security checks.\<close>

definition node_deploy ::
  "'w cluster \<Rightarrow> 'v semver \<Rightarrow> (string \<times> 'v PlatformDescription) list \<Rightarrow> string list \<Rightarrow>
   Deployment \<Rightarrow> 'w sys \<Rightarrow> (goerr option \<times> 'w sys) option" where
  "node_deploy k sv ps order csi s = do {
     (needToDeploy, err, s) \<leftarrow> updateNodeLabels k sv ps (sp_NodeSelector (dep_Spec csi)) s;
     case err of
       Some err \<Rightarrow> Some (Some err, s)
     | None \<Rightarrow> deploy_loop k sv csi needToDeploy order None s
   }"

definition node_Update ::
  "'w cluster \<Rightarrow> 'w SecurityVerifier \<Rightarrow> 'w SecurityVerifier \<Rightarrow> 'v semver \<Rightarrow>
   (string \<times> 'v PlatformDescription) list \<Rightarrow> string list \<Rightarrow> Deployment \<Rightarrow> 'w sys \<Rightarrow>
   (goerr option \<times> 'w sys) option" where
  "node_Update k pspVerifier sccVerifier sv ps order csi s = do {
     (early, s) \<leftarrow>
       (if sp_Platform (dep_Spec csi) = PlatformOpenShift \<and> dep_Namespace csi \<noteq> DefaultNamespace
        then do {
          nd \<leftarrow> spec_node csi;
          security_gate sccVerifier csi verifierNode (nd_ServiceAccount nd) s
        } else Some (None, s));
     case early of
       Some err \<Rightarrow> Some (err, s)
     | None \<Rightarrow> do {
         nd \<leftarrow> spec_node csi;
         (early, s) \<leftarrow>
           (case nd_PodSecurityPolicy nd of
              Some p \<Rightarrow>
                if psp_Enable p
                then security_gate pspVerifier csi verifierNode (nd_ServiceAccount nd) s
                else Some (None, s)
            | None \<Rightarrow> Some (None, s));
         case early of
           Some err \<Rightarrow> Some (err, s)
         | None \<Rightarrow> node_deploy k sv ps order csi s
       }
   }"

section \<open>What the label loop does\<close>

text \<open>The platform a node is found to need, and the node with the label it should carry.\<close>

definition platform_of :: "'v semver \<Rightarrow> (string \<times> 'v PlatformDescription) list \<Rightarrow> CoreNode \<Rightarrow> string option" where
  "platform_of sv ps n =
     (case GetNodeKernelVersion sv n of Inl _ \<Rightarrow> None | Inr v \<Rightarrow> Some (findPlatform ps v))"

text \<open>The tag of a platform; every name \<open>findPlatform\<close> returns is its own label tag.\<close>

definition relabelled ::
  "'v semver \<Rightarrow> (string \<times> 'v PlatformDescription) list \<Rightarrow> CoreNode \<Rightarrow> CoreNode option" where
  "relabelled sv ps n =
     (case platform_of sv ps n of
        None \<Rightarrow> None
      | Some p \<Rightarrow>
          if map_get (n_Labels n) platformLabel = Some p then None
          else map_option (with_labels n) (map_set (n_Labels n) platformLabel p))"

definition node_updates :: "CoreNode list \<Rightarrow> goerr option list \<Rightarrow> event list" where
  "node_updates ns rs = map2 (\<lambda>n r. Updated (O_CoreNode n) r) ns rs"

lemma platform_tag:
  assumes "map_order (platforms sv) ps"
  shows "\<exists>pd. map_of (platforms sv) (findPlatform ps v) = Some pd \<and> pd_labeltag pd = findPlatform ps v"
  using findPlatform_cases [OF assms, of v] by (simp add: platforms_def defaultPlatform_def)

lemma node_updates_Cons: "node_updates (n # ns) (r # rs) = Updated (O_CoreNode n) r # node_updates ns rs"
  by (simp add: node_updates_def)

lemma node_labels_loop_spec:
  assumes order: "map_order (platforms sv) ps"
    and ok: "\<forall>n \<in> set nodes. n_Labels n \<noteq> None"
  shows "\<exists>need' err' t rs.
      node_labels_loop k sv ps nodes need err s = Some (need', err', t)
    \<and> length rs = length (List.map_filter (relabelled sv ps) nodes)
    \<and> trace t = trace s @ node_updates (List.map_filter (relabelled sv ps) nodes) rs
    \<and> (\<forall>p. fmlookup need' p = (if Some p \<in> platform_of sv ps ` set nodes then Some True else fmlookup need p))
    \<and> (err' = None \<longleftrightarrow> err = None \<and> None \<notin> platform_of sv ps ` set nodes \<and> list_all (\<lambda>r. r = None) rs)"
  using ok
proof (induction nodes arbitrary: need err s)
  case Nil
  then show ?case by (simp add: map_filter_simps node_updates_def)
next
  case (Cons n nodes)
  then have IH: "\<And>need err s. \<exists>need' err' t rs.
      node_labels_loop k sv ps nodes need err s = Some (need', err', t)
    \<and> length rs = length (List.map_filter (relabelled sv ps) nodes)
    \<and> trace t = trace s @ node_updates (List.map_filter (relabelled sv ps) nodes) rs
    \<and> (\<forall>p. fmlookup need' p = (if Some p \<in> platform_of sv ps ` set nodes then Some True else fmlookup need p))
    \<and> (err' = None \<longleftrightarrow> err = None \<and> None \<notin> platform_of sv ps ` set nodes \<and> list_all (\<lambda>r. r = None) rs)"
    by simp
  show ?case
  proof (cases "GetNodeKernelVersion sv n")
    case (Inl e)
    then have n: "platform_of sv ps n = None" "relabelled sv ps n = None"
      by (simp_all add: platform_of_def relabelled_def)
    from IH [of need "Some e" s] show ?thesis
      using Inl n by (auto simp: map_filter_simps)
  next
    case (Inr v)
    let ?p = "findPlatform ps v"
    from platform_tag [OF order, of v] obtain pd where
      pd: "map_of (platforms sv) ?p = Some pd" "pd_labeltag pd = ?p" by blast
    have n: "platform_of sv ps n = Some ?p" using Inr by (simp add: platform_of_def)
    show ?thesis
    proof (cases "map_get (n_Labels n) platformLabel = Some ?p")
      case True
      then have r: "relabelled sv ps n = None" using n by (simp add: relabelled_def)
      have "node_labels_loop k sv ps (n # nodes) need err s = node_labels_loop k sv ps nodes (fmupd ?p True need) err s"
        using Inr pd True by (simp add: Let_def)
      moreover have "List.map_filter (relabelled sv ps) (n # nodes) = List.map_filter (relabelled sv ps) nodes"
        using r by (simp add: map_filter_simps)
      moreover have "(if Some p \<in> platform_of sv ps ` set (n # nodes) then Some True else fmlookup need p) =
          (if Some p \<in> platform_of sv ps ` set nodes then Some True else fmlookup (fmupd ?p True need) p)" for p
        using n by auto
      moreover have "None \<notin> platform_of sv ps ` set (n # nodes) \<longleftrightarrow> None \<notin> platform_of sv ps ` set nodes"
        using n by simp
      ultimately show ?thesis
        using IH [of "fmupd ?p True need" err s] by presburger
    next
      case False
      from Cons.prems obtain ls where ls: "map_set (n_Labels n) platformLabel ?p = Some ls"
        by (cases "n_Labels n") (auto simp: map_set_def)
      have r: "relabelled sv ps n = Some (with_labels n ls)"
        using n ls False by (simp add: relabelled_def)
      obtain u s1 where u: "kupdate (k_Nodes k) O_CoreNode (with_labels n ls) s = Some (u, s1)"
        using calls_return_ex(4) [of "k_Nodes k" O_CoreNode "with_labels n ls" s] by blast
      let ?e = "case err_of u of None \<Rightarrow> err | Some e \<Rightarrow> Some e"
      from IH [of "fmupd ?p True need" ?e s1] obtain need' err' t rs where
        i: "node_labels_loop k sv ps nodes (fmupd ?p True need) ?e s1 = Some (need', err', t)"
          "length rs = length (List.map_filter (relabelled sv ps) nodes)"
          "trace t = trace s1 @ node_updates (List.map_filter (relabelled sv ps) nodes) rs"
          "\<forall>p. fmlookup need' p = (if Some p \<in> platform_of sv ps ` set nodes then Some True
              else fmlookup (fmupd ?p True need) p)"
          "err' = None \<longleftrightarrow> ?e = None \<and> None \<notin> platform_of sv ps ` set nodes \<and> list_all (\<lambda>r. r = None) rs"
        by blast
      have "node_labels_loop k sv ps (n # nodes) need err s = Some (need', err', t)"
        using Inr pd False ls u i(1) by (simp add: Let_def)
      moreover have "trace t = trace s @ node_updates (List.map_filter (relabelled sv ps) (n # nodes)) (err_of u # rs)"
        using i(3) r kupdate_trace [OF u] by (simp add: map_filter_simps node_updates_Cons)
      moreover have "length (err_of u # rs) = length (List.map_filter (relabelled sv ps) (n # nodes))"
        using i(2) r by (simp add: map_filter_simps)
      moreover have "\<forall>p. fmlookup need' p =
          (if Some p \<in> platform_of sv ps ` set (n # nodes) then Some True else fmlookup need p)"
        using i(4) n by auto
      moreover have "err' = None \<longleftrightarrow> err = None \<and> None \<notin> platform_of sv ps ` set (n # nodes)
          \<and> list_all (\<lambda>r. r = None) (err_of u # rs)"
        using i(5) n by (auto split: option.splits)
      ultimately show ?thesis by blast
    qed
  qed
qed

text \<open>C16. Labelling of the cluster nodes, given that every listed node has a label map: exactly the
  listed nodes with a readable kernel version and not yet the label of their platform are
  updated, once each and in order, with that label set; the platforms marked for deployment
  are those of the readable nodes; and an error is returned exactly if some kernel version
  is unreadable or some update failed, without stopping the loop.\<close>

theorem updateNodeLabels_spec:
  assumes order: "map_order (platforms sv) ps"
    and listed: "GetSelectedNodes k selector s = Some (Inr nodes, s1)"
    and labels: "\<forall>n \<in> set nodes. n_Labels n \<noteq> None"
  shows "\<exists>need err t rs.
      updateNodeLabels k sv ps selector s = Some (need, err, t)
    \<and> new_events s t = node_updates (List.map_filter (relabelled sv ps) nodes) rs
    \<and> length rs = length (List.map_filter (relabelled sv ps) nodes)
    \<and> (\<forall>p. fmlookup need p = Some True \<longleftrightarrow> Some p \<in> platform_of sv ps ` set nodes)
    \<and> (err = None \<longleftrightarrow> None \<notin> platform_of sv ps ` set nodes \<and> list_all (\<lambda>r. r = None) rs)"
proof -
  from node_labels_loop_spec [OF order labels, of k "createPlatformsSet sv" None s1]
  obtain need err t rs where l:
    "node_labels_loop k sv ps nodes (createPlatformsSet sv) None s1 = Some (need, err, t)"
    "length rs = length (List.map_filter (relabelled sv ps) nodes)"
    "trace t = trace s1 @ node_updates (List.map_filter (relabelled sv ps) nodes) rs"
    "\<forall>p. fmlookup need p = (if Some p \<in> platform_of sv ps ` set nodes then Some True
        else fmlookup (createPlatformsSet sv) p)"
    "err = None \<longleftrightarrow> None \<notin> platform_of sv ps ` set nodes \<and> list_all (\<lambda>r. r = None) rs"
    unfolding simp_thms by blast
  have "updateNodeLabels k sv ps selector s = Some (need, err, t)"
    using listed l(1) by (simp add: updateNodeLabels_def Let_def)
  moreover have "new_events s t = node_updates (List.map_filter (relabelled sv ps) nodes) rs"
    using l(3) GetSelectedNodes_silent [OF listed] by simp
  moreover have "fmlookup (createPlatformsSet sv) p \<noteq> Some True" for p
    by (simp add: createPlatformsSet_def platforms_def)
  ultimately show ?thesis using l(2,4,5) by (metis (no_types, lifting))
qed

section \<open>What \<open>cleanNodeLabels\<close> does\<close>

definition cleaned :: "string \<Rightarrow> CoreNode \<Rightarrow> CoreNode option" where
  "cleaned idLabel n =
     (if map_get (n_Labels n) platformLabel = None \<and> map_get (n_Labels n) idLabel = None then None
      else Some (with_labels n (map_delete (map_delete (n_Labels n) platformLabel) idLabel)))"

lemma map_delete_absent: "map_get m key = None \<Longrightarrow> map_delete m key = m"
  by (cases m) (auto simp: map_delete_def intro: fmap_ext)

lemma n_Labels_with_labels [simp]: "n_Labels (with_labels n ls) = ls"
  by (simp add: with_labels_def)

lemma with_labels_twice [simp]: "with_labels (with_labels n ls) ls' = with_labels n ls'"
  by (simp add: with_labels_def)

lemma with_labels_same [simp]: "with_labels n (n_Labels n) = n"
  by (simp add: with_labels_def)

lemma clean_labels_loop_Cons:
  "clean_labels_loop k idLabel (nd # rest) s =
     (case cleaned idLabel nd of
        None \<Rightarrow> clean_labels_loop k idLabel rest s
      | Some nd' \<Rightarrow> do {
          (_, s) \<leftarrow> kupdate (k_Nodes k) O_CoreNode nd' s;
          clean_labels_loop k idLabel rest s
        })"
  by (auto simp: cleaned_def map_delete_absent Let_def split: Option.bind_split)

declare clean_labels_loop.simps(2) [simp del]

lemma clean_labels_loop_spec:
  "\<exists>t rs. clean_labels_loop k idLabel nodes s = Some t
     \<and> length rs = length (List.map_filter (cleaned idLabel) nodes)
     \<and> trace t = trace s @ node_updates (List.map_filter (cleaned idLabel) nodes) rs"
proof (induction nodes arbitrary: s)
  case Nil
  then show ?case by (simp add: map_filter_simps node_updates_def)
next
  case (Cons n nodes)
  show ?case
  proof (cases "cleaned idLabel n")
    case None
    with Cons.IH [of s] show ?thesis by (simp add: clean_labels_loop_Cons map_filter_simps)
  next
    case (Some n')
    obtain u s1 where u: "kupdate (k_Nodes k) O_CoreNode n' s = Some (u, s1)"
      using calls_return_ex(4) [of "k_Nodes k" O_CoreNode n' s] by blast
    from Cons.IH [of s1] obtain t rs where
      "clean_labels_loop k idLabel nodes s1 = Some t"
      "length rs = length (List.map_filter (cleaned idLabel) nodes)"
      "trace t = trace s1 @ node_updates (List.map_filter (cleaned idLabel) nodes) rs" by blast
    with Some u kupdate_trace [OF u] show ?thesis
      by (intro exI [of _ t] exI [of _ "err_of u # rs"])
        (simp add: clean_labels_loop_Cons map_filter_simps node_updates_Cons)
  qed
qed

text \<open>Cleaning up: when the nodes can be listed, \<open>cleanNodeLabels\<close> asks for exactly one update
  of every node that carries the platform label or the node id label, each without both
  labels and with all others kept; it then reports success whatever the updates answered.\<close>

theorem cleanNodeLabels_spec:
  assumes "klist (k_Nodes k) list_all_objects s = Some (Inr nodes, s1)"
  shows "\<exists>t rs. cleanNodeLabels k idLabel s = Some (None, t)
    \<and> new_events s t = node_updates (List.map_filter (cleaned idLabel) nodes) rs
    \<and> length rs = length (List.map_filter (cleaned idLabel) nodes)
    \<and> (\<forall>n n' key. cleaned idLabel n = Some n' \<longrightarrow>
         map_get (n_Labels n') key =
           (if key = platformLabel \<or> key = idLabel then None else map_get (n_Labels n) key))"
proof -
  from clean_labels_loop_spec [of k idLabel nodes s1] obtain t rs where
    "clean_labels_loop k idLabel nodes s1 = Some t"
    "length rs = length (List.map_filter (cleaned idLabel) nodes)"
    "trace t = trace s1 @ node_updates (List.map_filter (cleaned idLabel) nodes) rs" by blast
  moreover have "cleaned idLabel n = Some n' \<Longrightarrow> map_get (n_Labels n') key =
      (if key = platformLabel \<or> key = idLabel then None else map_get (n_Labels n) key)" for n n' key
    by (auto simp: cleaned_def split: if_splits)
  ultimately show ?thesis
    using assms klist_silent [OF assms] by (auto simp: cleanNodeLabels_def)
qed

section \<open>The security checks\<close>

text \<open>C18. Nothing is labelled or deployed for a node service account without the policies it
  needs: with an API that answers the reads of role bindings and roles, \<open>Update\<close> makes the
  checks the platform, the namespace and the pod security policy call for, and at the first
  one that fails it emits its warning event and returns \<open>nil\<close>; only if all hold does it
  deploy.\<close>

theorem node_Update_gated:
  assumes view: "rbac_view k (dep_Namespace csi) bs roles" and nd: "spec_node csi = Some nd"
  shows "node_Update k (NewPodSecurityPolicyVerifier k NewMatcher tmpl)
      (NewSecurityContextConstraintsVerifier k NewMatcher pols) sv ps order csi s =
    (case first_failing bs roles (nd_ServiceAccount nd) (dep_Namespace csi)
        (required_checks csi pols tmpl (nd_PodSecurityPolicy nd)) of
       Some reason \<Rightarrow> do {
         (_, s) \<leftarrow> eventf k csi reason (nd_ServiceAccount nd) s;
         Some (None, s)
       }
     | None \<Rightarrow> node_deploy k sv ps order csi s)"
proof -
  let ?ok = "granted bs roles (nd_ServiceAccount nd) (dep_Namespace csi)"
  have scc: "security_gate (NewSecurityContextConstraintsVerifier k NewMatcher pols) csi verifierNode
      (nd_ServiceAccount nd) u = gate_outcome k csi sccReason (nd_ServiceAccount nd) (?ok pols) u" for u
    using nd by (intro scc_gate [OF view])
      (auto simp: NewSecurityContextConstraintsVerifier_def sccVerify_def spec_node_def
        split: Option.bind_splits)
  have psp: "security_gate (NewPodSecurityPolicyVerifier k NewMatcher tmpl) csi verifierNode
      (nd_ServiceAccount nd) u = gate_outcome k csi pspReason (nd_ServiceAccount nd)
        (?ok [tmpl\<lparr>rule_ResourceNames := [psp_ResourceName p]\<rparr>]) u"
    if "nd_PodSecurityPolicy nd = Some p" for u p
    using nd that by (intro psp_gate [OF view])
      (auto simp: NewPodSecurityPolicyVerifier_def pspVerify_def spec_node_def
        split: Option.bind_splits)
  show ?thesis
    by (cases "nd_PodSecurityPolicy nd")
      (auto simp: node_Update_def nd scc psp gate_outcome_def required_checks_def first_failing_def
        eventf_def)
qed

section \<open>Witnesses\<close>

definition example_worker :: CoreNode where
  "example_worker = \<lparr>n_Meta = object_meta [] ''n1'' (go_map [(''zone'', ''a'')]), n_Taints = None,
     n_KernelVersion = ''5.15.0''\<rparr>"

definition workers_cluster :: "unit cluster" where
  "workers_cluster = quiet_cluster\<lparr>k_Nodes := canned [example_worker]\<rparr>"

theorem updateNodeLabels_spec_witness:
  "\<exists>need err t rs.
      updateNodeLabels workers_cluster two_numbers (platforms two_numbers) None (start ()) = Some (need, err, t)
    \<and> new_events (start ()) t = node_updates
        (List.map_filter (relabelled two_numbers (platforms two_numbers)) [example_worker]) rs
    \<and> length rs = length (List.map_filter (relabelled two_numbers (platforms two_numbers)) [example_worker])
    \<and> (\<forall>p. fmlookup need p = Some True \<longleftrightarrow>
          Some p \<in> platform_of two_numbers (platforms two_numbers) ` set [example_worker])
    \<and> (err = None \<longleftrightarrow> None \<notin> platform_of two_numbers (platforms two_numbers) ` set [example_worker]
         \<and> list_all (\<lambda>r. r = None) rs)"
proof (rule updateNodeLabels_spec)
  show "map_order (platforms two_numbers) (platforms two_numbers)" by (rule platforms_order)
  show "GetSelectedNodes workers_cluster None (start ()) = Some (Inr [example_worker], start ())"
    by (simp add: GetSelectedNodes_def workers_cluster_def)
  show "\<forall>n \<in> set [example_worker]. n_Labels n \<noteq> None"
    by (simp add: example_worker_def go_map_def)
qed

definition labelled_worker :: CoreNode where
  "labelled_worker = with_labels example_worker
     (go_map [(''zone'', ''a''), (platformLabel, ''default'')])"

theorem cleanNodeLabels_spec_witness:
  "\<exists>t rs. cleanNodeLabels (workers_cluster\<lparr>k_Nodes := canned [labelled_worker]\<rparr>) ''id'' (start ()) = Some (None, t)
    \<and> new_events (start ()) t = node_updates
        [with_labels example_worker (map_delete (map_delete (n_Labels labelled_worker) platformLabel) ''id'')] rs
    \<and> length rs = 1"
proof -
  let ?k = "workers_cluster\<lparr>k_Nodes := canned [labelled_worker]\<rparr>"
  have "klist (k_Nodes ?k) list_all_objects (start ()) = Some (Inr [labelled_worker], start ())"
    by simp
  moreover have "List.map_filter (cleaned ''id'') [labelled_worker] =
      [with_labels example_worker (map_delete (map_delete (n_Labels labelled_worker) platformLabel) ''id'')]"
    by (simp add: cleaned_def labelled_worker_def map_filter_simps)
  ultimately show ?thesis
    using cleanNodeLabels_spec [of ?k "start ()" "[labelled_worker]" "start ()" "''id''"] by auto
qed

text \<open>Without a role binding on OpenShift only the warning is emitted.\<close>

theorem node_Update_gated_witness:
  "\<exists>t. node_Update quiet_cluster (NewPodSecurityPolicyVerifier quiet_cluster NewMatcher example_rule)
     (NewSecurityContextConstraintsVerifier quiet_cluster NewMatcher [example_rule])
     two_numbers (platforms two_numbers) [] (example_csi PlatformOpenShift) (start ()) = Some (None, t)
   \<and> trace t = [Emitted sccReason ''sa'']"
proof -
  have view: "rbac_view quiet_cluster (dep_Namespace (example_csi PlatformOpenShift)) [] []"
    by (simp add: rbac_view_def)
  have nd: "spec_node (example_csi PlatformOpenShift) = Some example_spec_node"
    by (simp add: spec_node_def example_csi_def)
  have "first_failing [] [] (nd_ServiceAccount example_spec_node)
      (dep_Namespace (example_csi PlatformOpenShift))
      (required_checks (example_csi PlatformOpenShift) [example_rule] example_rule
        (nd_PodSecurityPolicy example_spec_node)) = Some sccReason"
    by (simp add: first_failing_def required_checks_def example_csi_def DefaultNamespace_def
        granted_def role_bound_def)
  with node_Update_gated [OF view nd, of example_rule "[example_rule]" two_numbers
      "platforms two_numbers" "[]" "start ()"]
  show ?thesis
    by (simp add: eventf_def log_event_def start_def example_spec_node_def)
qed

end
