(* ===== verification/Workloads.thy ===== *)
theory Workloads
  imports PatcherConfig NodeComponent
begin

text \<open>
  The three other workloads of the driver: the controller (\<open>pkg/controller.go\<close>), the node
  controller (\<open>pkg/node_controller.go\<close>) and the scheduler extender
  (\<open>pkg/scheduler_extender.go\<close>), each a constructor and an \<open>Update\<close>.
\<close>

section \<open>The controller\<close>

definition controller :: string where "controller = ''controller''"
definition controllerName :: string where "controllerName = CSIName @ ''-'' @ controller"
definition replicasCount :: int where "replicasCount = 1"
definition controllerRoleKey :: string where "controllerRoleKey = ''csi-do''"
definition controllerServiceAccountName :: string where
  "controllerServiceAccountName = ''csi-controller-sa''"
definition healthPort :: int where "healthPort = 9999"
definition fastDelayEnv :: string where "fastDelayEnv = ''RESERVATION_FAST_DELAY''"
definition slowDelayEnv :: string where "slowDelayEnv = ''RESERVATION_SLOW_DELAY''"
definition maxFastAttemptsEnv :: string where "maxFastAttemptsEnv = ''RESERVATION_MAX_FAST_ATTEMPTS''"

definition createControllerSecurityContext :: "SecurityContext option \<Rightarrow> PodSecurityContext" where
  "createControllerSecurityContext ctx =
     (case ctx of
        None \<Rightarrow> \<lparr>psc_RunAsNonRoot = None, psc_RunAsUser = None\<rparr>
      | Some c \<Rightarrow>
          if \<not> sec_Enable c then \<lparr>psc_RunAsNonRoot = None, psc_RunAsUser = None\<rparr>
          else \<lparr>psc_RunAsNonRoot = sec_RunAsNonRoot c, psc_RunAsUser = sec_RunAsUser c\<rparr>)"

definition spec_controller :: "Deployment \<Rightarrow> Controller option" where
  "spec_controller csi = do { driver \<leftarrow> sp_Driver (dep_Spec csi); drv_Controller driver }"

definition csi_mounts :: "VolumeMount list" where
  "csi_mounts = [mount CSISocketDirVolume ''/csi'', CrashMountVolume]"

definition createControllerContainers :: "Deployment \<Rightarrow> Container list option" where
  "createControllerContainers csi = do {
     c \<leftarrow> spec_controller csi;
     let provisioner = fmlookup (ctl_Sidecars c) ProvisionerName;
     let resizer = fmlookup (ctl_Sidecars c) ResizerName;
     let liveness = fmlookup (ctl_Sidecars c) LivenessProbeName;
     let registry = sp_GlobalRegistry (dep_Spec csi);
     log \<leftarrow> ctl_Log c;
     ctlImage \<leftarrow> ConstructFullImageName (ctl_Image c) registry;
     provisioner \<leftarrow> provisioner;
     provisionerImage \<leftarrow> ConstructFullImageName (side_Image provisioner) registry;
     args \<leftarrow> side_Args provisioner;
     resizer \<leftarrow> resizer;
     resizerImage \<leftarrow> ConstructFullImageName (side_Image resizer) registry;
     liveness \<leftarrow> liveness;
     livenessImage \<leftarrow> ConstructFullImageName (side_Image liveness) registry;
     let base = zero_container\<lparr>co_ImagePullPolicy := sp_PullPolicy (dep_Spec csi),
           co_TerminationMessagePath := TerminationMessagePath,
           co_TerminationMessagePolicy := TerminationMessagePolicy\<rparr>;
     Some [
       base\<lparr>co_Name := controller,
         co_Image := ctlImage,
         co_Args := [
           ''--endpoint=$(CSI_ENDPOINT)'',
           ''--namespace=$(NAMESPACE)'',
           ''--extender=true'',
           LogLevelSlogan @ MatchLogLevel (log_Level log),
           ''--healthport='' @ Itoa healthPort,
           ''--metrics-address=:'' @ Itoa PrometheusPort,
           ''--metrics-path=/metrics'',
           ''--sequential-lvg-reservation='' @ FormatBool (sp_SequentialLVGReservation (dep_Spec csi))],
         co_Env := [EnvField ''POD_IP'' ''v1'' ''status.podIP'',
           EnvValue ''CSI_ENDPOINT'' ''unix:///csi/csi.sock'',
           EnvValue ''LOG_FORMAT'' (MatchLogFormat (log_Format log)),
           EnvField ''KUBE_NODE_NAME'' ''v1'' ''spec.nodeName'',
           EnvField ''NAMESPACE'' ''v1'' ''metadata.namespace'',
           EnvValue fastDelayEnv (ctl_FastDelay c),
           EnvValue slowDelayEnv (ctl_SlowDelay c),
           EnvValue maxFastAttemptsEnv (itoa_nat (unat (ctl_MaxFastAttempts c)))],
         co_VolumeMounts := [mount LogsVolume ''/var/log'', mount CSISocketDirVolume ''/csi'',
           CrashMountVolume],
         co_Ports := [port LivenessPort 9808, port ''metrics'' PrometheusPort],
         co_LivenessProbe := Some (probe (HTTPGet ''/healthz'' LivenessPort URISchemeHTTP) 300 3 10 1 5),
         co_ReadinessProbe := Some (probe (Exec [''/health_probe'', ''-addr=:9999'']) 3 1 10 1 15),
         co_Resources := ConstructResourceRequirements (ctl_Resources c)\<rparr>,
       base\<lparr>co_Name := ProvisionerName,
         co_Image := provisionerImage,
         co_Args := [
           ''--csi-address=$(ADDRESS)'',
           ''--extra-create-metadata'',
           ''--feature-gates=Topology=true''] @ [
           ''--timeout='' @ arg_Timeout args,
           ''--retry-interval-start='' @ arg_RetryIntervalStart args,
           ''--retry-interval-max='' @ arg_RetryIntervalMax args,
           ''--worker-threads='' @ Itoa (arg_WorkerThreads args)],
         co_Env := [EnvValue ''ADDRESS'' ''/csi/csi.sock''],
         co_VolumeMounts := csi_mounts,
         co_Resources := ConstructResourceRequirements (side_Resources provisioner)\<rparr>,
       base\<lparr>co_Name := ResizerName,
         co_Image := resizerImage,
         co_Command := [''/csi-resizer''],
         co_Args := [''--csi-address=$(ADDRESS)'', ''--v=5'', ''--leader-election''],
         co_Env := [EnvValue ''ADDRESS'' ''/csi/csi.sock''],
         co_VolumeMounts := csi_mounts,
         co_Resources := ConstructResourceRequirements (side_Resources resizer)\<rparr>,
       base\<lparr>co_Name := LivenessProbeName,
         co_Image := livenessImage,
         co_Args := [''--csi-address=$(ADDRESS)''],
         co_Env := [EnvValue ''ADDRESS'' ''/csi/csi.sock''],
         co_VolumeMounts := csi_mounts,
         co_Resources := ConstructResourceRequirements (side_Resources liveness)\<rparr>]
   }"

definition createControllerDeployment :: "Deployment \<Rightarrow> AppsDeployment option" where
  "createControllerDeployment csi = do {
     selectors \<leftarrow> map_set (ConstructSelectorMap controllerName) ''role'' controllerRoleKey;
     labels \<leftarrow> map_set (ConstructLabelMap controllerName controller) ''role'' controllerRoleKey;
     containers \<leftarrow> createControllerContainers csi;
     c \<leftarrow> spec_controller csi;
     Some \<lparr>
       ad_Meta = object_meta (dep_Namespace csi) controllerName app_labels,
       ad_Spec = \<lparr>
         ads_Replicas = Some replicasCount,
         ads_Selector = selectors,
         ads_Template = \<lparr>
           pt_Labels = labels,
           pt_Annotations = metrics_annotations,
           pt_Spec = zero_pod_spec\<lparr>
             ps_Volumes := [volume LogsVolume EmptyDir, volume CSISocketDirVolume EmptyDir, CrashVolume],
             ps_Containers := containers,
             ps_RestartPolicy := RestartPolicyAlways,
             ps_DNSPolicy := DNSClusterFirst,
             ps_TerminationGracePeriodSeconds := TerminationGracePeriodSeconds,
             ps_NodeSelector := MakeNodeSelectorMap (sp_NodeSelector (dep_Spec csi)),
             ps_ServiceAccountName := controllerServiceAccountName,
             ps_DeprecatedServiceAccount := controllerServiceAccountName,
             ps_SecurityContext := createControllerSecurityContext (ctl_SecurityContext c),
             ps_ImagePullSecrets := MakeImagePullSecrets (sp_RegistrySecret (dep_Spec csi)),
             ps_SchedulerName := DefaultSchedulerName\<rparr>\<rparr>\<rparr>\<rparr>
   }"

definition controller_Update ::
  "'w cluster \<Rightarrow> Deployment \<Rightarrow> 'w sys \<Rightarrow> (goerr option \<times> 'w sys) option" where
  "controller_Update k csi s = do {
     expected \<leftarrow> createControllerDeployment csi;
     case set_owner k csi (ad_Meta expected) of
       Inl err \<Rightarrow> Some (Some err, s)
     | Inr m \<Rightarrow> UpdateDeployment k (expected\<lparr>ad_Meta := m\<rparr>) s
   }"

section \<open>The node controller\<close>

definition nodeController :: string where "nodeController = ''node-controller''"
definition nodeControllerName :: string where "nodeControllerName = CSIName @ ''-'' @ nodeController"
definition ncReplicasCount :: int where "ncReplicasCount = 1"
definition nodeControllerServiceAccountName :: string where
  "nodeControllerServiceAccountName = ''csi-node-controller-sa''"

definition createNodeControllerContainers :: "Deployment \<Rightarrow> Container list option" where
  "createNodeControllerContainers csi = do {
     nc \<leftarrow> sp_NodeController (dep_Spec csi);
     log \<leftarrow> nc_Log nc;
     let args = [''--namespace=$(NAMESPACE)'',
                 LogLevelSlogan @ MatchLogLevel (log_Level log),
                 ''--logformat='' @ MatchLogFormat (log_Format log)];
     let args = (case sp_NodeSelector (dep_Spec csi) of
                   Some ns \<Rightarrow> args @ [''--nodeselector='' @ ns_Key ns @ '':'' @ ns_Value ns]
                 | None \<Rightarrow> args);
     img \<leftarrow> ConstructFullImageName (nc_Image nc) (sp_GlobalRegistry (dep_Spec csi));
     Some [zero_container\<lparr>
       co_Name := nodeController,
       co_Image := img,
       co_ImagePullPolicy := sp_PullPolicy (dep_Spec csi),
       co_Args := args,
       co_Env := [EnvField ''NAMESPACE'' ''v1'' ''metadata.namespace''],
       co_TerminationMessagePath := TerminationMessagePath,
       co_TerminationMessagePolicy := TerminationMessagePolicy,
       co_VolumeMounts := [CrashMountVolume],
       co_Resources := ConstructResourceRequirements (nc_Resources nc)\<rparr>]
   }"

definition createNodeControllerDeployment :: "Deployment \<Rightarrow> AppsDeployment option" where
  "createNodeControllerDeployment csi = do {
     containers \<leftarrow> createNodeControllerContainers csi;
     Some \<lparr>
       ad_Meta = object_meta (dep_Namespace csi) nodeControllerName app_labels,
       ad_Spec = \<lparr>
         ads_Replicas = Some ncReplicasCount,
         ads_Selector = ConstructSelectorMap nodeControllerName,
         ads_Template = \<lparr>
           pt_Labels = ConstructLabelMap nodeControllerName nodeController,
           pt_Annotations = None,
           pt_Spec = zero_pod_spec\<lparr>
             ps_Containers := containers,
             ps_RestartPolicy := RestartPolicyAlways,
             ps_DNSPolicy := DNSClusterFirst,
             ps_TerminationGracePeriodSeconds := TerminationGracePeriodSeconds,
             ps_ServiceAccountName := nodeControllerServiceAccountName,
             ps_DeprecatedServiceAccount := nodeControllerServiceAccountName,
             ps_ImagePullSecrets := MakeImagePullSecrets (sp_RegistrySecret (dep_Spec csi)),
             ps_SchedulerName := DefaultSchedulerName,
             ps_Volumes := [CrashVolume]\<rparr>\<rparr>\<rparr>\<rparr>
   }"

definition node_controller_Update ::
  "'w cluster \<Rightarrow> Deployment \<Rightarrow> 'w sys \<Rightarrow> (goerr option \<times> 'w sys) option" where
  "node_controller_Update k csi s = do {
     expected \<leftarrow> createNodeControllerDeployment csi;
     case set_owner k csi (ad_Meta expected) of
       Inl err \<Rightarrow> Some (Some err, s)
     | Inr m \<Rightarrow> UpdateDeployment k (expected\<lparr>ad_Meta := m\<rparr>) s
   }"

section \<open>The scheduler extender\<close>

definition extenderContainerName :: string where "extenderContainerName = ''scheduler-extender''"
definition extender :: string where "extender = ''se''"
definition extenderName :: string where "extenderName = CSIName @ ''-'' @ extender"
definition extenderPort :: int where "extenderPort = 8889"

definition createExtenderContainers :: "Deployment \<Rightarrow> bool \<Rightarrow> Container list option" where
  "createExtenderContainers csi isPatchingEnabled = do {
     let volumeMounts = [CrashMountVolume];
     let volumeMounts = (if isPatchingEnabled
           then volumeMounts @ [(mount ExtenderConfigMapName ExtenderConfigMapPath)\<lparr>vm_ReadOnly := True\<rparr>]
           else volumeMounts);
     sch \<leftarrow> sp_Scheduler (dep_Spec csi);
     log \<leftarrow> sch_Log sch;
     let args = [
       ''--namespace=$(NAMESPACE)'',
       ''--provisioner='' @ CSIName,
       ''--port='' @ Itoa extenderPort,
       ''--healthport='' @ Itoa healthPort,
       LogLevelSlogan @ MatchLogLevel (log_Level log),
       ''--certFile='',
       ''--privateKeyFile='',
       ''--metrics-address=:'' @ Itoa PrometheusPort,
       ''--metrics-path=/metrics'',
       ''--usenodeannotation='' @ FormatBool (sp_NodeIDAnnotation (dep_Spec csi)),
       ''--isPatchingEnabled='' @ FormatBool isPatchingEnabled];
     let args = (case sp_NodeSelector (dep_Spec csi) of
                   Some ns \<Rightarrow> args @ [''--nodeselector='' @ ns_Key ns @ ''='' @ ns_Value ns]
                 | None \<Rightarrow> args);
     img \<leftarrow> ConstructFullImageName (sch_Image sch) (sp_GlobalRegistry (dep_Spec csi));
     Some [zero_container\<lparr>
       co_Name := extenderContainerName,
       co_Image := img,
       co_ImagePullPolicy := sp_PullPolicy (dep_Spec csi),
       co_Args := args,
       co_Env := [EnvField ''NAMESPACE'' ''v1'' ''metadata.namespace'',
         EnvField ''KUBE_NODE_NAME'' ''v1'' ''spec.nodeName'',
         EnvValue ''LOG_FORMAT'' (MatchLogFormat (log_Format log))],
       co_Ports := [host_port ''metrics'' PrometheusPort, host_port ''extender'' extenderPort],
       co_ReadinessProbe := Some (probe (Exec [''/health_probe'', ''-addr=:9999'']) 3 1 10 1 15),
       co_TerminationMessagePath := TerminationMessagePath,
       co_TerminationMessagePolicy := TerminationMessagePolicy,
       co_VolumeMounts := volumeMounts,
       co_Resources := ConstructResourceRequirements (sch_Resources sch),
       co_Privileged := container_security (sch_SecurityContext sch)\<rparr>]
   }"

definition createExtenderDaemonSet :: "Deployment \<Rightarrow> DaemonSet option" where
  "createExtenderDaemonSet csi = do {
     isPatchingEnabled \<leftarrow> IsPatchingEnabled csi;
     let volumes = [CrashVolume];
     let volumes = (if isPatchingEnabled
           then volumes @ [volume ExtenderConfigMapName (ConfigMapSource ExtenderConfigMapName True)]
           else volumes);
     containers \<leftarrow> createExtenderContainers csi isPatchingEnabled;
     sch \<leftarrow> sp_Scheduler (dep_Spec csi);
     Some \<lparr>
       ds_Meta = object_meta (dep_Namespace csi) extenderName app_labels,
       ds_Spec = \<lparr>
         dss_Selector = ConstructSelectorMap extenderName,
         dss_Template = \<lparr>
           pt_Labels = ConstructLabelMap extenderName extender,
           pt_Annotations = metrics_annotations,
           pt_Spec = zero_pod_spec\<lparr>
             ps_Containers := containers,
             ps_RestartPolicy := RestartPolicyAlways,
             ps_DNSPolicy := DNSClusterFirst,
             ps_TerminationGracePeriodSeconds := TerminationGracePeriodSeconds,
             ps_ServiceAccountName := sch_ServiceAccount sch,
             ps_DeprecatedServiceAccount := sch_ServiceAccount sch,
             ps_ImagePullSecrets := MakeImagePullSecrets (sp_RegistrySecret (dep_Spec csi)),
             ps_SchedulerName := DefaultSchedulerName,
             ps_HostNetwork := True,
             ps_Tolerations := master_tolerations,
             ps_RequiredNodeKeys := [''node-role.kubernetes.io/master''],
             ps_Volumes := volumes\<rparr>\<rparr>\<rparr>\<rparr>
   }"

text \<open>The part of \<open>Update\<close> after the security checks.\<close>

definition extender_deploy ::
  "'w cluster \<Rightarrow> Deployment \<Rightarrow> 'w sys \<Rightarrow> (goerr option \<times> 'w sys) option" where
  "extender_deploy k csi s = do {
     expected \<leftarrow> createExtenderDaemonSet csi;
     case set_owner k csi (ds_Meta expected) of
       Inl err \<Rightarrow> Some (Some err, s)
     | Inr m \<Rightarrow> UpdateDaemonSet k (expected\<lparr>ds_Meta := m\<rparr>) s
   }"

definition extender_Update ::
  "'w cluster \<Rightarrow> 'w SecurityVerifier \<Rightarrow> 'w SecurityVerifier \<Rightarrow> Deployment \<Rightarrow> 'w sys \<Rightarrow>
   (goerr option \<times> 'w sys) option" where
  "extender_Update k pspVerifier sccVerifier csi s = do {
     (early, s) \<leftarrow>
       (if sp_Platform (dep_Spec csi) = PlatformOpenShift \<and> dep_Namespace csi \<noteq> DefaultNamespace
        then do {
          sch \<leftarrow> sp_Scheduler (dep_Spec csi);
          security_gate sccVerifier csi verifierScheduler (sch_ServiceAccount sch) s
        } else Some (None, s));
     case early of
       Some err \<Rightarrow> Some (err, s)
     | None \<Rightarrow> do {
         sch \<leftarrow> sp_Scheduler (dep_Spec csi);
         (early, s) \<leftarrow>
           (case sch_PodSecurityPolicy sch of
              Some p \<Rightarrow>
                if psp_Enable p
                then security_gate pspVerifier csi verifierScheduler (sch_ServiceAccount sch) s
                else Some (None, s)
            | None \<Rightarrow> Some (None, s));
         case early of
           Some err \<Rightarrow> Some (err, s)
         | None \<Rightarrow> extender_deploy k csi s
       }
   }"

section \<open>Every workload can be scheduled\<close>

lemma createControllerDeployment_schedulable:
  assumes "createControllerDeployment csi = Some d"
  shows "schedulable (ads_Selector (ad_Spec d)) (ads_Template (ad_Spec d))"
proof -
  have labels: "selects (Some (fmupd r v f)) (Some (fmupd r v g)) \<and> selects h (Some (fmupd r v g))"
    if "selects (Some f) (Some g)" "selects h (Some g)" "map_get h r = None" for r v f g h
    using that by (auto simp: selects_iff)
  obtain f where f: "ConstructSelectorMap controllerName = Some f"
    by (simp add: ConstructSelectorMap_def go_map_def)
  obtain g where g: "ConstructLabelMap controllerName controller = Some g"
    by (simp add: ConstructLabelMap_def)
  have "map_get app_labels ''role'' = None"
    by (simp add: app_labels_def ConstructLabelAppMap_def label_keys)
  with labels [of f g app_labels "''role''" controllerRoleKey]
    selects_ConstructLabelMap [of controllerName controller]
  have "selects (ads_Selector (ad_Spec d)) (pt_Labels (ads_Template (ad_Spec d)))"
    "selects app_labels (pt_Labels (ads_Template (ad_Spec d)))"
    using assms f g
    by (auto simp: createControllerDeployment_def map_set_def split: Option.bind_splits)
  moreover from assms have "mounts_declared (pt_Spec (ads_Template (ad_Spec d)))"
    by (auto simp: createControllerDeployment_def createControllerContainers_def mounts_declared_def
        csi_mounts_def Let_def split: Option.bind_splits)
  moreover from assms have "map vol_Name (ps_Volumes (pt_Spec (ads_Template (ad_Spec d)))) =
      [LogsVolume, CSISocketDirVolume, ''crash-dump'']"
    "map co_Name (ps_Containers (pt_Spec (ads_Template (ad_Spec d)))) =
      [controller, ProvisionerName, ResizerName, LivenessProbeName]"
    by (auto simp: createControllerDeployment_def createControllerContainers_def Let_def
        split: Option.bind_splits)
  ultimately show ?thesis
    by (simp add: schedulable_def LogsVolume_def CSISocketDirVolume_def controller_def
        ProvisionerName_def ResizerName_def LivenessProbeName_def)
qed

lemma createNodeControllerDeployment_schedulable:
  assumes "createNodeControllerDeployment csi = Some d"
  shows "schedulable (ads_Selector (ad_Spec d)) (ads_Template (ad_Spec d))"
  using assms
  by (auto simp: createNodeControllerDeployment_def createNodeControllerContainers_def
      mounts_declared_def Let_def split: Option.bind_splits intro!: schedulableI)

lemma createExtenderDaemonSet_schedulable:
  assumes "createExtenderDaemonSet csi = Some ds"
  shows "schedulable (dss_Selector (ds_Spec ds)) (dss_Template (ds_Spec ds))"
  using assms
  by (auto simp: createExtenderDaemonSet_def createExtenderContainers_def mounts_declared_def
      ExtenderConfigMapName_def mount_def Let_def split: Option.bind_splits intro!: schedulableI)

text \<open>All templates the operator deploys for one custom resource.\<close>

definition ad_template :: "AppsDeployment \<Rightarrow> gomap \<times> PodTemplateSpec" where
  "ad_template d = (ads_Selector (ad_Spec d), ads_Template (ad_Spec d))"

definition ds_template :: "DaemonSet \<Rightarrow> gomap \<times> PodTemplateSpec" where
  "ds_template d = (dss_Selector (ds_Spec d), dss_Template (ds_Spec d))"

definition deployed_templates :: "'v semver \<Rightarrow> Deployment \<Rightarrow> (gomap \<times> PodTemplateSpec) set" where
  "deployed_templates sv csi =
     ad_template ` set_option (createControllerDeployment csi) \<union>
     ad_template ` set_option (createNodeControllerDeployment csi) \<union>
     ds_template ` set_option (createExtenderDaemonSet csi) \<union>
     (\<Union>(_, p) \<in> set (platforms sv). ds_template ` set_option (createNodeDaemonSet csi p)) \<union>
     (case newPatcherConfiguration csi of
        Some (Inr cfg) \<Rightarrow> ds_template ` set_option (createPatcherDaemonSet cfg)
      | _ \<Rightarrow> {})"

text \<open>C32. Every workload the operator creates can be scheduled: its selector matches its own pod
  labels, its pods carry the application labels by which node maintenance finds them, every
  mounted volume is declared, and volumes and containers have distinct names. The only
  condition is that the configmap of the patcher is not named like another volume of its pod.\<close>

theorem workloads_schedulable:
  assumes "(selector, t) \<in> deployed_templates sv csi"
    and "\<forall>p. spec_patcher csi = Some p \<longrightarrow> pat_ConfigMapName p \<notin> set patcher_volume_names"
  shows "schedulable selector t"
proof -
  have cfg: "pc_configMapName cfg \<notin> set patcher_volume_names"
    if "newPatcherConfiguration csi = Some (Inr cfg)" for cfg
    using that assms(2)
    by (auto simp: newPatcherConfiguration_def spec_patcher_def split: Option.bind_splits option.splits)
  from assms(1) consider
      (controller) d where "createControllerDeployment csi = Some d" "(selector, t) = ad_template d"
    | (node_controller) d where "createNodeControllerDeployment csi = Some d" "(selector, t) = ad_template d"
    | (extender) d where "createExtenderDaemonSet csi = Some d" "(selector, t) = ds_template d"
    | (node) p d where "createNodeDaemonSet csi (p :: 'a PlatformDescription) = Some d" "(selector, t) = ds_template d"
    | (patcher) c d where "newPatcherConfiguration csi = Some (Inr c)" "createPatcherDaemonSet c = Some d"
        "(selector, t) = ds_template d"
    by (auto simp: deployed_templates_def split: option.splits sum.splits)
  then show ?thesis
  proof cases
    case controller
    then show ?thesis using createControllerDeployment_schedulable by (simp add: ad_template_def)
  next
    case node_controller
    then show ?thesis using createNodeControllerDeployment_schedulable by (simp add: ad_template_def)
  next
    case extender
    then show ?thesis using createExtenderDaemonSet_schedulable by (simp add: ds_template_def)
  next
    case node
    then show ?thesis using createNodeDaemonSet_schedulable by (simp add: ds_template_def)
  next
    case patcher
    then show ?thesis using createPatcherDaemonSet_schedulable cfg by (simp add: ds_template_def)
  qed
qed

section \<open>Complete custom resources\<close>

text \<open>\<open>complete csi\<close>: every pointer the constructors follow is set.\<close>

definition complete_sidecar :: "Sidecars \<Rightarrow> string \<Rightarrow> bool" where
  "complete_sidecar m name = (case fmlookup m name of None \<Rightarrow> False | Some s \<Rightarrow> side_Image s \<noteq> None)"

definition complete_controller :: "Controller \<Rightarrow> bool" where
  "complete_controller c \<longleftrightarrow> ctl_Image c \<noteq> None \<and> ctl_Log c \<noteq> None \<and>
     (\<forall>n \<in> {ProvisionerName, ResizerName, LivenessProbeName}. complete_sidecar (ctl_Sidecars c) n) \<and>
     (\<forall>s. fmlookup (ctl_Sidecars c) ProvisionerName = Some s \<longrightarrow> side_Args s \<noteq> None)"

definition complete_node :: "Node \<Rightarrow> bool" where
  "complete_node n \<longleftrightarrow> nd_Image n \<noteq> None \<and> nd_Log n \<noteq> None \<and>
     (\<exists>dm. nd_DriveMgr n = Some dm \<and> dm_Image dm \<noteq> None) \<and>
     (\<forall>x \<in> {DriverRegistrarName, LivenessProbeName}. complete_sidecar (nd_Sidecars n) x)"

definition complete_scheduler :: "Scheduler \<Rightarrow> bool" where
  "complete_scheduler sch \<longleftrightarrow> sch_Image sch \<noteq> None \<and> sch_Log sch \<noteq> None \<and>
     (\<exists>p. sch_Patcher sch = Some p \<and> pat_Image p \<noteq> None)"

definition complete :: "Deployment \<Rightarrow> bool" where
  "complete csi \<longleftrightarrow>
     (\<exists>c. spec_controller csi = Some c \<and> complete_controller c) \<and>
     (\<exists>n. spec_node csi = Some n \<and> complete_node n) \<and>
     (\<exists>sch. sp_Scheduler (dep_Spec csi) = Some sch \<and> complete_scheduler sch) \<and>
     (\<exists>nc. sp_NodeController (dep_Spec csi) = Some nc \<and> nc_Image nc \<noteq> None \<and> nc_Log nc \<noteq> None)"

lemma ConstructFullImageName_None [simp]: "ConstructFullImageName i r = None \<longleftrightarrow> i = None"
  by (cases i) (simp_all add: ConstructFullImageName_def)

lemma ConstructFullImageName_ex [simp]: "i \<noteq> None \<Longrightarrow> \<exists>x. ConstructFullImageName i r = Some x"
  by (auto simp: ConstructFullImageName_def)

lemma map_set_MakeNodeSelectorMap [simp]: "map_set (MakeNodeSelectorMap ns) key v \<noteq> None"
  by (simp add: MakeNodeSelectorMap_def go_map_def split: option.splits)

lemma complete_sidecarE:
  assumes "complete_sidecar m n"
  obtains s i where "fmlookup m n = Some s" "side_Image s = Some i"
  using assms by (auto simp: complete_sidecar_def split: option.splits)

lemma createControllerDeployment_total:
  assumes "spec_controller csi = Some c" and "complete_controller c"
  shows "createControllerDeployment csi \<noteq> None"
proof -
  from assms(2) obtain p pi where p: "fmlookup (ctl_Sidecars c) ProvisionerName = Some p" "side_Image p = Some pi"
    by (auto simp: complete_controller_def elim: complete_sidecarE)
  from assms(2) obtain r ri where r: "fmlookup (ctl_Sidecars c) ResizerName = Some r" "side_Image r = Some ri"
    by (auto simp: complete_controller_def elim: complete_sidecarE)
  from assms(2) obtain l li where l: "fmlookup (ctl_Sidecars c) LivenessProbeName = Some l" "side_Image l = Some li"
    by (auto simp: complete_controller_def elim: complete_sidecarE)
  from assms(2) p obtain a ci lg where "side_Args p = Some a" "ctl_Image c = Some ci" "ctl_Log c = Some lg"
    by (auto simp: complete_controller_def)
  with p r l assms(1) show ?thesis
    by (simp add: createControllerDeployment_def createControllerContainers_def Let_def
        ConstructFullImageName_def ConstructSelectorMap_def ConstructLabelMap_def map_set_def go_map_def)
qed

lemma createNodeDaemonSet_total:
  assumes "spec_node csi = Some n" and "complete_node n"
  shows "createNodeDaemonSet csi p \<noteq> None"
proof -
  from assms(2) obtain r ri where r: "fmlookup (nd_Sidecars n) DriverRegistrarName = Some r" "side_Image r = Some ri"
    by (auto simp: complete_node_def elim: complete_sidecarE)
  from assms(2) obtain l li where l: "fmlookup (nd_Sidecars n) LivenessProbeName = Some l" "side_Image l = Some li"
    by (auto simp: complete_node_def elim: complete_sidecarE)
  from assms(2) obtain ni lg dm di where "nd_Image n = Some ni" "nd_Log n = Some lg"
    "nd_DriveMgr n = Some dm" "dm_Image dm = Some di"
    by (auto simp: complete_node_def)
  with r l assms(1) show ?thesis
    by (auto simp: createNodeDaemonSet_def createNodeContainers_def createNodeVolumes_def Let_def
        ConstructFullImageName_def NodeImage_def MakeNodeSelectorMap_def map_set_def go_map_def
        split: option.splits)
qed

lemma createExtenderDaemonSet_total:
  assumes "sp_Scheduler (dep_Spec csi) = Some sch" and "complete_scheduler sch"
  shows "createExtenderDaemonSet csi \<noteq> None"
  using assms
  by (auto simp: createExtenderDaemonSet_def createExtenderContainers_def IsPatchingEnabled_def
      spec_patcher_def complete_scheduler_def ConstructFullImageName_def Let_def)

lemma createNodeControllerDeployment_total:
  assumes "sp_NodeController (dep_Spec csi) = Some nc" and "nc_Image nc \<noteq> None" and "nc_Log nc \<noteq> None"
  shows "createNodeControllerDeployment csi \<noteq> None"
  using assms
  by (auto simp: createNodeControllerDeployment_def createNodeControllerContainers_def
      ConstructFullImageName_def Let_def)

lemma createPatcherDaemonSet_total:
  assumes "sp_Scheduler (dep_Spec csi) = Some sch" and "complete_scheduler sch"
  shows "newPatcherConfiguration csi \<noteq> None
    \<and> (\<forall>cfg. newPatcherConfiguration csi = Some (Inr cfg) \<longrightarrow> createPatcherDaemonSet cfg \<noteq> None)"
  using assms
  by (auto simp: newPatcherConfiguration_def complete_scheduler_def createPatcherDaemonSet_def
      createPatcherContainers_def ConstructFullImageName_def split: option.splits)

text \<open>A complete custom resource never makes a constructor panic: if every image, log section,
  drive manager and sidecar the code dereferences is present, all workloads of the operator
  are constructed, on every platform.\<close>

theorem constructors_total:
  assumes "complete csi"
  shows "createControllerDeployment csi \<noteq> None \<and> createNodeControllerDeployment csi \<noteq> None
    \<and> createExtenderDaemonSet csi \<noteq> None \<and> createNodeDaemonSet csi platform \<noteq> None
    \<and> newPatcherConfiguration csi \<noteq> None
    \<and> (\<forall>cfg. newPatcherConfiguration csi = Some (Inr cfg) \<longrightarrow> createPatcherDaemonSet cfg \<noteq> None)"
proof -
  from assms obtain c n sch nc where "spec_controller csi = Some c" "complete_controller c"
    "spec_node csi = Some n" "complete_node n" "sp_Scheduler (dep_Spec csi) = Some sch"
    "complete_scheduler sch" "sp_NodeController (dep_Spec csi) = Some nc" "nc_Image nc \<noteq> None" "nc_Log nc \<noteq> None"
    unfolding complete_def by blast
  then show ?thesis
    using createControllerDeployment_total createNodeDaemonSet_total createExtenderDaemonSet_total
      createNodeControllerDeployment_total createPatcherDaemonSet_total by blast
qed

section \<open>The updates\<close>

text \<open>Convergence of the controller: against an API that stores what it accepts, with owner
  references that leave name and namespace alone, an \<open>Update\<close> of the controller that reports
  success leaves a deployment \<open>csi-baremetal-controller\<close> in the namespace of the custom
  resource which the comparison does not tell from the expected one, and a second \<open>Update\<close>
  writes nothing.\<close>

theorem controller_Update_converges:
  assumes store: "truthful (k_Deployments k) ad_Meta look (deploymentChanged k)"
    and owner: "\<forall>m m'. set_owner k csi m = Inr m' \<longrightarrow> m_Namespace m' = m_Namespace m \<and> m_Name m' = m_Name m"
    and run: "controller_Update k csi s = Some (None, t)"
  shows "(\<exists>expected z. look (world t) (dep_Namespace csi) controllerName = Some z
      \<and> createControllerDeployment csi = Some expected
      \<and> \<not> deploymentChanged k expected z)
    \<and> (\<exists>err u. controller_Update k csi t = Some (err, u) \<and> silent t u)"
proof -
  from run obtain d m where d: "createControllerDeployment csi = Some d"
    and m: "set_owner k csi (ad_Meta d) = Inr m"
    and u: "UpdateDeployment k (d\<lparr>ad_Meta := m\<rparr>) s = Some (None, t)"
    by (auto simp: controller_Update_def split: Option.bind_splits sum.splits)
  have key: "m_Namespace m = dep_Namespace csi" "m_Name m = controllerName"
    using owner m d by (auto simp: createControllerDeployment_def split: Option.bind_splits)
  have chg: "deploymentChanged k (d\<lparr>ad_Meta := m\<rparr>) z \<longleftrightarrow> deploymentChanged k d z" for z
    by (simp add: deploymentChanged_def)
  from deps.converges [OF u store] key chg obtain z where
    "look (world t) (dep_Namespace csi) controllerName = Some z" "\<not> deploymentChanged k d z" by auto
  moreover obtain err v where v: "UpdateDeployment k (d\<lparr>ad_Meta := m\<rparr>) t = Some (err, v)"
    using deps.returns by (metis option.exhaust prod.exhaust)
  ultimately show ?thesis
    using d m deps.idempotent [OF store u v] by (auto simp: controller_Update_def)
qed

text \<open>The extender is not deployed for a service account without the policies it needs: with
  an API that answers the reads of role bindings and roles, \<open>Update\<close> of the extender warns and
  returns \<open>nil\<close> at the first required check that fails, and deploys only if all hold.\<close>

theorem extender_Update_gated:
  assumes view: "rbac_view k (dep_Namespace csi) bs roles"
    and sch: "sp_Scheduler (dep_Spec csi) = Some sch"
  shows "extender_Update k (NewPodSecurityPolicyVerifier k NewMatcher tmpl)
      (NewSecurityContextConstraintsVerifier k NewMatcher pols) csi s =
    (case first_failing bs roles (sch_ServiceAccount sch) (dep_Namespace csi)
        (required_checks csi pols tmpl (sch_PodSecurityPolicy sch)) of
       Some reason \<Rightarrow> do {
         (_, s) \<leftarrow> eventf k csi reason (sch_ServiceAccount sch) s;
         Some (None, s)
       }
     | None \<Rightarrow> extender_deploy k csi s)"
proof -
  let ?ok = "granted bs roles (sch_ServiceAccount sch) (dep_Namespace csi)"
  have scc: "security_gate (NewSecurityContextConstraintsVerifier k NewMatcher pols) csi verifierScheduler
      (sch_ServiceAccount sch) u = gate_outcome k csi sccReason (sch_ServiceAccount sch) (?ok pols) u" for u
    using sch by (intro scc_gate [OF view])
      (auto simp: NewSecurityContextConstraintsVerifier_def sccVerify_def verifierNode_def verifierScheduler_def)
  have psp: "security_gate (NewPodSecurityPolicyVerifier k NewMatcher tmpl) csi verifierScheduler
      (sch_ServiceAccount sch) u = gate_outcome k csi pspReason (sch_ServiceAccount sch)
        (?ok [tmpl\<lparr>rule_ResourceNames := [psp_ResourceName p]\<rparr>]) u"
    if "sch_PodSecurityPolicy sch = Some p" for u p
    using sch that by (intro psp_gate [OF view])
      (auto simp: NewPodSecurityPolicyVerifier_def pspVerify_def verifierNode_def verifierScheduler_def)
  show ?thesis
    by (cases "sch_PodSecurityPolicy sch")
      (auto simp: extender_Update_def sch scc psp gate_outcome_def required_checks_def first_failing_def
        eventf_def)
qed

section \<open>Witnesses\<close>

lemma fmlookup_example_sidecars:
  "fmlookup example_sidecars n =
     map_of (map (\<lambda>n. (n, example_sidecar n))
       [''livenessprobe'', ''csi-node-driver-registrar'', ''csi-provisioner'', ''csi-resizer'']) n"
  by (simp add: example_sidecars_def fmlookup_of_list)

lemma complete_example: "complete (example_csi platform)"
  by (simp add: complete_def complete_controller_def complete_node_def complete_scheduler_def
      complete_sidecar_def spec_controller_def spec_node_def example_csi_def example_controller_def
      example_spec_node_def example_scheduler_def example_node_controller_def
      fmlookup_example_sidecars example_sidecar_def example_image_def example_log_def
      ProvisionerName_def ResizerName_def LivenessProbeName_def DriverRegistrarName_def)

theorem constructors_total_witness:
  "\<exists>d e x y. createControllerDeployment (example_csi PlatformVanilla) = Some d
     \<and> createNodeControllerDeployment (example_csi PlatformVanilla) = Some e
     \<and> createExtenderDaemonSet (example_csi PlatformVanilla) = Some x
     \<and> createNodeDaemonSet (example_csi PlatformVanilla) (snd (hd (platforms two_numbers))) = Some y"
  using constructors_total [OF complete_example, of PlatformVanilla "snd (hd (platforms two_numbers))"]
  by auto

theorem workloads_schedulable_witness:
  "\<exists>d. createControllerDeployment (example_csi PlatformVanilla) = Some d
     \<and> schedulable (ads_Selector (ad_Spec d)) (ads_Template (ad_Spec d))"
proof -
  obtain d where d: "createControllerDeployment (example_csi PlatformVanilla) = Some d"
    using createControllerDeployment_total complete_example unfolding complete_def by blast
  then have "ad_template d \<in> deployed_templates two_numbers (example_csi PlatformVanilla)"
    by (simp add: deployed_templates_def)
  then have m: "(ads_Selector (ad_Spec d), ads_Template (ad_Spec d))
      \<in> deployed_templates two_numbers (example_csi PlatformVanilla)"
    by (simp add: ad_template_def)
  have "\<forall>p. spec_patcher (example_csi PlatformVanilla) = Some p \<longrightarrow>
      pat_ConfigMapName p \<notin> set patcher_volume_names"
    by (simp add: spec_patcher_def example_csi_def example_scheduler_def patcher_volume_names_def
        kubernetesSchedulerVolume_def kubernetesManifestsVolume_def)
  from workloads_schedulable [OF m this] d show ?thesis by blast
qed

definition ad_cluster :: "(string \<times> string \<Rightarrow> AppsDeployment option) cluster" where
  "ad_cluster = quiet_cluster\<lparr>k_Deployments := store_client ad_Meta\<rparr>"

theorem controller_Update_converges_witness:
  "\<exists>t z err u. controller_Update ad_cluster (example_csi PlatformVanilla) (start (\<lambda>_. None)) = Some (None, t)
     \<and> stored ad_Meta (world t) ''ns'' controllerName = Some z
     \<and> controller_Update ad_cluster (example_csi PlatformVanilla) t = Some (err, u) \<and> silent t u"
proof -
  let ?csi = "example_csi PlatformVanilla"
  have law: "truthful (k_Deployments ad_cluster) ad_Meta (stored ad_Meta) (deploymentChanged ad_cluster)"
    by (simp add: ad_cluster_def truthful_store deploymentChanged_def)
  have own: "\<forall>m m'. set_owner ad_cluster ?csi m = Inr m' \<longrightarrow> m_Namespace m' = m_Namespace m \<and> m_Name m' = m_Name m"
    by (simp add: ad_cluster_def set_owner_def)
  obtain d where d: "createControllerDeployment ?csi = Some d"
    using createControllerDeployment_total complete_example unfolding complete_def by blast
  obtain t where "controller_Update ad_cluster ?csi (start (\<lambda>_. None)) = Some (None, t)"
    by (simp add: controller_Update_def d set_owner_def UpdateDeployment_def ad_cluster_def store_client_def
        kget_def kcreate_def in_world_def stored_def api_err_def)
  with controller_Update_converges [OF law own this] show ?thesis
    by (auto simp: example_csi_def)
qed

theorem extender_Update_gated_witness:
  "\<exists>t. extender_Update quiet_cluster (NewPodSecurityPolicyVerifier quiet_cluster NewMatcher example_rule)
     (NewSecurityContextConstraintsVerifier quiet_cluster NewMatcher [example_rule])
     (example_csi PlatformVanilla) (start ()) = Some (None, t)
   \<and> trace t = [Emitted pspReason ''sa'']"
proof -
  let ?csi = "example_csi PlatformVanilla"
  have view: "rbac_view quiet_cluster (dep_Namespace ?csi) [] []"
    by (simp add: rbac_view_def)
  have sch: "sp_Scheduler (dep_Spec ?csi) = Some example_scheduler"
    by (simp add: example_csi_def)
  have "first_failing [] [] (sch_ServiceAccount example_scheduler) (dep_Namespace ?csi)
      (required_checks ?csi [example_rule] example_rule (sch_PodSecurityPolicy example_scheduler)) = Some pspReason"
    by (simp add: first_failing_def required_checks_def example_csi_def example_scheduler_def
        granted_def role_bound_def)
  with extender_Update_gated [OF view sch, of example_rule "[example_rule]" "start ()"]
  show ?thesis
    by (simp add: eventf_def log_event_def start_def example_scheduler_def)
qed

end
