(* ===== verification/PatcherOpenshift.thy ===== *)
theory PatcherOpenshift
  imports PatcherConfig Update
begin

text \<open>
  \<open>pkg/patcher/scheduler_patcher_openshift.go\<close> and the version check of
  \<open>scheduler_patcher.go\<close>: patching the scheduler of OpenShift. Up to Kubernetes 1.22 the
  policy of the scheduler resource is set, from 1.23 on a secondary scheduler is installed,
  with a scheduler extender that answered a probe. The patcher keeps state between
  reconciliations, the record \<open>SchedulerPatcher\<close>, threaded beside the state of the cluster.
\<close>

section \<open>State\<close>

record SchedulerPatcher =
  pa_KubernetesVersion :: string
  pa_UseOpenshiftSecondaryScheduler :: bool
  pa_SelectedSchedulerExtenderIP :: string
  pa_ExtenderPatternChecked :: string
  pa_HTTPClient :: bool

text \<open>\<open>pa_HTTPClient\<close>: whether the HTTP client has been created.\<close>

definition new_patcher :: SchedulerPatcher where
  "new_patcher = \<lparr>pa_KubernetesVersion = [], pa_UseOpenshiftSecondaryScheduler = False,
     pa_SelectedSchedulerExtenderIP = [], pa_ExtenderPatternChecked = [], pa_HTTPClient = False\<rparr>"

section \<open>The version of Kubernetes\<close>

text \<open>\<open>strconv.Atoi\<close>: an optional sign, digits, a value of 64 bits.\<close>

definition Atoi :: "string \<Rightarrow> goerr + int" where
  "Atoi s =
     (let (neg, ds) = (case s of
            c # cs \<Rightarrow> if c = CHR ''-'' then (True, cs) else if c = CHR ''+'' then (False, cs) else (False, s)
          | [] \<Rightarrow> (False, []));
          n = int (digits_value 0 ds);
          v = (if neg then - n else n)
      in if ds = [] \<or> \<not> list_all is_digit ds then Inl (ErrorText (''invalid syntax: '' @ s))
         else if v < - (2 ^ 63) \<or> v \<ge> 2 ^ 63 then Inl (ErrorText (''value out of range: '' @ s))
         else Inr v)"

definition server_version ::
  "'w cluster \<Rightarrow> 'w sys \<Rightarrow> ((goerr + string \<times> string) \<times> 'w sys) option" where
  "server_version k s = (case in_world (k_ServerVersion k) s of (r, t) \<Rightarrow> Some (api_res r, t))"

definition useOpenshiftSecondaryScheduler ::
  "'w cluster \<Rightarrow> string \<Rightarrow> SchedulerPatcher \<Rightarrow> 'w sys \<Rightarrow>
   ((goerr + bool) \<times> SchedulerPatcher \<times> 'w sys) option" where
  "useOpenshiftSecondaryScheduler k platform p s =
     (if platform = PlatformOpenShift \<and> pa_KubernetesVersion p = [] then do {
        (r, s) \<leftarrow> server_version k s;
        case r of
          Inl err \<Rightarrow> Some (Inl err, p, s)
        | Inr (major, minor) \<Rightarrow>
            (case Atoi major of
               Inl err \<Rightarrow> Some (Inl err, p, s)
             | Inr k8sMajorVersion \<Rightarrow>
                 (case Atoi minor of
                    Inl err \<Rightarrow> Some (Inl err, p, s)
                  | Inr k8sMinorVersion \<Rightarrow> do {
                      let p = p\<lparr>pa_KubernetesVersion := Itoa k8sMajorVersion @ ''.'' @ Itoa k8sMinorVersion\<rparr>;
                      let p = p\<lparr>pa_UseOpenshiftSecondaryScheduler :=
                            k8sMajorVersion \<ge> 1 \<and> k8sMinorVersion > 22\<rparr>;
                      Some (Inr (pa_UseOpenshiftSecondaryScheduler p), p, s)
                    }))
      } else Some (Inr (pa_UseOpenshiftSecondaryScheduler p), p, s))"

section \<open>Choosing a scheduler extender\<close>

definition openshiftPolicyFile :: string where "openshiftPolicyFile = ''policy.cfg''"
definition openshiftSchedulerResourceName :: string where "openshiftSchedulerResourceName = ''cluster''"
definition openshiftSecondarySchedulerDataKey :: string where
  "openshiftSecondarySchedulerDataKey = ''config.yaml''"
definition openshiftSecondarySchedulerDefaultImageName :: string where
  "openshiftSecondarySchedulerDefaultImageName = ''kube-scheduler''"
definition openshiftSecondarySchedulerDefaultImageTag :: string where
  "openshiftSecondarySchedulerDefaultImageTag = ''v0.26.7''"
definition csiExtenderName :: string where "csiExtenderName = CSIName @ ''-se''"
definition extenderFilterPattern :: string where "extenderFilterPattern = ''/filter''"
definition existing3rdPartySecondarySchedulerErrMsg :: string where
  "existing3rdPartySecondarySchedulerErrMsg = ''existing 3rd-party secondary scheduler''"
definition getSchedulerExtenderIPInterval :: int where "getSchedulerExtenderIPInterval = 10 * 10 ^ 9"
definition getSchedulerExtenderIPMaxRetires :: nat where "getSchedulerExtenderIPMaxRetires = 12"
definition selectedSchedulerExtenderIPConfigMapName :: string where
  "selectedSchedulerExtenderIPConfigMapName = ''selected-scheduler-extender-ip''"
definition selectedSchedulerExtenderIPConfigMapDataKey :: string where
  "selectedSchedulerExtenderIPConfigMapDataKey = ''selectedSchedulerExtenderIP''"
definition StatusOK :: nat where "StatusOK = 200"
definition PodRunning :: string where "PodRunning = ''Running''"

definition extender_url :: "string \<Rightarrow> string \<Rightarrow> string \<Rightarrow> string" where
  "extender_url ip extPort pattern = ''http://'' @ ip @ '':'' @ extPort @ pattern"

text \<open>The request fails, or is answered with a status. The probe and whether it was answered
  with \<open>OK\<close> are recorded in the trace.\<close>

definition http_get :: "'w cluster \<Rightarrow> string \<Rightarrow> 'w sys \<Rightarrow> ((goerr + nat) \<times> 'w sys) option" where
  "http_get k url s =
     (case in_world (k_HTTPGet k url) s of
        (Inl e, t) \<Rightarrow> Some (Inl (LibError e), log_event (Probed url False) t)
      | (Inr status, t) \<Rightarrow> Some (Inr status, log_event (Probed url (status = StatusOK)) t))"

definition checkSchedulerExtender ::
  "'w cluster \<Rightarrow> string \<Rightarrow> string \<Rightarrow> SchedulerPatcher \<Rightarrow> 'w sys \<Rightarrow>
   (goerr option \<times> SchedulerPatcher \<times> 'w sys) option" where
  "checkSchedulerExtender k ip extPort p s = do {
     let p = (if pa_HTTPClient p then p else p\<lparr>pa_HTTPClient := True\<rparr>);
     let extenderFilterURL = extender_url ip extPort (pa_ExtenderPatternChecked p);
     (r, s) \<leftarrow> http_get k extenderFilterURL s;
     case r of
       Inl err \<Rightarrow> Some (Some err, p, s)
     | Inr status \<Rightarrow>
         if status = StatusOK then Some (None, p, s)
         else Some (Some (ErrorText
           (''scheduler extender filter '' @ extenderFilterURL @ '' doesn't work'')), p, s)
   }"

definition createSelectedSchedulerExtenderIPConfigMap :: "string \<Rightarrow> Deployment \<Rightarrow> ConfigMap" where
  "createSelectedSchedulerExtenderIPConfigMap ip csi = \<lparr>
     cm_Meta = object_meta (dep_Namespace csi) selectedSchedulerExtenderIPConfigMapName None,
     cm_Data = go_map [(selectedSchedulerExtenderIPConfigMapDataKey, ip)]\<rparr>"

text \<open>The loop over the extender pods: the first running one with an address that answers.\<close>

fun probe_pods ::
  "'w cluster \<Rightarrow> Deployment \<Rightarrow> string \<Rightarrow> Pod list \<Rightarrow> SchedulerPatcher \<Rightarrow> 'w sys \<Rightarrow>
   (string option \<times> SchedulerPatcher \<times> 'w sys) option" where
  "probe_pods k csi extPort [] p s = Some (None, p, s)"
| "probe_pods k csi extPort (pod # pods) p s =
     (if p_Phase pod \<noteq> PodRunning then probe_pods k csi extPort pods p s
      else if p_PodIP pod = [] then probe_pods k csi extPort pods p s
      else do {
        let podIP = p_PodIP pod;
        (err, p, s) \<leftarrow> checkSchedulerExtender k podIP extPort p s;
        case err of
          Some _ \<Rightarrow> probe_pods k csi extPort pods p s
        | None \<Rightarrow> do {
            let p = p\<lparr>pa_SelectedSchedulerExtenderIP := podIP\<rparr>;
            let cm = createSelectedSchedulerExtenderIPConfigMap podIP csi;
            let cm = (case set_owner k csi (cm_Meta cm) of Inl _ \<Rightarrow> cm | Inr m \<Rightarrow> cm\<lparr>cm_Meta := m\<rparr>);
            (_, s) \<leftarrow> UpdateConfigMap k cm s;
            Some (Some podIP, p, s)
          }
      })"

definition extender_pod_opts :: list_opts where
  "extender_pod_opts = list_all_objects\<lparr>lo_Labels := [(SelectorKey, Some csiExtenderName)]\<rparr>"

definition probe_listed ::
  "'w cluster \<Rightarrow> Deployment \<Rightarrow> string \<Rightarrow> SchedulerPatcher \<Rightarrow> 'w sys \<Rightarrow>
   ((goerr + string) \<times> SchedulerPatcher \<times> 'w sys) option" where
  "probe_listed k csi extPort p s = do {
     (r, s) \<leftarrow> klist (k_Pods k) extender_pod_opts s;
     case r of
       Inl err \<Rightarrow> Some (Inl err, p, s)
     | Inr pods \<Rightarrow>
         if length pods > 0 then do {
           (found, p, s) \<leftarrow> probe_pods k csi extPort pods p s;
           case found of
             Some ip \<Rightarrow> Some (Inr ip, p, s)
           | None \<Rightarrow> Some (Inl (ErrorText ''no working scheduler extender found''), p, s)
         } else Some (Inl (ErrorText ''no scheduler extender found''), p, s)
   }"

text \<open>The address remembered in the configmap, when it differs from the one in the state.\<close>

definition probe_remembered ::
  "'w cluster \<Rightarrow> Deployment \<Rightarrow> string \<Rightarrow> SchedulerPatcher \<Rightarrow> 'w sys \<Rightarrow>
   (string option \<times> SchedulerPatcher \<times> 'w sys) option" where
  "probe_remembered k csi extPort p s = do {
     (r, s) \<leftarrow> kget (k_ConfigMaps k) (dep_Namespace csi) selectedSchedulerExtenderIPConfigMapName s;
     case r of
       Inl _ \<Rightarrow> Some (None, p, s)
     | Inr cm \<Rightarrow> do {
         let ip = map_index (cm_Data cm) selectedSchedulerExtenderIPConfigMapDataKey;
         if ip \<noteq> pa_SelectedSchedulerExtenderIP p then do {
           (err, p, s) \<leftarrow> checkSchedulerExtender k ip extPort p s;
           case err of
             Some _ \<Rightarrow> Some (None, p, s)
           | None \<Rightarrow> Some (Some ip, p\<lparr>pa_SelectedSchedulerExtenderIP := ip\<rparr>, s)
         } else Some (None, p, s)
       }
   }"

definition getSchedulerExtenderIP ::
  "'w cluster \<Rightarrow> Deployment \<Rightarrow> SchedulerPatcher \<Rightarrow> 'w sys \<Rightarrow>
   ((goerr + string) \<times> SchedulerPatcher \<times> 'w sys) option" where
  "getSchedulerExtenderIP k csi p s = do {
     sch \<leftarrow> sp_Scheduler (dep_Spec csi);
     let extPort = sch_ExtenderPort sch;
     (current, p, s) \<leftarrow>
       (if pa_SelectedSchedulerExtenderIP p \<noteq> [] then do {
          (err, p, s) \<leftarrow> checkSchedulerExtender k (pa_SelectedSchedulerExtenderIP p) extPort p s;
          case err of
            Some _ \<Rightarrow> Some (None, p, s)
          | None \<Rightarrow> Some (Some (pa_SelectedSchedulerExtenderIP p), p, s)
        } else Some (None, p, s));
     case current of
       Some ip \<Rightarrow> Some (Inr ip, p, s)
     | None \<Rightarrow> do {
         (remembered, p, s) \<leftarrow> probe_remembered k csi extPort p s;
         case remembered of
           Some ip \<Rightarrow> Some (Inr ip, p, s)
         | None \<Rightarrow> probe_listed k csi extPort p s
       }
   }"

text \<open>The retry loop of \<open>createOpenshiftConfig\<close>, with the number of attempts left: the address
  found, or the error of the last attempt.\<close>

fun extender_attempts ::
  "'w cluster \<Rightarrow> Deployment \<Rightarrow> int \<Rightarrow> nat \<Rightarrow> goerr option \<Rightarrow> SchedulerPatcher \<Rightarrow> 'w sys \<Rightarrow>
   (string option \<times> goerr option \<times> SchedulerPatcher \<times> 'w sys) option" where
  "extender_attempts k csi checkInterval 0 err p s = Some (None, err, p, s)"
| "extender_attempts k csi checkInterval (Suc n) err p s = do {
     (r, p, s) \<leftarrow> getSchedulerExtenderIP k csi p s;
     case r of
       Inr ip \<Rightarrow> Some (Some ip, None, p, s)
     | Inl e \<Rightarrow> do {
         let p = p\<lparr>pa_SelectedSchedulerExtenderIP := []\<rparr>;
         (_, s) \<leftarrow> pause k checkInterval s;
         extender_attempts k csi checkInterval n (Some e) p s
       }
   }"

definition secondary_scheduler_config :: "string \<Rightarrow> string \<Rightarrow> string" where
  "secondary_scheduler_config ip extPort = text_lines [
     ''apiVersion: kubescheduler.config.k8s.io/v1beta3'',
     ''kind: KubeSchedulerConfiguration'',
     ''leaderElection:'',
     ''  leaderElect: false'',
     ''profiles:'',
     ''  - schedulerName: csi-baremetal-scheduler'',
     ''extenders:'',
     ''  - urlPrefix: '' @ in_quotes (''http://'' @ ip @ '':'' @ extPort),
     ''    filterVerb: filter'',
     ''    prioritizeVerb: prioritize'',
     ''    weight: 1'',
     ''    enableHTTPS: false'',
     ''    nodeCacheCapable: false'',
     ''    ignorable: true'']"

definition scheduler_policy :: "string \<Rightarrow> string" where
  "scheduler_policy extPort = text_lines [
     ''{'',
     ''   '' @ in_quotes ''kind'' @ '' : '' @ in_quotes ''Policy'' @ '','',
     ''   '' @ in_quotes ''apiVersion'' @ '' : '' @ in_quotes ''v1'' @ '','',
     ''   '' @ in_quotes ''extenders'' @ '': ['',
     ''        {'',
     ''            '' @ in_quotes ''urlPrefix'' @ '': '' @ in_quotes (''http://127.0.0.1:'' @ extPort) @ '','',
     ''            '' @ in_quotes ''filterVerb'' @ '': '' @ in_quotes ''filter'' @ '','',
     ''            '' @ in_quotes ''prioritizeVerb'' @ '': '' @ in_quotes ''prioritize'' @ '','',
     ''            '' @ in_quotes ''weight'' @ '': 1,'',
     ''            '' @ in_quotes ''enableHttps'' @ '': false,'',
     ''            '' @ in_quotes ''nodeCacheCapable'' @ '': false,'',
     ''            '' @ in_quotes ''ignorable'' @ '': true'',
     ''        }'',
     ''    ]'',
     ''}'']"

definition createOpenshiftConfig ::
  "'w cluster \<Rightarrow> Deployment \<Rightarrow> bool \<Rightarrow> int \<Rightarrow> nat \<Rightarrow> SchedulerPatcher \<Rightarrow> 'w sys \<Rightarrow>
   ((string \<times> goerr option) \<times> SchedulerPatcher \<times> 'w sys) option" where
  "createOpenshiftConfig k csi useSecondary checkInterval maxRetries p s =
     (if useSecondary then do {
        (found, err, p, s) \<leftarrow> extender_attempts k csi checkInterval maxRetries None p s;
        case found of
          None \<Rightarrow> Some (([], err), p, s)
        | Some ip \<Rightarrow> do {
            sch \<leftarrow> sp_Scheduler (dep_Spec csi);
            Some ((secondary_scheduler_config ip (sch_ExtenderPort sch), None), p, s)
          }
      } else do {
        sch \<leftarrow> sp_Scheduler (dep_Spec csi);
        Some ((scheduler_policy (sch_ExtenderPort sch), None), p, s)
      })"

section \<open>The scheduler resources\<close>

definition default_scheduler_image :: Image where
  "default_scheduler_image = \<lparr>img_Name = openshiftSecondarySchedulerDefaultImageName,
     img_Tag = openshiftSecondarySchedulerDefaultImageTag\<rparr>"

definition secondary_scheduler_image :: "OpenshiftSecondaryScheduler option \<Rightarrow> Image" where
  "secondary_scheduler_image oss =
     (case oss of
        Some o' \<Rightarrow>
          (case oss_Image o' of
             Some img \<Rightarrow>
               if img_Name img = [] \<or> img_Tag img = [] then default_scheduler_image else img
           | None \<Rightarrow> default_scheduler_image)
      | None \<Rightarrow> default_scheduler_image)"

definition new_secondary_scheduler :: "string \<Rightarrow> SecondaryScheduler" where
  "new_secondary_scheduler imageURL = \<lparr>
     ss_Meta = object_meta OpenshiftSecondarySchedulerNamespace openshiftSchedulerResourceName None,
     ss_ManagementState = ''Managed'',
     ss_OperatorLogLevel = ''Normal'',
     ss_LogLevel = ''Normal'',
     ss_SchedulerConfig = csiOpenshiftSecondarySchedulerConfigMapName,
     ss_SchedulerImage = imageURL\<rparr>"

definition patchSecondaryScheduler ::
  "'w cluster \<Rightarrow> Deployment \<Rightarrow> 'w sys \<Rightarrow> (goerr option \<times> 'w sys) option" where
  "patchSecondaryScheduler k csi s = do {
     sch \<leftarrow> sp_Scheduler (dep_Spec csi);
     imageURL \<leftarrow> ConstructFullImageName
       (Some (secondary_scheduler_image (sch_OpenshiftSecondaryScheduler sch)))
       (sp_GlobalRegistry (dep_Spec csi));
     (r, s) \<leftarrow> kget (k_SecondarySchedulers k) OpenshiftSecondarySchedulerNamespace
       openshiftSchedulerResourceName s;
     case r of
       Inl err \<Rightarrow>
         if IsNotFound (Some err) then do {
           (c, s) \<leftarrow> kcreate (k_SecondarySchedulers k) O_SecondaryScheduler
             (new_secondary_scheduler imageURL) s;
           Some (err_of c, s)
         } else Some (Some err, s)
     | Inr secondaryScheduler \<Rightarrow>
         if ss_SchedulerConfig secondaryScheduler \<noteq> csiOpenshiftSecondarySchedulerConfigMapName
         then Some (Some (ErrorText existing3rdPartySecondarySchedulerErrMsg), s)
         else if ss_SchedulerImage secondaryScheduler \<noteq> imageURL then do {
           (u, s) \<leftarrow> kupdate (k_SecondarySchedulers k) O_SecondaryScheduler
             (secondaryScheduler\<lparr>ss_SchedulerImage := imageURL\<rparr>) s;
           Some (err_of u, s)
         } else Some (None, s)
   }"

definition unpatchSecondaryScheduler ::
  "'w cluster \<Rightarrow> 'w sys \<Rightarrow> (goerr option \<times> 'w sys) option" where
  "unpatchSecondaryScheduler k s = do {
     (r, s) \<leftarrow> kget (k_SecondarySchedulers k) OpenshiftSecondarySchedulerNamespace
       openshiftSchedulerResourceName s;
     case r of
       Inl err \<Rightarrow> Some (Some err, s)
     | Inr secondaryScheduler \<Rightarrow>
         if ss_SchedulerConfig secondaryScheduler = csiOpenshiftSecondarySchedulerConfigMapName
         then kdelete (k_SecondarySchedulers k) K_SecondaryScheduler
           (m_Namespace (ss_Meta secondaryScheduler)) (m_Name (ss_Meta secondaryScheduler)) s
         else Some (None, s)
   }"

definition patchScheduler ::
  "'w cluster \<Rightarrow> string \<Rightarrow> 'w sys \<Rightarrow> (goerr option \<times> 'w sys) option" where
  "patchScheduler k config s = do {
     (r, s) \<leftarrow> kget (k_Schedulers k) [] ''cluster'' s;
     case r of
       Inl err \<Rightarrow> Some (Some err, s)
     | Inr sc \<Rightarrow> do {
         let name = osch_PolicyName sc;
         if name = [] then do {
           (u, s) \<leftarrow> kupdate (k_Schedulers k) O_OpenshiftScheduler (sc\<lparr>osch_PolicyName := config\<rparr>) s;
           Some (err_of u, s)
         } else if name \<noteq> config
         then Some (Some (ErrorText (''scheduler is already patched with the config name: '' @ name)), s)
         else Some (None, s)
       }
   }"

definition unpatchScheduler ::
  "'w cluster \<Rightarrow> string \<Rightarrow> 'w sys \<Rightarrow> (goerr option \<times> 'w sys) option" where
  "unpatchScheduler k config s = do {
     (r, s) \<leftarrow> kget (k_Schedulers k) [] ''cluster'' s;
     case r of
       Inl err \<Rightarrow> Some (Some err, s)
     | Inr sc \<Rightarrow> do {
         let name = osch_PolicyName sc;
         if name = [] then Some (None, s)
         else if name = config then do {
           (u, s) \<leftarrow> kupdate (k_Schedulers k) O_OpenshiftScheduler (sc\<lparr>osch_PolicyName := []\<rparr>) s;
           Some (err_of u, s)
         } else Some (Some (ErrorText (''scheduler was patched with the config name: '' @ name)), s)
       }
   }"

section \<open>Patching and unpatching\<close>

definition openshift_config_key :: "bool \<Rightarrow> string \<times> string \<times> string" where
  "openshift_config_key useSecondary =
     (if useSecondary
      then (csiOpenshiftSecondarySchedulerConfigMapName, OpenshiftSecondarySchedulerNamespace,
            openshiftSecondarySchedulerDataKey)
      else (openshiftSchedulerPolicyConfigMapName, openshiftConfigNamespace, openshiftPolicyFile))"

definition createOpenshiftConfigMapObject :: "string \<Rightarrow> bool \<Rightarrow> ConfigMap" where
  "createOpenshiftConfigMapObject config useSecondary =
     (case openshift_config_key useSecondary of (cmName, cmNS, cmDataKey) \<Rightarrow>
        \<lparr>cm_Meta = object_meta cmNS cmName None, cm_Data = go_map [(cmDataKey, config)]\<rparr>)"

definition patchOpenShift ::
  "'w cluster \<Rightarrow> Deployment \<Rightarrow> bool \<Rightarrow> SchedulerPatcher \<Rightarrow> 'w sys \<Rightarrow>
   (goerr option \<times> SchedulerPatcher \<times> 'w sys) option" where
  "patchOpenShift k csi useSecondary p s = do {
     ((config, err), p, s) \<leftarrow> createOpenshiftConfig k csi useSecondary
       getSchedulerExtenderIPInterval getSchedulerExtenderIPMaxRetires p s;
     case err of
       Some err \<Rightarrow> Some (Some err, p, s)
     | None \<Rightarrow> do {
         let expected = createOpenshiftConfigMapObject config useSecondary;
         (err, s) \<leftarrow> UpdateConfigMap k expected s;
         case err of
           Some err \<Rightarrow> Some (Some err, p, s)
         | None \<Rightarrow> do {
             (err, s) \<leftarrow> (if useSecondary then patchSecondaryScheduler k csi s
                         else patchScheduler k openshiftSchedulerPolicyConfigMapName s);
             Some (err, p, s)
           }
       }
   }"

definition unPatchOpenShift ::
  "'w cluster \<Rightarrow> SchedulerPatcher \<Rightarrow> 'w sys \<Rightarrow> (goerr option \<times> SchedulerPatcher \<times> 'w sys) option" where
  "unPatchOpenShift k p s = do {
     (r, p, s) \<leftarrow> useOpenshiftSecondaryScheduler k PlatformOpenShift p s;
     case r of
       Inl err \<Rightarrow> Some (Some err, p, s)
     | Inr useSecondary \<Rightarrow> do {
         let (cmName, cmNS, _) = openshift_config_key useSecondary;
         (e1, s) \<leftarrow> kdelete (k_ConfigMaps k) K_ConfigMap cmNS cmName s;
         (e2, s) \<leftarrow> (if useSecondary then unpatchSecondaryScheduler k s
                    else unpatchScheduler k openshiftSchedulerPolicyConfigMapName s);
         Some (join_errors (add_error e2 (add_error e1 [])), p, s)
       }
   }"

definition retryPatchOpenshift ::
  "'w cluster \<Rightarrow> Deployment \<Rightarrow> bool \<Rightarrow> SchedulerPatcher \<Rightarrow> 'w sys \<Rightarrow>
   (goerr option \<times> SchedulerPatcher \<times> 'w sys) option" where
  "retryPatchOpenshift k csi useSecondary p s = do {
     (err, p, s) \<leftarrow> unPatchOpenShift k p s;
     case err of
       Some err \<Rightarrow> Some (Some err, p, s)
     | None \<Rightarrow> patchOpenShift k csi useSecondary p s
   }"

end
