(* ===== verification/Patcher.thy ===== *)
theory Patcher
  imports PatcherOpenshift Rbac
begin

text \<open>
  The rest of \<open>pkg/patcher\<close>: the patcher on vanilla Kubernetes and RKE
  (\<open>scheduler_patcher_vanilla.go\<close>), the readiness of the restarted schedulers
  (\<open>extender_readiness.go\<close>), and \<open>Update\<close> and \<open>Uninstall\<close> (\<open>scheduler_patcher.go\<close>).
\<close>

section \<open>Vanilla Kubernetes and RKE\<close>

definition updateVanillaConfigMap ::
  "'w cluster \<Rightarrow> Deployment \<Rightarrow> 'w sys \<Rightarrow> (goerr option \<times> 'w sys) option" where
  "updateVanillaConfigMap k csi s = do {
     r \<leftarrow> createVanillaConfig csi;
     case r of
       Inl err \<Rightarrow> Some (Some err, s)
     | Inr expected \<Rightarrow>
         (case set_owner k csi (cm_Meta expected) of
            Inl err \<Rightarrow> Some (Some err, s)
          | Inr m \<Rightarrow> UpdateConfigMap k (expected\<lparr>cm_Meta := m\<rparr>) s)
   }"

text \<open>The part of \<open>updateVanillaDaemonset\<close> after the security check.\<close>

definition patcher_deploy ::
  "'w cluster \<Rightarrow> Deployment \<Rightarrow> 'w sys \<Rightarrow> (goerr option \<times> 'w sys) option" where
  "patcher_deploy k csi s = do {
     r \<leftarrow> newPatcherConfiguration csi;
     case r of
       Inl err \<Rightarrow> Some (Some err, s)
     | Inr cfg \<Rightarrow> do {
         expected \<leftarrow> createPatcherDaemonSet cfg;
         case set_owner k csi (ds_Meta expected) of
           Inl err \<Rightarrow> Some (Some err, s)
         | Inr m \<Rightarrow> UpdateDaemonSet k (expected\<lparr>ds_Meta := m\<rparr>) s
       }
   }"

definition updateVanillaDaemonset ::
  "'w cluster \<Rightarrow> 'w SecurityVerifier \<Rightarrow> Deployment \<Rightarrow> 'w sys \<Rightarrow> (goerr option \<times> 'w sys) option" where
  "updateVanillaDaemonset k pspVerifier csi s = do {
     sch \<leftarrow> sp_Scheduler (dep_Spec csi);
     (early, s) \<leftarrow>
       (case sch_PodSecurityPolicy sch of
          Some p \<Rightarrow>
            if psp_Enable p
            then security_gate pspVerifier csi verifierScheduler (sch_ServiceAccount sch) s
            else Some (None, s)
        | None \<Rightarrow> Some (None, s));
     case early of
       Some err \<Rightarrow> Some (err, s)
     | None \<Rightarrow> patcher_deploy k csi s
   }"

text \<open>Both errors are swallowed.\<close>

definition updateVanilla ::
  "'w cluster \<Rightarrow> 'w SecurityVerifier \<Rightarrow> Deployment \<Rightarrow> 'w sys \<Rightarrow> (goerr option \<times> 'w sys) option" where
  "updateVanilla k pspVerifier csi s = do {
     (err, s) \<leftarrow> updateVanillaConfigMap k csi s;
     case err of
       Some _ \<Rightarrow> Some (None, s)
     | None \<Rightarrow> do {
         (err, s) \<leftarrow> updateVanillaDaemonset k pspVerifier csi s;
         case err of Some _ \<Rightarrow> Some (None, s) | None \<Rightarrow> Some (None, s)
       }
   }"

definition retryPatchVanilla ::
  "'w cluster \<Rightarrow> 'w SecurityVerifier \<Rightarrow> Deployment \<Rightarrow> 'w sys \<Rightarrow> (goerr option \<times> 'w sys) option" where
  "retryPatchVanilla k pspVerifier csi s = do {
     (err, s) \<leftarrow> kdelete (k_DaemonSets k) K_DaemonSet (dep_Namespace csi) patcherName s;
     case err of
       Some err \<Rightarrow> Some (Some err, s)
     | None \<Rightarrow> do {
         pat \<leftarrow> spec_patcher csi;
         (err, s) \<leftarrow> kdelete (k_ConfigMaps k) K_ConfigMap (dep_Namespace csi) (pat_ConfigMapName pat) s;
         case err of
           Some err \<Rightarrow> Some (Some err, s)
         | None \<Rightarrow> updateVanilla k pspVerifier csi s
       }
   }"

section \<open>Readiness\<close>

definition readinessCheckIntervalForOpenshiftSecondaryScheduler :: int where
  "readinessCheckIntervalForOpenshiftSecondaryScheduler = 10 * 10 ^ 9"
definition readinessMaxRetiresForOpenshiftSecondaryScheduler :: nat where
  "readinessMaxRetiresForOpenshiftSecondaryScheduler = 12"

record ReadinessStatus =
  st_NodeName :: string
  st_KubeScheduler :: string
  st_Restarted :: bool

definition getConfigMapCreationTime ::
  "'w cluster \<Rightarrow> ExtenderReadinessOptions \<Rightarrow> 'w sys \<Rightarrow> ((goerr + time) \<times> 'w sys) option" where
  "getConfigMapCreationTime k options s = do {
     (r, s) \<leftarrow> kget (k_ConfigMaps k) (ero_watchedConfigMapNamespace options)
       (ero_watchedConfigMapName options) s;
     case r of
       Inl err \<Rightarrow> Some (Inl err, s)
     | Inr config \<Rightarrow> Some (Inr (m_CreationTimestamp (cm_Meta config)), s)
   }"

text \<open>Was the first container of this scheduler pod started at or after the creation?\<close>

definition pod_restarted :: "time \<Rightarrow> Pod \<Rightarrow> bool" where
  "pod_restarted cmCreationTime pod =
     (case p_ContainerStatuses pod of
        [] \<Rightarrow> False
      | c # _ \<Rightarrow>
          (case cs_RunningStartedAt c of
             None \<Rightarrow> False
           | Some startedAt \<Rightarrow> if startedAt < cmCreationTime then False else True))"

definition pod_status :: "time \<Rightarrow> Pod \<Rightarrow> ReadinessStatus" where
  "pod_status cmCreationTime pod = \<lparr>st_NodeName = p_NodeName pod,
     st_KubeScheduler = m_Name (p_Meta pod), st_Restarted = pod_restarted cmCreationTime pod\<rparr>"

definition kube_scheduler_opts :: "string \<times> string \<Rightarrow> list_opts" where
  "kube_scheduler_opts lbl = list_all_objects\<lparr>lo_Labels := [(fst lbl, Some (snd lbl))]\<rparr>"

definition updateReadinessStatuses ::
  "'w cluster \<Rightarrow> string \<times> string \<Rightarrow> time \<Rightarrow> 'w sys \<Rightarrow>
   ((goerr + ReadinessStatus list) \<times> 'w sys) option" where
  "updateReadinessStatuses k kubeSchedulerLabel cmCreationTime s = do {
     (r, s) \<leftarrow> klist (k_Pods k) (kube_scheduler_opts kubeSchedulerLabel) s;
     case r of
       Inl err \<Rightarrow> Some (Inl err, s)
     | Inr pods \<Rightarrow> Some (Inr (map (pod_status cmCreationTime) pods), s)
   }"

text \<open>The polling loop, with the number of rounds left and the statuses of the last round.\<close>

fun poll_statuses ::
  "'w cluster \<Rightarrow> string \<times> string \<Rightarrow> time \<Rightarrow> int \<Rightarrow> nat \<Rightarrow> ReadinessStatus list \<Rightarrow> 'w sys \<Rightarrow>
   ((goerr + ReadinessStatus list) \<times> 'w sys) option" where
  "poll_statuses k lbl created checkInterval 0 statuses s = Some (Inr statuses, s)"
| "poll_statuses k lbl created checkInterval (Suc n) statuses s = do {
     (r, s) \<leftarrow> updateReadinessStatuses k lbl created s;
     case r of
       Inl err \<Rightarrow> Some (Inl err, s)
     | Inr statuses \<Rightarrow>
         if length statuses = 1 \<and> st_Restarted (statuses ! 0) then Some (Inr statuses, s)
         else do {
           (_, s) \<leftarrow> pause k checkInterval s;
           poll_statuses k lbl created checkInterval n statuses s
         }
   }"

definition master_opts :: list_opts where
  "master_opts = list_all_objects\<lparr>lo_Labels := [(K8sMasterNodeLabelKey, None)]\<rparr>"

definition updateReadinessStatusesForOpenshiftSecondaryScheduler ::
  "'w cluster \<Rightarrow> string \<times> string \<Rightarrow> time \<Rightarrow> int \<Rightarrow> nat \<Rightarrow> 'w sys \<Rightarrow>
   ((goerr + ReadinessStatus list) \<times> 'w sys) option" where
  "updateReadinessStatusesForOpenshiftSecondaryScheduler k lbl created checkInterval numRetries s = do {
     (r, s) \<leftarrow> poll_statuses k lbl created checkInterval numRetries [] s;
     case r of
       Inl err \<Rightarrow> Some (Inl err, s)
     | Inr statuses \<Rightarrow> do {
         let readinessScheduler = (case statuses of st # _ \<Rightarrow> st_KubeScheduler st | [] \<Rightarrow> []);
         (r, s) \<leftarrow> klist (k_Nodes k) master_opts s;
         case r of
           Inl err \<Rightarrow> Some (Inl err, s)
         | Inr masterNodes \<Rightarrow> Some (Inr (map (\<lambda>n.
             \<lparr>st_NodeName = m_Name (n_Meta n), st_KubeScheduler = readinessScheduler,
              st_Restarted = True\<rparr>) masterNodes), s)
       }
   }"

fun isAllReady :: "ReadinessStatus list \<Rightarrow> bool" where
  "isAllReady [] = True"
| "isAllReady (status # rest) = (if \<not> st_Restarted status then False else isAllReady rest)"

definition createReadinessConfigMap ::
  "'w cluster \<Rightarrow> ExtenderReadinessOptions \<Rightarrow> ReadinessStatus list \<Rightarrow> goerr + ConfigMap" where
  "createReadinessConfigMap k options statuses =
     (case lib_YamlReadiness k
             (map (\<lambda>st. (st_NodeName st, st_KubeScheduler st, st_Restarted st)) statuses) of
        Inl e \<Rightarrow> Inl (LibError e)
      | Inr data \<Rightarrow> Inr \<lparr>
          cm_Meta = object_meta (ero_readinessConfigMapNamespace options)
            (ero_readinessConfigMapName options) None,
          cm_Data = go_map [(ero_readinessConfigMapFile options, data)]\<rparr>)"

text \<open>\<open>time.Minute * time.Duration(-timeout)\<close> is a product of 64-bit integers: it wraps.\<close>

definition isTimeoutPassed :: "64 word \<Rightarrow> time \<Rightarrow> time \<Rightarrow> bool" where
  "isTimeoutPassed readinessTimeout cmCreationTime t =
     (let minute = (60 * 10 ^ 9 :: 64 word)
      in cmCreationTime < t + sint (minute * (- readinessTimeout)))"

definition UpdateReadinessConfigMap ::
  "'w cluster \<Rightarrow> 'w SecurityVerifier \<Rightarrow> Deployment \<Rightarrow> bool \<Rightarrow> SchedulerPatcher \<Rightarrow> 'w sys \<Rightarrow>
   (goerr option \<times> SchedulerPatcher \<times> 'w sys) option" where
  "UpdateReadinessConfigMap k pspVerifier csi useSecondary p s = do {
     options \<leftarrow> NewExtenderReadinessOptions csi useSecondary;
     case options of
       Inl err \<Rightarrow> Some (Some err, p, s)
     | Inr options \<Rightarrow> do {
         (r, s) \<leftarrow> getConfigMapCreationTime k options s;
         case r of
           Inl err \<Rightarrow> Some (Some err, p, s)
         | Inr cmCreationTime \<Rightarrow> do {
             (r, s) \<leftarrow>
               (if useSecondary
                then updateReadinessStatusesForOpenshiftSecondaryScheduler k
                  (ero_kubeSchedulerLabel options) cmCreationTime
                  readinessCheckIntervalForOpenshiftSecondaryScheduler
                  readinessMaxRetiresForOpenshiftSecondaryScheduler s
                else updateReadinessStatuses k (ero_kubeSchedulerLabel options) cmCreationTime s);
             case r of
               Inl err \<Rightarrow> Some (Some err, p, s)
             | Inr readinessStatuses \<Rightarrow>
                 (case createReadinessConfigMap k options readinessStatuses of
                    Inl err \<Rightarrow> Some (Some err, p, s)
                  | Inr expected \<Rightarrow>
                      (case set_owner k csi (cm_Meta expected) of
                         Inl err \<Rightarrow> Some (Some err, p, s)
                       | Inr m \<Rightarrow> do {
                           (err, s) \<leftarrow> UpdateConfigMap k (expected\<lparr>cm_Meta := m\<rparr>) s;
                           case err of
                             Some err \<Rightarrow> Some (Some err, p, s)
                           | None \<Rightarrow> do {
                               (t, s) \<leftarrow> now k s;
                               pat \<leftarrow> spec_patcher csi;
                               if \<not> isAllReady readinessStatuses
                                 \<and> isTimeoutPassed (pat_ReadinessTimeout pat) cmCreationTime t
                               then
                                 (let platform = sp_Platform (dep_Spec csi) in
                                  if platform = PlatformOpenShift
                                  then retryPatchOpenshift k csi useSecondary p s
                                  else if platform = PlatformVanilla \<or> platform = PlatformRKE
                                  then do {
                                    (err, s) \<leftarrow> retryPatchVanilla k pspVerifier csi s;
                                    Some (err, p, s)
                                  } else Some (Some (unsupported_platform csi), p, s))
                               else Some (None, p, s)
                             }
                         }))
           }
       }
   }"

section \<open>\<open>Update\<close> and \<open>Uninstall\<close>\<close>

definition patcher_Update ::
  "'w cluster \<Rightarrow> 'w SecurityVerifier \<Rightarrow> Deployment \<Rightarrow> SchedulerPatcher \<Rightarrow> 'w sys \<Rightarrow>
   (goerr option \<times> SchedulerPatcher \<times> 'w sys) option" where
  "patcher_Update k pspVerifier csi p s = do {
     enabled \<leftarrow> IsPatchingEnabled csi;
     if \<not> enabled then Some (None, p, s)
     else do {
       (r, p, s) \<leftarrow> useOpenshiftSecondaryScheduler k (sp_Platform (dep_Spec csi)) p s;
       case r of
         Inl err \<Rightarrow> Some (Some err, p, s)
       | Inr useSecondary \<Rightarrow> do {
           let p = (if useSecondary then p\<lparr>pa_ExtenderPatternChecked := extenderFilterPattern\<rparr> else p);
           let platform = sp_Platform (dep_Spec csi);
           (err, p, s) \<leftarrow>
             (if platform = PlatformOpenShift then patchOpenShift k csi useSecondary p s
              else if platform = PlatformVanilla \<or> platform = PlatformRKE then do {
                (err, s) \<leftarrow> updateVanilla k pspVerifier csi s;
                Some (err, p, s)
              } else Some (None, p, s));
           case err of
             Some err \<Rightarrow> Some (Some err, p, s)
           | None \<Rightarrow> UpdateReadinessConfigMap k pspVerifier csi useSecondary p s
         }
     }
   }"

definition patcher_Uninstall ::
  "'w cluster \<Rightarrow> Deployment \<Rightarrow> SchedulerPatcher \<Rightarrow> 'w sys \<Rightarrow>
   (goerr option \<times> SchedulerPatcher \<times> 'w sys) option" where
  "patcher_Uninstall k csi p s = do {
     enabled \<leftarrow> IsPatchingEnabled csi;
     if enabled \<and> sp_Platform (dep_Spec csi) = PlatformOpenShift then unPatchOpenShift k p s
     else Some (None, p, s)
   }"

end
