(* ===== verification/PatcherFacts.thy ===== *)
theory PatcherFacts
  imports Patcher
begin

text \<open>
  What the patcher guarantees: the version of Kubernetes is asked for once, only a scheduler
  extender that answered is chosen and within a bounded number of attempts, a scheduler that
  belongs to somebody else is never written, and readiness decides about a retry.
\<close>

section \<open>The version is decided once\<close>

text \<open>\<open>version_ok\<close>: without a version the secondary scheduler is not used; with one, the decision
  is the one for that version.\<close>

definition decision :: "int \<Rightarrow> int \<Rightarrow> bool" where
  "decision major minor \<longleftrightarrow> major \<ge> 1 \<and> minor > 22"

text \<open>From 1.23 on within the first major version; the comparison of the two numbers one by one
  leaves out 2.0 to 2.22.\<close>

lemma decision_major_1: "decision 1 n \<longleftrightarrow> Version 1 23 \<le> Version 1 n"
  by (auto simp: decision_def)

lemma decision_not_monotone: "Version 1 23 \<le> Version 2 0 \<and> \<not> decision 2 0"
  by (simp add: decision_def)

definition version_ok :: "SchedulerPatcher \<Rightarrow> bool" where
  "version_ok p \<longleftrightarrow>
     (pa_KubernetesVersion p = [] \<longrightarrow> \<not> pa_UseOpenshiftSecondaryScheduler p) \<and>
     (pa_KubernetesVersion p \<noteq> [] \<longrightarrow>
        (\<exists>major minor. pa_KubernetesVersion p = Itoa major @ ''.'' @ Itoa minor \<and>
           pa_UseOpenshiftSecondaryScheduler p = decision major minor))"

definition same_version :: "SchedulerPatcher \<Rightarrow> SchedulerPatcher \<Rightarrow> bool" where
  "same_version p q \<longleftrightarrow> pa_KubernetesVersion q = pa_KubernetesVersion p
     \<and> pa_UseOpenshiftSecondaryScheduler q = pa_UseOpenshiftSecondaryScheduler p"

lemma same_version_refl [simp]: "same_version p p"
  by (simp add: same_version_def)

lemma same_version_trans: "same_version p q \<Longrightarrow> same_version q r \<Longrightarrow> same_version p r"
  by (simp add: same_version_def)

lemma same_version_update [simp]:
  "same_version p (q\<lparr>pa_SelectedSchedulerExtenderIP := ip\<rparr>) \<longleftrightarrow> same_version p q"
  "same_version p (q\<lparr>pa_ExtenderPatternChecked := pat\<rparr>) \<longleftrightarrow> same_version p q"
  "same_version p (q\<lparr>pa_HTTPClient := b\<rparr>) \<longleftrightarrow> same_version p q"
  by (simp_all add: same_version_def)

lemma version_ok_new [simp]: "version_ok new_patcher"
  by (simp add: version_ok_def new_patcher_def)

lemma version_ok_cong: "same_version p q \<Longrightarrow> version_ok q \<longleftrightarrow> version_ok p"
  by (simp add: version_ok_def same_version_def)

lemma useOpenshiftSecondaryScheduler_result:
  assumes "useOpenshiftSecondaryScheduler k platform p s = Some (Inr use, q, t)"
  shows "use = pa_UseOpenshiftSecondaryScheduler q"
  using assms
  by (auto simp: useOpenshiftSecondaryScheduler_def Let_def
      split: if_splits Option.bind_splits sum.splits)

lemma useOpenshiftSecondaryScheduler_ok:
  assumes "useOpenshiftSecondaryScheduler k platform p s = Some (r, q, t)" and "version_ok p"
  shows "version_ok q \<and> (pa_KubernetesVersion p \<noteq> [] \<longrightarrow> same_version p q \<and> t = s)"
  using assms
  by (auto simp: useOpenshiftSecondaryScheduler_def version_ok_def decision_def Let_def
      split: if_splits Option.bind_splits sum.splits) blast

lemma checkSchedulerExtender_effect:
  assumes "checkSchedulerExtender k ip ep p s = Some (err, q, t)"
  shows "q = p\<lparr>pa_HTTPClient := True\<rparr>
    \<and> trace t = trace s @ [Probed (extender_url ip ep (pa_ExtenderPatternChecked p)) (err = None)]"
  using assms
  by (cases p) (auto simp: checkSchedulerExtender_def http_get_def log_event_def in_world_def Let_def
      split: if_splits prod.splits sum.splits)

lemma checkSchedulerExtender_returns:
  "\<exists>err q t. checkSchedulerExtender k ip ep p s = Some (err, q, t)"
  by (auto simp: checkSchedulerExtender_def http_get_def Let_def split: prod.splits sum.splits)

section \<open>The choice of an extender\<close>

text \<open>What \<open>getSchedulerExtenderIP\<close> may do: probe, and write the configmap that remembers the
  address. \<open>chosen\<close>: the address was probed successfully, with the pattern in use.\<close>

definition ip_event :: "event \<Rightarrow> bool" where
  "ip_event e \<longleftrightarrow> (\<exists>url ok. e = Probed url ok) \<or> event_kind e = Some K_ConfigMap"

definition chosen :: "string \<Rightarrow> string \<Rightarrow> SchedulerPatcher \<Rightarrow> 'w sys \<Rightarrow> 'w sys \<Rightarrow> bool" where
  "chosen ip ep p s t \<longleftrightarrow>
     Probed (extender_url ip ep (pa_ExtenderPatternChecked p)) True \<in> set (new_events s t)"

text \<open>The outcome of a step of the search: what was found, and the frame of the state.\<close>

definition search_ok ::
  "string \<Rightarrow> SchedulerPatcher \<Rightarrow> 'w sys \<Rightarrow> string option \<Rightarrow> SchedulerPatcher \<Rightarrow> 'w sys \<Rightarrow> bool" where
  "search_ok ep p s found q t \<longleftrightarrow>
     emits ip_event s t \<and> same_version p q \<and>
     pa_ExtenderPatternChecked q = pa_ExtenderPatternChecked p \<and>
     (\<forall>ip. found = Some ip \<longrightarrow> pa_SelectedSchedulerExtenderIP q = ip \<and> chosen ip ep p s t)"

lemma new_events_trans:
  "emits P s t \<Longrightarrow> emits Q t u \<Longrightarrow> set (new_events s u) = set (new_events s t) \<union> set (new_events t u)"
  by (auto simp: emits_def)

lemma search_ok_none: "silent s t \<Longrightarrow> search_ok ep p s None p t"
  by (simp add: search_ok_def silent_emits)

lemma search_ok_trans:
  assumes "search_ok ep p s f q t" and "search_ok ep q t f' r u"
  shows "search_ok ep p s f' r u"
proof -
  from assms have e: "emits ip_event s t" "emits ip_event t u" by (simp_all add: search_ok_def)
  have "emits ip_event s u" using e by (rule emits_trans)
  with assms new_events_trans [OF e] show ?thesis
    by (auto simp: search_ok_def chosen_def same_version_def)
qed

lemma search_ok_silent: "silent s t \<Longrightarrow> search_ok ep p t f q u \<Longrightarrow> search_ok ep p s f q u"
  by (rule search_ok_trans [OF search_ok_none])

lemma cms_kinds:
  assumes "UpdateConfigMap k cm s = Some (err, t)"
  shows "emits (\<lambda>e. event_kind e = Some K_ConfigMap) s t"
  using cms.trace_cases [OF assms] by (auto simp: emits_def)

lemma check_failed:
  assumes "checkSchedulerExtender k ip ep p s = Some (Some e, q, t)"
  shows "search_ok ep p s None q t"
  using checkSchedulerExtender_effect [OF assms]
  by (auto simp: search_ok_def emits_def ip_event_def)

lemma check_passed:
  assumes "checkSchedulerExtender k ip ep p s = Some (None, q, t)"
  shows "search_ok ep p s (Some ip) (q\<lparr>pa_SelectedSchedulerExtenderIP := ip\<rparr>) t"
  using checkSchedulerExtender_effect [OF assms]
  by (auto simp: search_ok_def emits_def ip_event_def chosen_def)

lemma probe_pods_ok:
  assumes "probe_pods k csi ep pods p s = Some (found, q, t)"
  shows "search_ok ep p s found q t"
  using assms
proof (induction pods arbitrary: p s)
  case Nil
  then show ?case by (simp add: search_ok_none)
next
  case (Cons pod pods)
  show ?case
  proof (cases "p_Phase pod \<noteq> PodRunning \<or> p_PodIP pod = []")
    case True
    with Cons show ?thesis by (auto split: if_splits)
  next
    case False
    obtain err p1 s1 where c: "checkSchedulerExtender k (p_PodIP pod) ep p s = Some (err, p1, s1)"
      using checkSchedulerExtender_returns by blast
    show ?thesis
    proof (cases err)
      case (Some e)
      with False c Cons.prems have "probe_pods k csi ep pods p1 s1 = Some (found, q, t)" by simp
      from search_ok_trans [OF check_failed Cons.IH [OF this]] c Some show ?thesis by blast
    next
      case None
      with False c Cons.prems obtain cm e where
        "UpdateConfigMap k cm s1 = Some (e, t)" "found = Some (p_PodIP pod)"
        "q = p1\<lparr>pa_SelectedSchedulerExtenderIP := p_PodIP pod\<rparr>"
        by (auto simp: Let_def split: Option.bind_splits)
      moreover have "emits ip_event s1 t"
        by (rule emits_mono [OF cms_kinds [OF calculation(1)]]) (simp add: ip_event_def)
      moreover have "search_ok ep p s (Some (p_PodIP pod)) (p1\<lparr>pa_SelectedSchedulerExtenderIP := p_PodIP pod\<rparr>) s1"
        using check_passed c None by blast
      ultimately show ?thesis
        using new_events_trans [of ip_event s s1 ip_event t]
        by (auto simp: search_ok_def chosen_def dest: emits_trans)
    qed
  qed
qed

definition found_of :: "goerr + string \<Rightarrow> string option" where
  "found_of r = (case r of Inl _ \<Rightarrow> None | Inr ip \<Rightarrow> Some ip)"

lemma probe_listed_ok:
  assumes "probe_listed k csi ep p s = Some (r, q, t)"
  shows "search_ok ep p s (found_of r) q t"
proof -
  obtain l s1 where l: "klist (k_Pods k) extender_pod_opts s = Some (l, s1)"
    using calls_return_ex(2) by blast
  show ?thesis
  proof (cases l)
    case (Inl e)
    with assms l klist_silent [OF l] show ?thesis
      by (auto simp: probe_listed_def found_of_def intro: search_ok_none)
  next
    case (Inr pods)
    have "\<exists>f. search_ok ep p s1 f q t \<and> found_of r = f"
      using assms l Inr
      by (auto simp: probe_listed_def found_of_def split: if_splits Option.bind_splits option.splits
          intro: search_ok_none) (erule probe_pods_ok)+
    with search_ok_silent [OF klist_silent [OF l]] show ?thesis by blast
  qed
qed

lemma probe_remembered_ok:
  assumes "probe_remembered k csi ep p s = Some (found, q, t)"
  shows "search_ok ep p s found q t"
proof -
  obtain g s1 where g: "kget (k_ConfigMaps k) (dep_Namespace csi) selectedSchedulerExtenderIPConfigMapName s = Some (g, s1)"
    using calls_return_ex(1) by blast
  have "search_ok ep p s1 found q t"
    using assms g
    by (auto simp: probe_remembered_def Let_def split: sum.splits if_splits Option.bind_splits option.splits
        intro: search_ok_none check_failed dest: check_passed)
  with search_ok_silent [OF kget_silent [OF g]] show ?thesis by blast
qed

lemma getSchedulerExtenderIP_ok:
  assumes "getSchedulerExtenderIP k csi p s = Some (r, q, t)"
  shows "\<exists>sch. sp_Scheduler (dep_Spec csi) = Some sch
    \<and> search_ok (sch_ExtenderPort sch) p s (found_of r) q t"
proof -
  from assms obtain sch where sch: "sp_Scheduler (dep_Spec csi) = Some sch"
    by (auto simp: getSchedulerExtenderIP_def split: Option.bind_splits)
  let ?ep = "sch_ExtenderPort sch"
  define first where "first = (if pa_SelectedSchedulerExtenderIP p \<noteq> [] then do {
          (err, p, s) \<leftarrow> checkSchedulerExtender k (pa_SelectedSchedulerExtenderIP p) ?ep p s;
          case err of
            Some _ \<Rightarrow> Some (None, p, s)
          | None \<Rightarrow> Some (Some (pa_SelectedSchedulerExtenderIP p), p, s)
        } else Some (None, p, s))"
  have ok1: "search_ok ?ep p s f p1 s1" if "first = Some (f, p1, s1)" for f p1 s1
  proof (cases "pa_SelectedSchedulerExtenderIP p = []")
    case True
    with that show ?thesis by (simp add: first_def search_ok_none)
  next
    case False
    obtain err p2 s2 where c: "checkSchedulerExtender k (pa_SelectedSchedulerExtenderIP p) ?ep p s = Some (err, p2, s2)"
      using checkSchedulerExtender_returns by blast
    have ip: "pa_SelectedSchedulerExtenderIP p2 = pa_SelectedSchedulerExtenderIP p"
      "p2\<lparr>pa_SelectedSchedulerExtenderIP := pa_SelectedSchedulerExtenderIP p\<rparr> = p2"
      using checkSchedulerExtender_effect [OF c] by (cases p; simp)+
    show ?thesis
    proof (cases err)
      case (Some e)
      with that c False check_failed show ?thesis by (auto simp: first_def)
    next
      case None
      have "search_ok ?ep p s (Some (pa_SelectedSchedulerExtenderIP p)) p2 s2"
        using check_passed [OF c [unfolded None]] unfolding ip(2) .
      with None that c False ip(1) show ?thesis by (auto simp: first_def)
    qed
  qed
  from assms sch obtain f p1 s1 where f: "first = Some (f, p1, s1)" and
    rest: "(case f of Some ip \<Rightarrow> Some (Inr ip, p1, s1)
       | None \<Rightarrow> do {
           (remembered, p, s) \<leftarrow> probe_remembered k csi ?ep p1 s1;
           case remembered of Some ip \<Rightarrow> Some (Inr ip, p, s) | None \<Rightarrow> probe_listed k csi ?ep p s
         }) = Some (r, q, t)"
    unfolding getSchedulerExtenderIP_def first_def by (auto simp: Let_def split: Option.bind_splits)
  have "search_ok ?ep p1 s1 (found_of r) q t" if "f = None"
  proof -
    from rest that obtain m p2 s2 where m: "probe_remembered k csi ?ep p1 s1 = Some (m, p2, s2)" and
      r: "(case m of Some ip \<Rightarrow> Some (Inr ip, p2, s2) | None \<Rightarrow> probe_listed k csi ?ep p2 s2) = Some (r, q, t)"
      by (auto split: Option.bind_splits)
    from r probe_remembered_ok [OF m] probe_listed_ok search_ok_trans show ?thesis
      by (cases m) (auto simp: found_of_def, blast)
  qed
  with rest ok1 [OF f] search_ok_trans have "search_ok ?ep p s (found_of r) q t"
    by (cases f) (auto simp: found_of_def, blast)
  with sch show ?thesis by blast
qed

text \<open>C26. Only an extender that answers is chosen: whenever \<open>getSchedulerExtenderIP\<close> returns an
  address, this very call probed that address on the configured port and got an answer \<open>OK\<close>,
  the address is the one remembered in the state, and besides probes only a configmap was
  written.\<close>

theorem getSchedulerExtenderIP_probed:
  assumes "getSchedulerExtenderIP k csi p s = Some (Inr ip, q, t)"
  shows "\<exists>sch. sp_Scheduler (dep_Spec csi) = Some sch
    \<and> Probed (extender_url ip (sch_ExtenderPort sch) (pa_ExtenderPatternChecked p)) True
        \<in> set (new_events s t)
    \<and> pa_SelectedSchedulerExtenderIP q = ip
    \<and> (\<forall>e \<in> set (new_events s t). ip_event e)"
  using getSchedulerExtenderIP_ok [OF assms]
  by (auto simp: search_ok_def chosen_def found_of_def dest: emits_new_events)

section \<open>The attempts are bounded\<close>

fun is_pause :: "event \<Rightarrow> bool" where
  "is_pause (Paused _) = True"
| "is_pause _ = False"

definition pauses :: "event list \<Rightarrow> nat" where
  "pauses es = length (filter is_pause es)"

lemma pauses_simps [simp]:
  "pauses [] = 0" "pauses (e # es) = (if is_pause e then Suc (pauses es) else pauses es)"
  "pauses (es @ fs) = pauses es + pauses fs"
  by (simp_all add: pauses_def)

lemma ip_event_no_pause: "ip_event e \<Longrightarrow> \<not> is_pause e"
  by (cases e) (auto simp: ip_event_def)

lemma ip_events_no_pause: "list_all ip_event es \<Longrightarrow> pauses es = 0"
  by (induction es) (auto simp: ip_event_no_pause)

lemma probe_pods_returns: "probe_pods k csi ep pods p s \<noteq> None"
proof (induction pods arbitrary: p s)
  case (Cons pod pods)
  obtain err q t where c: "checkSchedulerExtender k (p_PodIP pod) ep p s = Some (err, q, t)"
    using checkSchedulerExtender_returns by blast
  define cm where "cm = (case set_owner k csi (cm_Meta (createSelectedSchedulerExtenderIPConfigMap (p_PodIP pod) csi)) of
      Inl _ \<Rightarrow> createSelectedSchedulerExtenderIPConfigMap (p_PodIP pod) csi
    | Inr m \<Rightarrow> createSelectedSchedulerExtenderIPConfigMap (p_PodIP pod) csi\<lparr>cm_Meta := m\<rparr>)"
  obtain e u where "UpdateConfigMap k cm t = Some (e, u)"
    using cms.returns by (metis option.exhaust prod.exhaust)
  with c Cons.IH show ?case by (cases err) (auto simp: Let_def cm_def)
qed simp

lemma probe_listed_returns: "probe_listed k csi ep p s \<noteq> None"
proof -
  obtain l s1 where l: "klist (k_Pods k) extender_pod_opts s = Some (l, s1)"
    using calls_return_ex(2) by blast
  show ?thesis
  proof (cases l)
    case (Inr pods)
    obtain f q t where "probe_pods k csi ep pods p s1 = Some (f, q, t)"
      using probe_pods_returns by (metis option.exhaust prod.exhaust)
    with Inr l show ?thesis by (cases f) (simp_all add: probe_listed_def)
  qed (use l in \<open>simp add: probe_listed_def\<close>)
qed

lemma probe_remembered_returns: "probe_remembered k csi ep p s \<noteq> None"
proof -
  obtain g s1 where g: "kget (k_ConfigMaps k) (dep_Namespace csi) selectedSchedulerExtenderIPConfigMapName s = Some (g, s1)"
    using calls_return_ex(1) by blast
  show ?thesis
  proof (cases g)
    case (Inr cm)
    obtain err q t where "checkSchedulerExtender k
        (map_index (cm_Data cm) selectedSchedulerExtenderIPConfigMapDataKey) ep p s1 = Some (err, q, t)"
      using checkSchedulerExtender_returns by blast
    with Inr g show ?thesis by (cases err) (simp_all add: probe_remembered_def Let_def)
  qed (use g in \<open>simp add: probe_remembered_def\<close>)
qed

lemma getSchedulerExtenderIP_returns:
  assumes "sp_Scheduler (dep_Spec csi) = Some sch"
  shows "\<exists>r q t. getSchedulerExtenderIP k csi p s = Some (r, q, t)"
proof -
  have rest: "\<exists>r q' t'. (do {
         (remembered, p, s) \<leftarrow> probe_remembered k csi ep q t;
         case remembered of Some ip \<Rightarrow> Some (Inr ip, p, s) | None \<Rightarrow> probe_listed k csi ep p s
       }) = Some (r, q', t')" for ep q t
  proof -
    obtain m q1 t1 where "probe_remembered k csi ep q t = Some (m, q1, t1)"
      using probe_remembered_returns by (metis option.exhaust prod.exhaust)
    moreover obtain r q2 t2 where "probe_listed k csi ep q1 t1 = Some (r, q2, t2)"
      using probe_listed_returns by (metis option.exhaust prod.exhaust)
    ultimately show ?thesis by (cases m) auto
  qed
  obtain err q t where c: "checkSchedulerExtender k (pa_SelectedSchedulerExtenderIP p) (sch_ExtenderPort sch) p s = Some (err, q, t)"
    using checkSchedulerExtender_returns by blast
  show ?thesis
    using c rest [of "sch_ExtenderPort sch" p s] rest [of "sch_ExtenderPort sch" q t]
    by (cases err) (auto simp: getSchedulerExtenderIP_def assms Let_def)
qed

text \<open>What \<open>n\<close> attempts do.\<close>

lemma extender_attempts_spec:
  assumes "sp_Scheduler (dep_Spec csi) = Some sch"
  shows "\<exists>found err q t es. extender_attempts k csi iv n err0 p s = Some (found, err, q, t)
    \<and> trace t = trace s @ es \<and> same_version p q
    \<and> (case found of
         Some ip \<Rightarrow> err = None \<and> pauses es < n \<and> pa_SelectedSchedulerExtenderIP q = ip
           \<and> Probed (extender_url ip (sch_ExtenderPort sch) (pa_ExtenderPatternChecked p)) True \<in> set es
       | None \<Rightarrow> pauses es = n \<and> (if n = 0 then err = err0
           else err \<noteq> None \<and> pa_SelectedSchedulerExtenderIP q = []))"
proof (induction n arbitrary: err0 p s)
  case 0
  then show ?case by simp
next
  case (Suc n)
  obtain r p1 s1 where g: "getSchedulerExtenderIP k csi p s = Some (r, p1, s1)"
    using getSchedulerExtenderIP_returns [OF assms] by blast
  from getSchedulerExtenderIP_ok [OF g] assms
  have ok: "search_ok (sch_ExtenderPort sch) p s (found_of r) p1 s1" by simp
  then obtain es1 where es1: "trace s1 = trace s @ es1" "list_all ip_event es1"
    by (auto simp: search_ok_def emits_def)
  show ?case
  proof (cases r)
    case (Inr ip)
    with g have "extender_attempts k csi iv (Suc n) err0 p s = Some (Some ip, None, p1, s1)" by simp
    with ok es1 Inr show ?thesis
      by (auto simp: search_ok_def chosen_def found_of_def ip_events_no_pause)
  next
    case (Inl e)
    let ?p = "p1\<lparr>pa_SelectedSchedulerExtenderIP := []\<rparr>"
    obtain s2 where s2: "pause k iv s1 = Some ((), s2)" by (simp add: pause_def)
    from Suc.IH [of "Some e" ?p s2] obtain found err q t es where i:
      "extender_attempts k csi iv n (Some e) ?p s2 = Some (found, err, q, t)"
      "trace t = trace s2 @ es" "same_version ?p q"
      "case found of
         Some ip \<Rightarrow> err = None \<and> pauses es < n \<and> pa_SelectedSchedulerExtenderIP q = ip
           \<and> Probed (extender_url ip (sch_ExtenderPort sch) (pa_ExtenderPatternChecked ?p)) True \<in> set es
       | None \<Rightarrow> pauses es = n \<and> (if n = 0 then err = Some e
           else err \<noteq> None \<and> pa_SelectedSchedulerExtenderIP q = [])"
      by blast
    have run: "extender_attempts k csi iv (Suc n) err0 p s = Some (found, err, q, t)"
      using g Inl s2 i(1) by simp
    have tr: "trace t = trace s @ (es1 @ Paused iv # es)"
      using i(2) es1(1) pause_trace [OF s2] by simp
    have n0: "n = 0 \<Longrightarrow> found = None \<Longrightarrow> pa_SelectedSchedulerExtenderIP q = []"
      using i(1) by auto
    have "same_version p q"
      using ok i(3) by (auto simp: search_ok_def same_version_def)
    moreover have "pa_ExtenderPatternChecked p1 = pa_ExtenderPatternChecked p"
      using ok by (simp add: search_ok_def)
    ultimately show ?thesis
      using run tr i(4) n0 ip_events_no_pause [OF es1(2)]
      by (intro exI [of _ found] exI [of _ err] exI [of _ q] exI [of _ t] exI [of _ "es1 @ Paused iv # es"])
        (auto split: option.splits if_splits)
  qed
qed

text \<open>C27. The search for an extender ends: with at least one attempt allowed,
  \<open>createOpenshiftConfig\<close> returns after at most that many attempts and one pause after each
  failed one; either it found an extender that answered and the configuration names it, or
  all attempts failed, an error is returned and no address stays selected.\<close>

theorem createOpenshiftConfig_bounded:
  assumes sch: "sp_Scheduler (dep_Spec csi) = Some sch" and n: "0 < maxRetries"
  shows "\<exists>config err q t. createOpenshiftConfig k csi True checkInterval maxRetries p s = Some ((config, err), q, t)
    \<and> pauses (new_events s t) \<le> maxRetries
    \<and> (if err = None
       then pauses (new_events s t) < maxRetries
         \<and> config = secondary_scheduler_config (pa_SelectedSchedulerExtenderIP q) (sch_ExtenderPort sch)
         \<and> Probed (extender_url (pa_SelectedSchedulerExtenderIP q) (sch_ExtenderPort sch)
             (pa_ExtenderPatternChecked p)) True \<in> set (new_events s t)
       else pauses (new_events s t) = maxRetries \<and> pa_SelectedSchedulerExtenderIP q = [])"
proof -
  from extender_attempts_spec [OF sch, of k checkInterval maxRetries None p s]
  obtain found err q t es where e:
    "extender_attempts k csi checkInterval maxRetries None p s = Some (found, err, q, t)"
    "trace t = trace s @ es"
    "case found of
         Some ip \<Rightarrow> err = None \<and> pauses es < maxRetries \<and> pa_SelectedSchedulerExtenderIP q = ip
           \<and> Probed (extender_url ip (sch_ExtenderPort sch) (pa_ExtenderPatternChecked p)) True \<in> set es
       | None \<Rightarrow> pauses es = maxRetries \<and> (if maxRetries = 0 then err = None
           else err \<noteq> None \<and> pa_SelectedSchedulerExtenderIP q = [])"
    by blast
  then show ?thesis
    using n by (cases found) (auto simp: createOpenshiftConfig_def sch)
qed

section \<open>Schedulers of others are not touched\<close>

text \<open>C25. A scheduler that belongs to somebody else is left alone by the operations on it. Whenever
  the secondary scheduler that is read has another configuration than the operator's,
  \<open>patchSecondaryScheduler\<close> returns an error and \<open>unpatchSecondaryScheduler\<close> does nothing; and,
  independently, whenever the scheduler resource that is read names another policy,
  \<open>patchScheduler\<close> and \<open>unpatchScheduler\<close> both return an error. In each of these four cases
  the operation makes no request but this one read.\<close>

theorem third_party_schedulers_untouched:
  assumes sch: "sp_Scheduler (dep_Spec csi) = Some sch"
  shows "(\<forall>x s1. kget (k_SecondarySchedulers k) OpenshiftSecondarySchedulerNamespace
            openshiftSchedulerResourceName s = Some (Inr x, s1)
          \<and> ss_SchedulerConfig x \<noteq> csiOpenshiftSecondarySchedulerConfigMapName \<longrightarrow>
        silent s s1
        \<and> patchSecondaryScheduler k csi s = Some (Some (ErrorText existing3rdPartySecondarySchedulerErrMsg), s1)
        \<and> unpatchSecondaryScheduler k s = Some (None, s1))
    \<and> (\<forall>y s2. kget (k_Schedulers k) [] ''cluster'' s = Some (Inr y, s2)
          \<and> osch_PolicyName y \<notin> {[], config} \<longrightarrow>
        silent s s2
        \<and> (\<exists>m. patchScheduler k config s = Some (Some (ErrorText m), s2))
        \<and> (\<exists>m. unpatchScheduler k config s = Some (Some (ErrorText m), s2)))"
  using assms
  by (auto simp: kget_silent patchSecondaryScheduler_def ConstructFullImageName_def Let_def
      unpatchSecondaryScheduler_def patchScheduler_def unpatchScheduler_def)

definition policy_set :: "('w \<Rightarrow> string \<Rightarrow> string \<Rightarrow> OpenshiftScheduler option) \<Rightarrow> 'w sys \<Rightarrow> string \<Rightarrow> bool" where
  "policy_set look s policy \<longleftrightarrow> (\<exists>z. look (world s) [] ''cluster'' = Some z \<and> osch_PolicyName z = policy)"

lemma policy_updated:
  assumes store: "truthful (k_Schedulers k) osch_Meta look (\<lambda>x z. osch_PolicyName z \<noteq> osch_PolicyName x)"
    and g: "kget (k_Schedulers k) [] ''cluster'' s = Some (Inr x, u)"
    and upd: "kupdate (k_Schedulers k) O_OpenshiftScheduler (x\<lparr>osch_PolicyName := policy\<rparr>) u = Some (r, t)"
      "err_of r = None"
  shows "policy_set look t policy"
proof -
  have "m_Namespace (osch_Meta x) = []" "m_Name (osch_Meta x) = ''cluster''"
    using truthful_get(2) [OF store g, of x] by simp_all
  with truthful_stored [OF store _ upd(2), of O_OpenshiftScheduler "x\<lparr>osch_PolicyName := policy\<rparr>" u t] upd(1)
  show ?thesis by (auto simp: policy_set_def)
qed

lemma policy_read:
  assumes store: "truthful (k_Schedulers k) osch_Meta look (\<lambda>x z. osch_PolicyName z \<noteq> osch_PolicyName x)"
    and g: "kget (k_Schedulers k) [] ''cluster'' s = Some (Inr x, t)"
  shows "policy_set look t (osch_PolicyName x)"
  using truthful_get(1,2) [OF store g] by (auto simp: policy_set_def)

lemma patchScheduler_sets:
  assumes store: "truthful (k_Schedulers k) osch_Meta look (\<lambda>x z. osch_PolicyName z \<noteq> osch_PolicyName x)"
    and run: "patchScheduler k config s = Some (None, t)"
  shows "policy_set look t config"
  using run policy_updated [OF store] policy_read [OF store]
  by (auto simp: patchScheduler_def Let_def split: Option.bind_splits sum.splits if_splits)

lemma unpatchScheduler_clears:
  assumes store: "truthful (k_Schedulers k) osch_Meta look (\<lambda>x z. osch_PolicyName z \<noteq> osch_PolicyName x)"
    and run: "unpatchScheduler k config s = Some (None, t)"
  shows "policy_set look t []"
  using run policy_updated [OF store] policy_read [OF store]
  by (auto simp: unpatchScheduler_def Let_def split: Option.bind_splits sum.splits if_splits)
    (metis policy_read [OF store])

text \<open>Patching and unpatching the scheduler resource is a round trip: against an API that stores
  what it accepts, a successful patch leaves the policy name set to the configuration, and a
  successful unpatch after it leaves the name empty.\<close>

theorem patchScheduler_roundtrip:
  assumes store: "truthful (k_Schedulers k) osch_Meta look (\<lambda>x z. osch_PolicyName z \<noteq> osch_PolicyName x)"
    and patch: "patchScheduler k config s = Some (None, t)"
    and unpatch: "unpatchScheduler k config t = Some (None, u)"
  shows "(\<exists>z. look (world t) [] ''cluster'' = Some z \<and> osch_PolicyName z = config)
    \<and> (\<exists>z. look (world u) [] ''cluster'' = Some z \<and> osch_PolicyName z = [])"
  using patchScheduler_sets [OF store patch] unpatchScheduler_clears [OF store unpatch]
  by (simp add: policy_set_def)

section \<open>Readiness\<close>

lemma isAllReady_iff: "isAllReady statuses \<longleftrightarrow> (\<forall>st \<in> set statuses. st_Restarted st)"
  by (induction statuses) auto

text \<open>C28. The readiness timeout: up to 153722867 minutes (about 292 years) it is the comparison one
  expects, creation time plus timeout before now; one minute more and the 64-bit product
  wraps, so that the timeout counts as passed at once.\<close>

theorem isTimeoutPassed_bounds:
  "(0 \<le> sint timeout \<and> sint timeout \<le> 153722867 \<longrightarrow>
      (isTimeoutPassed timeout created t \<longleftrightarrow> created + 60 * 10 ^ 9 * sint timeout < t))
   \<and> (created \<le> t \<longrightarrow> isTimeoutPassed 153722868 created t)"
proof
  show "0 \<le> sint timeout \<and> sint timeout \<le> 153722867 \<longrightarrow>
      (isTimeoutPassed timeout created t \<longleftrightarrow> created + 60 * 10 ^ 9 * sint timeout < t)"
  proof
    assume b: "0 \<le> sint timeout \<and> sint timeout \<le> 153722867"
    define x where "x = sint timeout"
    have "timeout = word_of_int x" by (simp add: x_def)
    then have "(60 * 10 ^ 9 :: 64 word) * (- timeout) = word_of_int (- (60000000000 * x))"
      by (simp add: wi_hom_syms)
    moreover have "sint (word_of_int (- (60000000000 * x)) :: 64 word) = - (60000000000 * x)"
      unfolding sint_sbintrunc'
    proof (rule signed_take_bit_int_eq_self)
      from b have "0 \<le> x" "x \<le> 153722867" by (simp_all add: x_def)
      then show "- (2 ^ (LENGTH(64) - 1)) \<le> - (60000000000 * x)"
        "- (60000000000 * x) < 2 ^ (LENGTH(64) - 1)" by simp_all
    qed
    ultimately show "isTimeoutPassed timeout created t \<longleftrightarrow> created + 60 * 10 ^ 9 * sint timeout < t"
      by (auto simp: isTimeoutPassed_def Let_def x_def)
  qed
  have "sint ((60 * 10 ^ 9 :: 64 word) * (- 153722868)) = 9223371993709551616" by simp
  then show "created \<le> t \<longrightarrow> isTimeoutPassed 153722868 created t"
    by (simp add: isTimeoutPassed_def Let_def)
qed

lemma poll_statuses_emits:
  assumes "poll_statuses k lbl created iv n sts s = Some (r, t)"
  shows "emits is_pause s t"
  using assms
proof (induction n arbitrary: sts s)
  case (Suc n)
  from Suc.prems obtain l s1 where l: "updateReadinessStatuses k lbl created s = Some (l, s1)"
    by (auto split: Option.bind_splits)
  have q: "silent s s1"
    using l by (auto simp: updateReadinessStatuses_def split: Option.bind_splits sum.splits dest: klist_silent)
  show ?case
  proof (cases "\<exists>x. l = Inr x \<and> \<not> (length x = 1 \<and> st_Restarted (x ! 0))")
    case False
    with Suc.prems l q show ?thesis by (auto split: sum.splits if_splits intro: silent_emits)
  next
    case True
    then obtain x where x: "l = Inr x" "\<not> (length x = 1 \<and> st_Restarted (x ! 0))" by blast
    obtain s2 where s2: "pause k iv s1 = Some ((), s2)" by (simp add: pause_def)
    from Suc.prems l x s2 have "poll_statuses k lbl created iv n x s2 = Some (r, t)" by auto
    from Suc.IH [OF this] have "emits is_pause s2 t" .
    moreover have "emits is_pause s s2" using q pause_trace [OF s2] by (simp add: emits_def)
    ultimately show ?thesis by (rule emits_trans [rotated])
  qed
qed simp

lemma secondary_statuses_ready:
  assumes "updateReadinessStatusesForOpenshiftSecondaryScheduler k lbl created iv n s = Some (r, t)"
  shows "emits is_pause s t \<and> (\<forall>sts. r = Inr sts \<longrightarrow> isAllReady sts)"
proof -
  from assms obtain l s1 where l: "poll_statuses k lbl created iv n [] s = Some (l, s1)"
    by (auto simp: updateReadinessStatusesForOpenshiftSecondaryScheduler_def split: Option.bind_splits)
  obtain m s2 where m: "klist (k_Nodes k) master_opts s1 = Some (m, s2)"
    using calls_return_ex(2) by blast
  have "emits is_pause s s1" by (rule poll_statuses_emits [OF l])
  moreover have "emits is_pause s s2"
    using \<open>emits is_pause s s1\<close> silent_emits [OF klist_silent [OF m]] by (rule emits_trans)
  ultimately show ?thesis
    using assms l m
    by (auto simp: updateReadinessStatusesForOpenshiftSecondaryScheduler_def isAllReady_iff
        split: sum.splits)
qed

lemma getConfigMapCreationTime_silent [quiet]:
  "getConfigMapCreationTime k options s = Some (r, t) \<Longrightarrow> silent s t"
  by (auto simp: getConfigMapCreationTime_def split: Option.bind_splits sum.splits dest: kget_silent)

definition readiness_event :: "event \<Rightarrow> bool" where
  "readiness_event e \<longleftrightarrow> is_pause e \<or> event_kind e = Some K_ConfigMap"

lemma statuses_effect:
  assumes "(if useSecondary
      then updateReadinessStatusesForOpenshiftSecondaryScheduler k lbl created
        readinessCheckIntervalForOpenshiftSecondaryScheduler
        readinessMaxRetiresForOpenshiftSecondaryScheduler s
      else updateReadinessStatuses k lbl created s) = Some (r, t)"
  shows "emits readiness_event s t \<and> (useSecondary \<longrightarrow> (\<forall>sts. r = Inr sts \<longrightarrow> isAllReady sts))"
proof (cases useSecondary)
  case True
  with assms have "emits is_pause s t \<and> (\<forall>sts. r = Inr sts \<longrightarrow> isAllReady sts)"
    using secondary_statuses_ready by (simp split: if_splits) blast
  then show ?thesis by (auto elim!: emits_mono simp: readiness_event_def)
next
  case False
  with assms have "silent s t"
    by (auto simp: updateReadinessStatuses_def split: Option.bind_splits sum.splits dest: klist_silent)
  with False show ?thesis by (simp add: silent_emits)
qed

text \<open>A run of \<open>UpdateReadinessConfigMap\<close> waits and writes its configmap, and then is over or
  retries; with a secondary scheduler it is over.\<close>

lemma UpdateReadinessConfigMap_cases:
  assumes "UpdateReadinessConfigMap k v csi useSecondary p s = Some (err, q, t)"
  shows "\<exists>u. emits readiness_event s u \<and>
    (q = p \<and> t = u
     \<or> \<not> useSecondary \<and> retryPatchOpenshift k csi useSecondary p u = Some (err, q, t)
     \<or> \<not> useSecondary \<and> q = p \<and> retryPatchVanilla k v csi u = Some (err, t))"
    (is "\<exists>u. emits _ s u \<and> ?over u")
proof -
  from assms obtain opt where opt: "NewExtenderReadinessOptions csi useSecondary = Some opt"
    by (auto simp: UpdateReadinessConfigMap_def split: Option.bind_splits)
  show ?thesis
  proof (cases opt)
    case (Inl e)
    with assms opt show ?thesis by (auto simp: UpdateReadinessConfigMap_def)
  next
    case (Inr options)
    note opt = opt [unfolded Inr]
    from assms opt obtain c s1 where c: "getConfigMapCreationTime k options s = Some (c, s1)"
      by (auto simp: UpdateReadinessConfigMap_def split: Option.bind_splits)
    note q1 = getConfigMapCreationTime_silent [OF c]
    show ?thesis
    proof (cases c)
      case (Inl e)
      with assms opt c q1 show ?thesis
        by (intro exI [of _ t]) (auto simp: UpdateReadinessConfigMap_def intro: silent_emits)
    next
      case (Inr created)
      note c = c [unfolded Inr]
      let ?sts = "if useSecondary
        then updateReadinessStatusesForOpenshiftSecondaryScheduler k (ero_kubeSchedulerLabel options) created
          readinessCheckIntervalForOpenshiftSecondaryScheduler
          readinessMaxRetiresForOpenshiftSecondaryScheduler s1
        else updateReadinessStatuses k (ero_kubeSchedulerLabel options) created s1"
      from assms opt c have "?sts \<noteq> None"
        by (auto simp: UpdateReadinessConfigMap_def split: Option.bind_splits if_splits)
      then obtain r s2 where r: "?sts = Some (r, s2)" by (metis option.exhaust prod.exhaust)
      from statuses_effect [OF r] q1
      have e2: "emits readiness_event s s2" by (blast intro: silent_then_emits)
      show ?thesis
      proof (cases "\<exists>sts cm m. r = Inr sts \<and> createReadinessConfigMap k options sts = Inr cm
          \<and> set_owner k csi (cm_Meta cm) = Inr m")
        case False
        with assms opt c r e2 show ?thesis
          by (intro exI [of _ t])
            (auto simp: UpdateReadinessConfigMap_def split: sum.splits)
      next
        case True
        then obtain sts cm m where x: "r = Inr sts" "createReadinessConfigMap k options sts = Inr cm"
          "set_owner k csi (cm_Meta cm) = Inr m" by blast
        obtain e s3 where u: "UpdateConfigMap k (cm\<lparr>cm_Meta := m\<rparr>) s2 = Some (e, s3)"
          using cms.returns by (metis option.exhaust prod.exhaust)
        have "emits readiness_event s2 s3"
          by (rule emits_mono [OF cms_kinds [OF u]]) (simp add: readiness_event_def)
        with e2 have e3: "emits readiness_event s s3" by (rule emits_trans)
        obtain n s4 where n: "now k s3 = Some (n, s4)"
          using calls_return(6) by (metis option.exhaust prod.exhaust)
        have e4: "emits readiness_event s s4"
          using e3 silent_emits [OF now_silent [OF n]] by (rule emits_trans)
        have "?over s3 \<or> ?over s4"
        proof (cases e)
          case (Some y)
          with assms opt c r x u show ?thesis by (auto simp: UpdateReadinessConfigMap_def)
        next
          case None
          with assms opt c r x u n obtain pat where pat: "spec_patcher csi = Some pat"
            by (auto simp: UpdateReadinessConfigMap_def split: Option.bind_splits)
          show ?thesis
          proof (cases "\<not> isAllReady sts \<and> isTimeoutPassed (pat_ReadinessTimeout pat) created n")
            case True
            then have "\<not> useSecondary" using statuses_effect [OF r] x(1) by blast
            with True assms opt c r x u None n pat show ?thesis
              by (auto simp: UpdateReadinessConfigMap_def Let_def split: if_splits Option.bind_splits)
          next
            case False
            with assms opt c r x u None n pat show ?thesis
              by (simp add: UpdateReadinessConfigMap_def)
          qed
        qed
        with e3 e4 show ?thesis by blast
      qed
    qed
  qed
qed

text \<open>C30. With a secondary scheduler on OpenShift patching is never retried: the statuses reported
  for the masters all say "restarted", whatever the scheduler pods do, so
  \<open>UpdateReadinessConfigMap\<close> only writes its configmap and waits, and the state of the patcher
  stays as it is.\<close>

theorem secondary_scheduler_never_retried:
  assumes "UpdateReadinessConfigMap k v csi True p s = Some (err, q, t)"
  shows "q = p \<and> (\<forall>e \<in> set (new_events s t). is_pause e \<or> event_kind e = Some K_ConfigMap)"
  using UpdateReadinessConfigMap_cases [OF assms]
  by (auto simp: readiness_event_def dest: emits_new_events)

section \<open>Reachable states of the patcher\<close>

text \<open>The states the patcher of a running operator can be in: new, or after any sequence of
  \<open>Update\<close> and \<open>Uninstall\<close>, with any custom resources and any answers of the cluster.\<close>

inductive reachable :: "'w cluster \<Rightarrow> 'w SecurityVerifier \<Rightarrow> SchedulerPatcher \<Rightarrow> bool"
  for k v where
  new: "reachable k v new_patcher"
| update: "reachable k v p \<Longrightarrow> patcher_Update k v csi p s = Some (err, q, t) \<Longrightarrow> reachable k v q"
| uninstall: "reachable k v p \<Longrightarrow> patcher_Uninstall k csi p s = Some (err, q, t) \<Longrightarrow> reachable k v q"

inductive_cases reachableE: "reachable k v p"

lemma extender_attempts_same:
  "extender_attempts k csi iv n err0 p s = Some (found, err, q, t) \<Longrightarrow> same_version p q"
proof (induction n arbitrary: err0 p s)
  case (Suc n)
  from Suc.prems obtain r p1 s1 where g: "getSchedulerExtenderIP k csi p s = Some (r, p1, s1)"
    by (auto split: Option.bind_splits)
  from getSchedulerExtenderIP_ok [OF g] have v: "same_version p p1" by (auto simp: search_ok_def)
  show ?case
  proof (cases r)
    case (Inl e)
    with Suc.prems g obtain s2 where
      "extender_attempts k csi iv n (Some e) (p1\<lparr>pa_SelectedSchedulerExtenderIP := []\<rparr>) s2 = Some (found, err, q, t)"
      by (auto split: Option.bind_splits)
    from Suc.IH [OF this] v show ?thesis by (auto simp: same_version_def)
  qed (use Suc.prems g v in simp)
qed simp

lemma createOpenshiftConfig_same:
  "createOpenshiftConfig k csi use iv n p s = Some (r, q, t) \<Longrightarrow> same_version p q"
  by (auto simp: createOpenshiftConfig_def split: if_splits Option.bind_splits option.splits
      dest: extender_attempts_same)

lemma patchOpenShift_same:
  "patchOpenShift k csi use p s = Some (err, q, t) \<Longrightarrow> same_version p q"
  by (auto simp: patchOpenShift_def Let_def split: Option.bind_splits option.splits
      dest!: createOpenshiftConfig_same)

text \<open>\<open>version_kept p q\<close>: the invariant is preserved, and a decision once made is kept.\<close>

definition version_kept :: "SchedulerPatcher \<Rightarrow> SchedulerPatcher \<Rightarrow> bool" where
  "version_kept p q \<longleftrightarrow> (version_ok p \<longrightarrow> version_ok q) \<and>
     (pa_KubernetesVersion p \<noteq> [] \<longrightarrow> same_version p q)"

lemma version_kept_refl [simp]: "version_kept p p"
  by (simp add: version_kept_def)

lemma version_kept_same: "same_version p q \<Longrightarrow> version_kept p q"
  by (simp add: version_kept_def version_ok_cong)

lemma version_kept_trans: "version_kept p q \<Longrightarrow> version_kept q r \<Longrightarrow> version_kept p r"
  by (auto simp: version_kept_def same_version_def)

lemma useOpenshiftSecondaryScheduler_kept:
  assumes "useOpenshiftSecondaryScheduler k platform p s = Some (r, q, t)"
  shows "version_kept p q"
proof -
  have "pa_KubernetesVersion p \<noteq> [] \<Longrightarrow> same_version p q"
    using assms by (auto simp: useOpenshiftSecondaryScheduler_def)
  with useOpenshiftSecondaryScheduler_ok [OF assms] show ?thesis by (auto simp: version_kept_def)
qed

lemma unPatchOpenShift_kept:
  "unPatchOpenShift k p s = Some (err, q, t) \<Longrightarrow> version_kept p q"
  by (auto simp: unPatchOpenShift_def split: Option.bind_splits sum.splits prod.splits
      dest!: useOpenshiftSecondaryScheduler_kept)

lemma retryPatchOpenshift_kept:
  assumes "retryPatchOpenshift k csi use p s = Some (err, q, t)"
  shows "version_kept p q"
proof -
  from assms obtain e p1 s1 where u: "unPatchOpenShift k p s = Some (e, p1, s1)"
    by (auto simp: retryPatchOpenshift_def split: Option.bind_splits)
  note k1 = unPatchOpenShift_kept [OF u]
  show ?thesis
  proof (cases e)
    case None
    with assms u have "patchOpenShift k csi use p1 s1 = Some (err, q, t)"
      by (simp add: retryPatchOpenshift_def)
    with k1 show ?thesis by (meson patchOpenShift_same version_kept_same version_kept_trans)
  qed (use assms u k1 in \<open>auto simp: retryPatchOpenshift_def\<close>)
qed

lemma UpdateReadinessConfigMap_kept:
  assumes "UpdateReadinessConfigMap k v csi use p s = Some (err, q, t)"
  shows "version_kept p q"
  using UpdateReadinessConfigMap_cases [OF assms] retryPatchOpenshift_kept by auto

lemma patcher_Update_kept:
  assumes "patcher_Update k v csi p s = Some (err, q, t)"
  shows "version_kept p q"
proof -
  from assms obtain en where en: "IsPatchingEnabled csi = Some en"
    by (auto simp: patcher_Update_def split: Option.bind_splits)
  show ?thesis
  proof (cases en)
    case True
    with assms en obtain r p1 s1 where u:
      "useOpenshiftSecondaryScheduler k (sp_Platform (dep_Spec csi)) p s = Some (r, p1, s1)"
      by (auto simp: patcher_Update_def split: Option.bind_splits)
    note k1 = useOpenshiftSecondaryScheduler_kept [OF u]
    show ?thesis
    proof (cases r)
      case (Inr use)
      let ?p = "if use then p1\<lparr>pa_ExtenderPatternChecked := extenderFilterPattern\<rparr> else p1"
      have k2: "version_kept p ?p"
        by (rule version_kept_trans [OF k1 version_kept_same]) simp
      from assms en True u Inr obtain e p2 s2 where
        "same_version ?p p2" "p2 = q \<or> UpdateReadinessConfigMap k v csi use p2 s2 = Some (err, q, t)"
        by (auto simp: patcher_Update_def Let_def split: Option.bind_splits if_splits option.splits
            dest: patchOpenShift_same) (metis patchOpenShift_same same_version_refl)+
      then show ?thesis
        using k2 by (metis UpdateReadinessConfigMap_kept version_kept_same version_kept_trans)
    qed (use assms en True u k1 in \<open>auto simp: patcher_Update_def\<close>)
  qed (use assms en in \<open>auto simp: patcher_Update_def\<close>)
qed

lemma patcher_Uninstall_kept:
  "patcher_Uninstall k csi p s = Some (err, q, t) \<Longrightarrow> version_kept p q"
  by (auto simp: patcher_Uninstall_def split: Option.bind_splits if_splits dest: unPatchOpenShift_kept)

text \<open>C29. The kind of scheduler to patch is decided once: in every state the patcher can reach,
  the remembered decision is the one for the remembered version of Kubernetes (no secondary
  scheduler while the version is unknown), and no later \<open>Update\<close> or \<open>Uninstall\<close> changes a
  version or a decision once they are there.\<close>

theorem secondary_scheduler_decided_once:
  assumes "reachable k v p"
  shows "version_ok p
    \<and> (\<forall>csi s err q t. pa_KubernetesVersion p \<noteq> [] \<and>
         (patcher_Update k v csi p s = Some (err, q, t) \<or> patcher_Uninstall k csi p s = Some (err, q, t)) \<longrightarrow>
         same_version p q)"
proof
  show "version_ok p"
    using assms
    by (induction rule: reachable.induct)
      (auto dest: patcher_Update_kept patcher_Uninstall_kept simp: version_kept_def)
  show "\<forall>csi s err q t. pa_KubernetesVersion p \<noteq> [] \<and>
         (patcher_Update k v csi p s = Some (err, q, t) \<or> patcher_Uninstall k csi p s = Some (err, q, t)) \<longrightarrow>
         same_version p q"
    by (auto dest: patcher_Update_kept patcher_Uninstall_kept simp: version_kept_def)
qed

section \<open>Witnesses\<close>

definition example_patcher :: SchedulerPatcher where
  "example_patcher = new_patcher\<lparr>pa_SelectedSchedulerExtenderIP := ''10.0.0.1''\<rparr>"

theorem getSchedulerExtenderIP_probed_witness:
  "\<exists>q t. getSchedulerExtenderIP quiet_cluster (example_csi PlatformOpenShift) example_patcher (start ())
      = Some (Inr ''10.0.0.1'', q, t)
    \<and> Probed (extender_url ''10.0.0.1'' ''8889'' []) True \<in> set (new_events (start ()) t)"
proof -
  obtain q t where r: "getSchedulerExtenderIP quiet_cluster (example_csi PlatformOpenShift) example_patcher (start ())
      = Some (Inr ''10.0.0.1'', q, t)"
    by (simp add: getSchedulerExtenderIP_def checkSchedulerExtender_def http_get_def in_world_def
        example_patcher_def new_patcher_def example_csi_def StatusOK_def)
  with getSchedulerExtenderIP_probed [OF r] show ?thesis
    by (auto simp: example_csi_def example_scheduler_def example_patcher_def new_patcher_def)
qed

theorem createOpenshiftConfig_bounded_witness:
  "\<exists>config err q t. createOpenshiftConfig quiet_cluster (example_csi PlatformOpenShift) True 10 12 new_patcher (start ())
      = Some ((config, err), q, t) \<and> pauses (new_events (start ()) t) \<le> 12"
proof -
  have "sp_Scheduler (dep_Spec (example_csi PlatformOpenShift)) = Some example_scheduler" "0 < (12 :: nat)"
    by (simp_all add: example_csi_def)
  from createOpenshiftConfig_bounded [OF this, of quiet_cluster 10 new_patcher "start ()"] show ?thesis by blast
qed

text \<open>An API that holds one object under every name.\<close>

definition holding :: "'o \<Rightarrow> ('o, 'w) kclient" where
  "holding x = (canned [])\<lparr>kc_get := (\<lambda>ns n w. (Inr x, w))\<rparr>"

lemma holding_calls [simp]:
  "kget (holding x) ns n s = Some (Inr x, s)"
  "kupdate (holding x) mk y s = Some (Inr y, log_event (Updated (mk y) None) s)"
  by (simp_all add: holding_def canned_def kget_def kupdate_def in_world_def)

definition other_secondary :: SecondaryScheduler where
  "other_secondary = (new_secondary_scheduler ''img'')\<lparr>ss_SchedulerConfig := ''other''\<rparr>"

definition other_scheduler :: OpenshiftScheduler where
  "other_scheduler = \<lparr>osch_Meta = object_meta [] ''cluster'' None, osch_PolicyName = ''other''\<rparr>"

definition third_party_cluster :: "unit cluster" where
  "third_party_cluster = quiet_cluster\<lparr>k_SecondarySchedulers := holding other_secondary,
     k_Schedulers := holding other_scheduler\<rparr>"

theorem third_party_schedulers_untouched_witness:
  "patchSecondaryScheduler third_party_cluster (example_csi PlatformOpenShift) (start ())
      = Some (Some (ErrorText existing3rdPartySecondarySchedulerErrMsg), start ())
   \<and> unpatchSecondaryScheduler third_party_cluster (start ()) = Some (None, start ())
   \<and> (\<exists>m. unpatchScheduler third_party_cluster openshiftSchedulerPolicyConfigMapName (start ())
        = Some (Some (ErrorText m), start ()))"
proof -
  have sch: "sp_Scheduler (dep_Spec (example_csi PlatformOpenShift)) = Some example_scheduler"
    by (simp add: example_csi_def)
  have "kget (k_SecondarySchedulers third_party_cluster) OpenshiftSecondarySchedulerNamespace
      openshiftSchedulerResourceName (start ()) = Some (Inr other_secondary, start ())"
    "ss_SchedulerConfig other_secondary \<noteq> csiOpenshiftSecondarySchedulerConfigMapName"
    "kget (k_Schedulers third_party_cluster) [] ''cluster'' (start ()) = Some (Inr other_scheduler, start ())"
    "osch_PolicyName other_scheduler \<notin> {[], openshiftSchedulerPolicyConfigMapName}"
    by (simp_all add: third_party_cluster_def other_secondary_def other_scheduler_def
        csiOpenshiftSecondarySchedulerConfigMapName_def openshiftSchedulerPolicyConfigMapName_def)
  with third_party_schedulers_untouched [OF sch, of third_party_cluster "start ()" openshiftSchedulerPolicyConfigMapName]
  show ?thesis by blast
qed

definition sched_cluster :: "(string \<times> string \<Rightarrow> OpenshiftScheduler option) cluster" where
  "sched_cluster = quiet_cluster\<lparr>k_Schedulers := store_client osch_Meta\<rparr>"

definition sched_world :: "string \<Rightarrow> string \<times> string \<Rightarrow> OpenshiftScheduler option" where
  "sched_world policy = [([], ''cluster'') \<mapsto>
     \<lparr>osch_Meta = object_meta [] ''cluster'' None, osch_PolicyName = policy\<rparr>]"

theorem patchScheduler_roundtrip_witness:
  "\<exists>t u. patchScheduler sched_cluster ''policy'' (start (sched_world [])) = Some (None, t)
     \<and> unpatchScheduler sched_cluster ''policy'' t = Some (None, u)
     \<and> (\<exists>z. stored osch_Meta (world u) [] ''cluster'' = Some z \<and> osch_PolicyName z = [])"
proof -
  have law: "truthful (k_Schedulers sched_cluster) osch_Meta (stored osch_Meta)
      (\<lambda>x z. osch_PolicyName z \<noteq> osch_PolicyName x)"
    by (simp add: sched_cluster_def truthful_store)
  have c: "k_Schedulers sched_cluster = store_client osch_Meta"
    by (simp add: sched_cluster_def)
  obtain t where t: "patchScheduler sched_cluster ''policy'' (start (sched_world [])) = Some (None, t)"
    "world t = sched_world ''policy''"
    by (simp add: patchScheduler_def c store_client_def kget_def kupdate_def in_world_def stored_def
        sched_world_def put_def)
  obtain u where u: "unpatchScheduler sched_cluster ''policy'' t = Some (None, u)"
    by (simp add: unpatchScheduler_def c store_client_def kget_def kupdate_def in_world_def stored_def
        t(2) sched_world_def)
  from patchScheduler_roundtrip [OF law t(1) u] t(1) u show ?thesis by auto
qed

theorem isTimeoutPassed_bounds_witness:
  "isTimeoutPassed 10 0 (60 * 10 ^ 9 * 10 + 1) \<and> \<not> isTimeoutPassed 10 0 (60 * 10 ^ 9 * 10)"
  using isTimeoutPassed_bounds [of 10 0 "60 * 10 ^ 9 * 10 + 1"] isTimeoutPassed_bounds [of 10 0 "60 * 10 ^ 9 * 10"]
  by simp

definition ready_pod :: Pod where
  "ready_pod = \<lparr>p_Meta = object_meta ''ns'' ''sched'' None, p_NodeName = ''n1'', p_Phase = ''Running'',
     p_PodIP = [], p_ContainerStatuses = [\<lparr>cs_RunningStartedAt = Some 5\<rparr>]\<rparr>"

definition ready_cluster :: "unit cluster" where
  "ready_cluster = quiet_cluster\<lparr>k_ConfigMaps := holding example_cm, k_Pods := canned [ready_pod]\<rparr>"

theorem secondary_scheduler_never_retried_witness:
  "\<exists>t. UpdateReadinessConfigMap ready_cluster
      (NewPodSecurityPolicyVerifier ready_cluster NewMatcher example_rule)
      (example_csi PlatformOpenShift) True new_patcher (start ()) = Some (None, new_patcher, t)
    \<and> (\<forall>e \<in> set (new_events (start ()) t). is_pause e \<or> event_kind e = Some K_ConfigMap)"
proof -
  have f: "k_ConfigMaps ready_cluster = holding example_cm" "k_Pods ready_cluster = canned [ready_pod]"
    "k_Nodes ready_cluster = canned []" "lib_YamlReadiness ready_cluster = (\<lambda>x. Inr ''nodes'')"
    "\<And>m. set_owner ready_cluster csi m = Inr m" "\<And>s. now ready_cluster s = Some (0, s)" for csi
    by (simp_all add: ready_cluster_def set_owner_def now_def in_world_def)
  have p: "poll_statuses ready_cluster lbl 0 iv 12 [] (start ()) = Some (Inr [pod_status 0 ready_pod], start ())" for lbl iv
    by (simp add: eval_nat_numeral updateReadinessStatuses_def f pod_status_def pod_restarted_def ready_pod_def)
  have o': "NewExtenderReadinessOptions (example_csi PlatformOpenShift) True \<noteq> None"
    "\<And>e. NewExtenderReadinessOptions (example_csi PlatformOpenShift) True \<noteq> Some (Inl e)"
    by (simp_all add: NewExtenderReadinessOptions_def ChooseKubeSchedulerLabel_def example_csi_def)
  obtain opt where opt: "NewExtenderReadinessOptions (example_csi PlatformOpenShift) True = Some (Inr opt)"
    using o' by (metis option.exhaust sum.exhaust)
  have cm: "m_CreationTimestamp (cm_Meta example_cm) = 0"
    by (simp add: example_cm_def object_meta_def)
  obtain pat where pat: "spec_patcher (example_csi PlatformOpenShift) = Some pat"
    by (simp add: spec_patcher_def example_csi_def example_scheduler_def)
  have "\<exists>t. UpdateReadinessConfigMap ready_cluster
      (NewPodSecurityPolicyVerifier ready_cluster NewMatcher example_rule)
      (example_csi PlatformOpenShift) True new_patcher (start ()) = Some (None, new_patcher, t)"
    by (simp add: UpdateReadinessConfigMap_def opt getConfigMapCreationTime_def f
        updateReadinessStatusesForOpenshiftSecondaryScheduler_def p createReadinessConfigMap_def
        UpdateConfigMap_def readinessMaxRetiresForOpenshiftSecondaryScheduler_def cm pat)
  then show ?thesis using secondary_scheduler_never_retried by blast
qed

theorem secondary_scheduler_decided_once_witness:
  "\<exists>p. reachable (quiet_cluster :: unit cluster) (NewPodSecurityPolicyVerifier quiet_cluster NewMatcher example_rule) p
     \<and> pa_KubernetesVersion p \<noteq> [] \<and> version_ok p"
proof -
  let ?k = "quiet_cluster :: unit cluster"
  let ?v = "NewPodSecurityPolicyVerifier ?k NewMatcher example_rule"
  have a: "Atoi ''1'' = Inr 1" "Atoi ''22'' = Inr 22"
    by (simp_all add: Atoi_def is_digit_def)
  have sv: "server_version ?k s = Some (Inr (''1'', ''22''), s)" for s
    by (simp add: server_version_def in_world_def)
  have "\<exists>err p t. patcher_Uninstall ?k (example_csi PlatformOpenShift) new_patcher (start ())
      = Some (err, p, t) \<and> pa_KubernetesVersion p \<noteq> []"
    by (simp add: patcher_Uninstall_def IsPatchingEnabled_def spec_patcher_def example_csi_def
        example_scheduler_def isPlatformSupported_def unPatchOpenShift_def useOpenshiftSecondaryScheduler_def
        new_patcher_def sv a openshift_config_key_def unpatchScheduler_def Let_def)
  then obtain err p t where
    u: "patcher_Uninstall ?k (example_csi PlatformOpenShift) new_patcher (start ()) = Some (err, p, t)"
    and n: "pa_KubernetesVersion p \<noteq> []" by blast
  from reachable.uninstall [OF reachable.new u] have r: "reachable ?k ?v p" .
  from secondary_scheduler_decided_once [OF r] r n show ?thesis by blast
qed

end
