(* ===== verification/NodeOps.thy ===== *)
theory NodeOps
  imports NodeDaemonSet
begin

text \<open>
  The package \<open>pkg/nodeoperations\<close>: node removal and node maintenance.

  A csibmnode carries the label \<open>node.dell.com/drain=drain\<close> while its cluster node carries
  the taint of the same key, value and effect; once a labelled csibmnode has no cluster
  node any more, its drives, capacities, volume groups and volumes are deleted and then the
  csibmnode itself. On a node with the maintenance taint the CSI pods that no daemonset
  owns are deleted.
\<close>

section \<open>Taints and labels\<close>

definition nodeOperationalTaintKey :: string where
  "nodeOperationalTaintKey = ''node.dell.com/drain''"

definition mTaint :: Taint where
  "mTaint = \<lparr>t_Key = nodeOperationalTaintKey, t_Value = ''planned-downtime'',
     t_Effect = ''NoSchedule'', t_TimeAdded = None\<rparr>"

definition rTaint :: Taint where
  "rTaint = \<lparr>t_Key = nodeOperationalTaintKey, t_Value = ''drain'',
     t_Effect = ''NoSchedule'', t_TimeAdded = None\<rparr>"

definition hasTaint :: "CoreNode option \<Rightarrow> Taint \<Rightarrow> bool" where
  "hasTaint node_ptr taintToFind =
     (case node_ptr of
        None \<Rightarrow> False
      | Some n \<Rightarrow> list_ex (\<lambda>taint. t_Key taint = t_Key taintToFind
            \<and> t_Value taint = t_Value taintToFind \<and> t_Effect taint = t_Effect taintToFind)
          (slice (n_Taints n)))"

definition getMapIsNodesTainted :: "CoreNode list \<Rightarrow> Taint \<Rightarrow> (string, bool) fmap" where
  "getMapIsNodesTainted nodes taintToFind =
     fold (\<lambda>n m. fmupd (m_Name (n_Meta n)) (hasTaint (Some n) taintToFind) m) nodes fmempty"

definition getNodeName :: "CsibmNode \<Rightarrow> string" where
  "getNodeName csibmnode = map_index (bn_Addresses csibmnode) ''Hostname''"

abbreviation bn_Labels :: "CsibmNode \<Rightarrow> gomap" where
  "bn_Labels b \<equiv> m_Labels (bn_Meta b)"

definition addNodeRemovalLabel :: "CsibmNode \<Rightarrow> CsibmNode" where
  "addNodeRemovalLabel csibmnode =
     (let labels = (case bn_Labels csibmnode of None \<Rightarrow> fmempty | Some m \<Rightarrow> m)
      in csibmnode\<lparr>bn_Meta := (bn_Meta csibmnode)
           \<lparr>m_Labels := Some (fmupd (t_Key rTaint) (t_Value rTaint) labels)\<rparr>\<rparr>)"

definition deleteNodeRemovalLabel :: "CsibmNode \<Rightarrow> CsibmNode" where
  "deleteNodeRemovalLabel csibmnode =
     csibmnode\<lparr>bn_Meta := (bn_Meta csibmnode)
       \<lparr>m_Labels := map_delete (bn_Labels csibmnode) (t_Key rTaint)\<rparr>\<rparr>"

section \<open>Deleting the resources of a node (\<open>delete_objects.go\<close>)\<close>

text \<open>What \<open>deleteObject\<close> needs of a \<open>client.Object\<close>: its client, kind and metadata.\<close>

record ('o, 'w) resource =
  rs_Client :: "('o, 'w) kclient"
  rs_Mk :: "'o \<Rightarrow> obj"
  rs_Kind :: kind
  rs_Meta :: "'o \<Rightarrow> ObjectMeta"
  rs_SetFinalizers :: "string list \<Rightarrow> 'o \<Rightarrow> 'o"

definition drive_res :: "'w cluster \<Rightarrow> (Drive, 'w) resource" where
  "drive_res k = \<lparr>rs_Client = k_Drives k, rs_Mk = O_Drive, rs_Kind = K_Drive, rs_Meta = dr_Meta,
     rs_SetFinalizers = (\<lambda>f x. x\<lparr>dr_Meta := (dr_Meta x)\<lparr>m_Finalizers := f\<rparr>\<rparr>)\<rparr>"

definition ac_res :: "'w cluster \<Rightarrow> (AvailableCapacity, 'w) resource" where
  "ac_res k = \<lparr>rs_Client = k_ACs k, rs_Mk = O_AvailableCapacity, rs_Kind = K_AvailableCapacity,
     rs_Meta = ac_Meta, rs_SetFinalizers = (\<lambda>f x. x\<lparr>ac_Meta := (ac_Meta x)\<lparr>m_Finalizers := f\<rparr>\<rparr>)\<rparr>"

definition lvg_res :: "'w cluster \<Rightarrow> (LogicalVolumeGroup, 'w) resource" where
  "lvg_res k = \<lparr>rs_Client = k_LVGs k, rs_Mk = O_LogicalVolumeGroup, rs_Kind = K_LogicalVolumeGroup,
     rs_Meta = lvg_Meta, rs_SetFinalizers = (\<lambda>f x. x\<lparr>lvg_Meta := (lvg_Meta x)\<lparr>m_Finalizers := f\<rparr>\<rparr>)\<rparr>"

definition volume_res :: "'w cluster \<Rightarrow> (CsiVolume, 'w) resource" where
  "volume_res k = \<lparr>rs_Client = k_Volumes k, rs_Mk = O_CsiVolume, rs_Kind = K_CsiVolume,
     rs_Meta = cv_Meta, rs_SetFinalizers = (\<lambda>f x. x\<lparr>cv_Meta := (cv_Meta x)\<lparr>m_Finalizers := f\<rparr>\<rparr>)\<rparr>"

definition csibmnode_res :: "'w cluster \<Rightarrow> (CsibmNode, 'w) resource" where
  "csibmnode_res k = \<lparr>rs_Client = k_CsibmNodes k, rs_Mk = O_CsibmNode, rs_Kind = K_CsibmNode,
     rs_Meta = bn_Meta, rs_SetFinalizers = (\<lambda>f x. x\<lparr>bn_Meta := (bn_Meta x)\<lparr>m_Finalizers := f\<rparr>\<rparr>)\<rparr>"

lemmas resource_defs = drive_res_def ac_res_def lvg_res_def volume_res_def csibmnode_res_def

text \<open>A call that succeeds overwrites the object it was given with the server's answer.\<close>

definition answered :: "goerr + 'o \<Rightarrow> 'o \<Rightarrow> 'o" where
  "answered r x = (case r of Inl _ \<Rightarrow> x | Inr y \<Rightarrow> y)"

definition deleteObject ::
  "('o, 'w) resource \<Rightarrow> 'o \<Rightarrow> bool \<Rightarrow> 'w sys \<Rightarrow> (goerr option \<times> 'w sys) option" where
  "deleteObject rs x patchFinalizer s = do {
     (errors, x, s) \<leftarrow>
       (if patchFinalizer \<and> m_Finalizers (rs_Meta rs x) \<noteq> [] then do {
          let x = rs_SetFinalizers rs [] x;
          (u, s) \<leftarrow> kupdate (rs_Client rs) (rs_Mk rs) x s;
          let x = answered u x;
          (g, s) \<leftarrow> kget (rs_Client rs) (m_Namespace (rs_Meta rs x)) (m_Name (rs_Meta rs x)) s;
          Some (add_error (err_of g) (add_error (err_of u) []), answered g x, s)
        } else Some ([], x, s));
     (d, s) \<leftarrow> kdelete (rs_Client rs) (rs_Kind rs)
                 (m_Namespace (rs_Meta rs x)) (m_Name (rs_Meta rs x)) s;
     Some (join_errors (add_error d errors), s)
   }"

definition deleteDrives :: "'w cluster \<Rightarrow> string \<Rightarrow> 'w sys \<Rightarrow> (goerr option \<times> 'w sys) option" where
  "deleteDrives k nodeID s = do {
     (r, s) \<leftarrow> klist (k_Drives k) list_all_objects s;
     case r of
       Inl err \<Rightarrow> Some (Some err, s)
     | Inr drives \<Rightarrow> do {
         (errors, s) \<leftarrow> for_errors (\<lambda>drive s.
             if dr_NodeId drive = nodeID then deleteObject (drive_res k) drive False s
             else Some (None, s)) drives s;
         Some (join_errors errors, s)
       }
   }"

definition deleteACs :: "'w cluster \<Rightarrow> string \<Rightarrow> 'w sys \<Rightarrow> (goerr option \<times> 'w sys) option" where
  "deleteACs k nodeID s = do {
     (r, s) \<leftarrow> klist (k_ACs k) list_all_objects s;
     case r of
       Inl err \<Rightarrow> Some (Some err, s)
     | Inr acs \<Rightarrow> do {
         (errors, s) \<leftarrow> for_errors (\<lambda>ac s.
             if ac_NodeId ac = nodeID then deleteObject (ac_res k) ac False s
             else Some (None, s)) acs s;
         Some (join_errors errors, s)
       }
   }"

definition deleteLVGs :: "'w cluster \<Rightarrow> string \<Rightarrow> 'w sys \<Rightarrow> (goerr option \<times> 'w sys) option" where
  "deleteLVGs k nodeID s = do {
     (r, s) \<leftarrow> klist (k_LVGs k) list_all_objects s;
     case r of
       Inl err \<Rightarrow> Some (Some err, s)
     | Inr lvgs \<Rightarrow> do {
         (errors, s) \<leftarrow> for_errors (\<lambda>lvg s.
             if lvg_Node lvg = nodeID then deleteObject (lvg_res k) lvg True s
             else Some (None, s)) lvgs s;
         Some (join_errors errors, s)
       }
   }"

definition deleteVolumes :: "'w cluster \<Rightarrow> string \<Rightarrow> 'w sys \<Rightarrow> (goerr option \<times> 'w sys) option" where
  "deleteVolumes k nodeID s = do {
     (r, s) \<leftarrow> klist (k_Volumes k) list_all_objects s;
     case r of
       Inl err \<Rightarrow> Some (Some err, s)
     | Inr volumes \<Rightarrow> do {
         (errors, s) \<leftarrow> for_errors (\<lambda>volume s.
             if cv_NodeId volume = nodeID then deleteObject (volume_res k) volume True s
             else Some (None, s)) volumes s;
         Some (join_errors errors, s)
       }
   }"

definition deleteCSIResources ::
  "'w cluster \<Rightarrow> CsibmNode \<Rightarrow> 'w sys \<Rightarrow> (goerr option \<times> 'w sys) option" where
  "deleteCSIResources k csibmnode s = do {
     let nodeID = bn_UUID csibmnode;
     (e1, s) \<leftarrow> deleteDrives k nodeID s;
     (e2, s) \<leftarrow> deleteACs k nodeID s;
     (e3, s) \<leftarrow> deleteLVGs k nodeID s;
     (e4, s) \<leftarrow> deleteVolumes k nodeID s;
     let errors = add_error e4 (add_error e3 (add_error e2 (add_error e1 [])));
     if errors \<noteq> [] then Some (join_errors errors, s)
     else deleteObject (csibmnode_res k) csibmnode False s
   }"

section \<open>The controller (\<open>controller.go\<close>)\<close>

definition node_pod_opts :: "string \<Rightarrow> list_opts" where
  "node_pod_opts host = list_all_objects
     \<lparr>lo_Labels := GetNodeDaemonsetPodsSelector, lo_NodeName := Some host\<rparr>"

definition checkDaemonsetPodRunning ::
  "'w cluster \<Rightarrow> string \<Rightarrow> 'w sys \<Rightarrow> ((goerr + bool) \<times> 'w sys) option" where
  "checkDaemonsetPodRunning k host s = do {
     (r, s) \<leftarrow> klist (k_Pods k) (node_pod_opts host) s;
     case r of
       Inl err \<Rightarrow> Some (Inl err, s)
     | Inr pods \<Rightarrow> Some (Inr (pods \<noteq> []), s)
   }"

definition still_running_error :: "string \<Rightarrow> goerr" where
  "still_running_error host =
     ErrorText (''csi-baremetal-node pod is still running on node '' @ host)"

definition removeNode ::
  "'w cluster \<Rightarrow> CsibmNode \<Rightarrow> 'w sys \<Rightarrow> (goerr option \<times> 'w sys) option" where
  "removeNode k csibmnode s = do {
     (r, s) \<leftarrow> checkDaemonsetPodRunning k (getNodeName csibmnode) s;
     case r of
       Inl err \<Rightarrow> Some (Some err, s)
     | Inr isRunning \<Rightarrow>
         if isRunning then Some (Some (still_running_error (getNodeName csibmnode)), s)
         else deleteCSIResources k csibmnode s
   }"

definition removeNodes ::
  "'w cluster \<Rightarrow> CsibmNode list \<Rightarrow> 'w sys \<Rightarrow> (goerr option \<times> 'w sys) option" where
  "removeNodes k csibmnodes s = do {
     (errors, s) \<leftarrow> for_errors (removeNode k) csibmnodes s;
     Some (join_errors errors, s)
   }"

text \<open>The loop of \<open>handleNodeRemoval\<close>: the errors of the updates and the nodes to remove.\<close>

fun removal_loop ::
  "'w cluster \<Rightarrow> (string, bool) fmap \<Rightarrow> CsibmNode list \<Rightarrow> 'w sys \<Rightarrow>
   (goerr list \<times> CsibmNode list \<times> 'w sys) option" where
  "removal_loop k isNodesTainted [] s = Some ([], [], s)"
| "removal_loop k isNodesTainted (csibmnode # rest) s =
     (let has_label = (map_get (bn_Labels csibmnode) (t_Key rTaint) = Some (t_Value rTaint));
          has_node = (fmlookup isNodesTainted (getNodeName csibmnode) \<noteq> None);
          has_taint = (fmlookup isNodesTainted (getNodeName csibmnode) = Some True)
      in
        if has_label \<and> \<not> has_node then do {
          (errors, removing, s) \<leftarrow> removal_loop k isNodesTainted rest s;
          Some (errors, csibmnode # removing, s)
        } else do {
          let (b, needUpdate) = (csibmnode, False);
          let (b, needUpdate) =
            (if has_node \<and> \<not> has_label \<and> has_taint then (addNodeRemovalLabel b, True)
             else (b, needUpdate));
          let (b, needUpdate) =
            (if has_node \<and> has_label \<and> \<not> has_taint then (deleteNodeRemovalLabel b, True)
             else (b, needUpdate));
          (err, s) \<leftarrow>
            (if needUpdate then do {
               (u, s) \<leftarrow> kupdate (k_CsibmNodes k) O_CsibmNode b s;
               Some (err_of u, s)
             } else Some (None, s));
          (errors, removing, s) \<leftarrow> removal_loop k isNodesTainted rest s;
          Some (case err of None \<Rightarrow> errors | Some e \<Rightarrow> e # errors, removing, s)
        })"

definition handleNodeRemoval ::
  "'w cluster \<Rightarrow> CsibmNode list \<Rightarrow> CoreNode list \<Rightarrow> 'w sys \<Rightarrow> (goerr option \<times> 'w sys) option" where
  "handleNodeRemoval k csibmnodes nodes s = do {
     (errors, removingNodes, s) \<leftarrow>
       removal_loop k (getMapIsNodesTainted nodes rTaint) csibmnodes s;
     if errors \<noteq> [] then Some (join_errors errors, s)
     else removeNodes k removingNodes s
   }"

definition csi_pod_opts :: "string \<Rightarrow> list_opts" where
  "csi_pod_opts host = list_all_objects
     \<lparr>lo_Labels := map (\<lambda>(key, v). (key, Some v)) ConstructLabelAppMap, lo_NodeName := Some host\<rparr>"

text \<open>The body of the loop over the pods. \<open>pod.OwnerReferences[0]\<close> panics on a pod
  without owner references.\<close>

definition deleteCSIPod ::
  "'w cluster \<Rightarrow> Pod \<Rightarrow> 'w sys \<Rightarrow> (goerr option \<times> 'w sys) option" where
  "deleteCSIPod k pod s =
     (if length (m_OwnerReferences (p_Meta pod)) > 1 then Some (None, s)
      else case m_OwnerReferences (p_Meta pod) of
        [] \<Rightarrow> None
      | owner # _ \<Rightarrow>
          if own_Kind owner = ''DaemonSet'' then Some (None, s)
          else kdelete (k_Pods k) K_Pod (m_Namespace (p_Meta pod)) (m_Name (p_Meta pod)) s)"

definition deleteCSIPods ::
  "'w cluster \<Rightarrow> string \<Rightarrow> 'w sys \<Rightarrow> (goerr option \<times> 'w sys) option" where
  "deleteCSIPods k host s = do {
     (r, s) \<leftarrow> klist (k_Pods k) (csi_pod_opts host) s;
     case r of
       Inl err \<Rightarrow> Some (Some err, s)
     | Inr pods \<Rightarrow> do {
         (errors, s) \<leftarrow> for_errors (deleteCSIPod k) pods s;
         Some (join_errors errors, s)
       }
   }"

definition handleNodeMaintenance ::
  "'w cluster \<Rightarrow> CoreNode list \<Rightarrow> 'w sys \<Rightarrow> (goerr option \<times> 'w sys) option" where
  "handleNodeMaintenance k nodes s = do {
     (errors, s) \<leftarrow> for_errors (\<lambda>n s.
         if hasTaint (Some n) mTaint then deleteCSIPods k (m_Name (n_Meta n)) s
         else Some (None, s)) nodes s;
     Some (join_errors errors, s)
   }"

definition node_ops_reconcile ::
  "'w cluster \<Rightarrow> Deployment option \<Rightarrow> 'w sys \<Rightarrow> (goerr option \<times> 'w sys) option" where
  "node_ops_reconcile k csi s = do {
     let nodeSelector = (case csi of Some d \<Rightarrow> sp_NodeSelector (dep_Spec d) | None \<Rightarrow> None);
     (r, s) \<leftarrow> GetSelectedNodes k nodeSelector s;
     case r of
       Inl _ \<Rightarrow> Some (None, s)
     | Inr nodes \<Rightarrow> do {
         (r, s) \<leftarrow> klist (k_CsibmNodes k) list_all_objects s;
         case r of
           Inl _ \<Rightarrow> Some (None, s)
         | Inr csibmnodes \<Rightarrow> do {
             (e1, s) \<leftarrow> handleNodeRemoval k csibmnodes nodes s;
             (e2, s) \<leftarrow> handleNodeMaintenance k nodes s;
             Some (join_errors (add_error e2 (add_error e1 [])), s)
           }
       }
   }"

section \<open>Deleting objects\<close>

lemma deleteObject_returns [simp]: "deleteObject rs x p s \<noteq> None"
  by (auto simp: deleteObject_def Let_def split: Option.bind_splits prod.splits if_splits)

text \<open>What \<open>deleteObject\<close> appends: an update of the object without finalizers, if asked
  for and needed, and one delete; it reports success only if both succeeded.\<close>

lemma deleteObject_cases:
  assumes "deleteObject rs x p s = Some (err, t)"
  obtains (plain) r where
      "\<not> (p \<and> m_Finalizers (rs_Meta rs x) \<noteq> [])"
      "trace t = trace s @ [Deleted (rs_Kind rs) (m_Namespace (rs_Meta rs x)) (m_Name (rs_Meta rs x)) r]"
      "err = None \<longleftrightarrow> r = None"
  | (patched) u r y where
      "p" "m_Finalizers (rs_Meta rs x) \<noteq> []"
      "trace t = trace s @ [Updated (rs_Mk rs (rs_SetFinalizers rs [] x)) u,
         Deleted (rs_Kind rs) (m_Namespace (rs_Meta rs y)) (m_Name (rs_Meta rs y)) r]"
      "err = None \<longrightarrow> u = None \<and> r = None"
      "same_key (rs_Client rs) (rs_Meta rs) \<Longrightarrow>
         m_Namespace (rs_Meta rs y) = m_Namespace (rs_Meta rs (rs_SetFinalizers rs [] x)) \<and>
         m_Name (rs_Meta rs y) = m_Name (rs_Meta rs (rs_SetFinalizers rs [] x))"
proof (cases "p \<and> m_Finalizers (rs_Meta rs x) \<noteq> []")
  case False
  with assms show ?thesis
    by (auto simp: deleteObject_def dest!: kdelete_trace split: Option.bind_splits intro!: plain)
next
  case True
  let ?x = "rs_SetFinalizers rs [] x"
  from True assms obtain u s1 g s2 r where
    u: "kupdate (rs_Client rs) (rs_Mk rs) ?x s = Some (u, s1)" and
    g: "kget (rs_Client rs) (m_Namespace (rs_Meta rs (answered u ?x)))
          (m_Name (rs_Meta rs (answered u ?x))) s1 = Some (g, s2)" and
    d: "kdelete (rs_Client rs) (rs_Kind rs) (m_Namespace (rs_Meta rs (answered g (answered u ?x))))
          (m_Name (rs_Meta rs (answered g (answered u ?x)))) s2 = Some (r, t)" and
    e: "err = join_errors (add_error r (add_error (err_of g) (add_error (err_of u) [])))"
    by (auto simp: deleteObject_def Let_def split: Option.bind_splits)
  from u g d have tr: "trace t = trace s @ [Updated (rs_Mk rs ?x) (err_of u),
      Deleted (rs_Kind rs) (m_Namespace (rs_Meta rs (answered g (answered u ?x))))
        (m_Name (rs_Meta rs (answered g (answered u ?x)))) r]"
    by (simp add: kget_silent kupdate_trace kdelete_trace)
  have key: "m_Namespace (rs_Meta rs (answered g (answered u ?x))) = m_Namespace (rs_Meta rs ?x) \<and>
      m_Name (rs_Meta rs (answered g (answered u ?x))) = m_Name (rs_Meta rs ?x)"
    if "same_key (rs_Client rs) (rs_Meta rs)"
    using kupdate_same_key [OF that] kget_same_key [OF that] u g
    by (cases u; cases g) (auto simp: answered_def)
  show ?thesis
    using True tr e key by (intro patched [of "err_of u" "answered g (answered u ?x)" r]) auto
qed

lemma deleteObject_kinds:
  assumes "deleteObject rs x p s = Some (err, t)" and "\<And>y. kind_of (rs_Mk rs y) = rs_Kind rs"
  shows "emits (\<lambda>e. event_kind e = Some (rs_Kind rs)) s t"
  using assms(1)
  by (cases rule: deleteObject_cases) (simp_all add: emits_def assms(2))

lemma deleteObject_success:
  assumes "deleteObject rs x p s = Some (None, t)"
  shows "emits (\<lambda>e. event_error e = None) s t"
  using assms
  by (cases rule: deleteObject_cases) (simp_all add: emits_def)

text \<open>
  The four procedures that delete the objects of one kind on a node share this contract:
  list, delete what belongs to the node, join the errors.
\<close>

locale node_resource =
  fixes del :: "'w cluster \<Rightarrow> string \<Rightarrow> 'w sys \<Rightarrow> (goerr option \<times> 'w sys) option"
    and res :: "'w cluster \<Rightarrow> ('o, 'w) resource"
    and node_of :: "'o \<Rightarrow> string"
    and patches :: bool
    and res_kind :: kind
  assumes del_eq: "del k nodeID s = do {
      (r, s) \<leftarrow> klist (rs_Client (res k)) list_all_objects s;
      case r of
        Inl err \<Rightarrow> Some (Some err, s)
      | Inr xs \<Rightarrow> do {
          (errors, s) \<leftarrow> for_errors (\<lambda>x s.
              if node_of x = nodeID then deleteObject (res k) x patches s
              else Some (None, s)) xs s;
          Some (join_errors errors, s)
        }
    }"
    and res_kind: "rs_Kind (res k) = res_kind" "kind_of (rs_Mk (res k) x) = res_kind"
    and finalizers_key:
      "m_Namespace (rs_Meta (res k) (rs_SetFinalizers (res k) [] x)) = m_Namespace (rs_Meta (res k) x)"
      "m_Name (rs_Meta (res k) (rs_SetFinalizers (res k) [] x)) = m_Name (rs_Meta (res k) x)"
begin

lemma loop_returns:
  "\<exists>errors t. for_errors (\<lambda>x s. if node_of x = nodeID then deleteObject (res k) x patches s
      else Some (None, s)) xs s = Some (errors, t)"
proof -
  have "for_errors (\<lambda>x s. if node_of x = nodeID then deleteObject (res k) x patches s
      else Some (None, s)) xs s \<noteq> None"
    by (rule for_errors_total) (simp del: not_None_eq)
  then show ?thesis by auto
qed

lemma body_emits:
  assumes "(if node_of x = nodeID then deleteObject (res k) x patches s else Some (None, s)) = Some (e, t)"
    and "node_of x = nodeID \<Longrightarrow> deleteObject (res k) x patches s = Some (e, t) \<Longrightarrow> emits P s t"
  shows "emits P s t"
  using assms by (cases "node_of x = nodeID") auto

lemma run_cases:
  assumes "del k nodeID s = Some (err, t)"
  obtains (list_error) e where "err = Some e" "silent s t"
  | (deleting) xs s1 errors where
      "klist (rs_Client (res k)) list_all_objects s = Some (Inr xs, s1)"
      "for_errors (\<lambda>x s. if node_of x = nodeID then deleteObject (res k) x patches s
          else Some (None, s)) xs s1 = Some (errors, t)"
      "err = join_errors errors"
proof -
  obtain r s1 where l: "klist (rs_Client (res k)) list_all_objects s = Some (r, s1)"
    using calls_return_ex(2) by blast
  show ?thesis
  proof (cases r)
    case (Inl e)
    with assms l have "err = Some e" "s1 = t" by (auto simp: del_eq)
    with l klist_silent list_error show ?thesis by metis
  next
    case (Inr xs)
    with assms l deleting show ?thesis by (auto simp: del_eq split: Option.bind_splits)
  qed
qed

lemma returns [simp]: "del k nodeID s \<noteq> None"
proof -
  obtain r s1 where l: "klist (rs_Client (res k)) list_all_objects s = Some (r, s1)"
    using calls_return_ex(2) by blast
  show ?thesis
  proof (cases r)
    case (Inr xs)
    with l loop_returns [of nodeID k xs s1] show ?thesis by (auto simp: del_eq)
  qed (use l in \<open>simp add: del_eq\<close>)
qed

lemma object_kinds:
  "deleteObject (res k) x p s = Some (e, t) \<Longrightarrow> emits (\<lambda>e. event_kind e = Some res_kind) s t"
  using deleteObject_kinds [of "res k" x p s e t] by (simp add: res_kind)

lemma kinds: "del k nodeID s = Some (err, t) \<Longrightarrow> emits (\<lambda>e. event_kind e = Some res_kind) s t"
proof (erule run_cases)
  fix xs s1 errors
  assume 1: "klist (rs_Client (res k)) list_all_objects s = Some (Inr xs, s1)"
    and 2: "for_errors (\<lambda>x s. if node_of x = nodeID then deleteObject (res k) x patches s
          else Some (None, s)) xs s1 = Some (errors, t)"
  have "emits (\<lambda>e. event_kind e = Some res_kind) s1 t"
    by (rule for_errors_emits [OF 2]) (erule body_emits, erule object_kinds)
  with klist_silent [OF 1] show ?thesis by (rule silent_then_emits)
qed (rule silent_emits)

lemma success: "del k nodeID s = Some (None, t) \<Longrightarrow> emits (\<lambda>e. event_error e = None) s t"
proof (erule run_cases)
  fix xs s1 errors
  assume 1: "klist (rs_Client (res k)) list_all_objects s = Some (Inr xs, s1)"
    and 2: "for_errors (\<lambda>x s. if node_of x = nodeID then deleteObject (res k) x patches s
          else Some (None, s)) xs s1 = Some (errors, t)" and 3: "None = join_errors errors"
  from 3 have "errors = []" by (simp add: join_errors_def split: if_splits)
  with 2 have 4: "for_errors (\<lambda>x s. if node_of x = nodeID then deleteObject (res k) x patches s
          else Some (None, s)) xs s1 = Some ([], t)" by simp
  have "emits (\<lambda>e. event_error e = None) s1 t"
    by (rule for_errors_emits_ok [OF 4]) (erule body_emits, erule deleteObject_success)
  with klist_silent [OF 1] show ?thesis by (rule silent_then_emits)
qed simp

end

interpretation drives: node_resource deleteDrives drive_res dr_NodeId False K_Drive
  by unfold_locales (auto simp: deleteDrives_def drive_res_def)

interpretation acs: node_resource deleteACs ac_res ac_NodeId False K_AvailableCapacity
  by unfold_locales (auto simp: deleteACs_def ac_res_def)

interpretation lvgs: node_resource deleteLVGs lvg_res lvg_Node True K_LogicalVolumeGroup
  by unfold_locales (auto simp: deleteLVGs_def lvg_res_def)

interpretation volumes: node_resource deleteVolumes volume_res cv_NodeId True K_CsiVolume
  by unfold_locales (auto simp: deleteVolumes_def volume_res_def)

end
