(* ===== verification/NodeRemoval.thy ===== *)
theory NodeRemoval
  imports NodeOps ExampleCluster
begin

text \<open>
  What the node operations guarantee: the decision table of node removal and its
  refinement by the loop of \<open>handleNodeRemoval\<close>, and which pods node maintenance deletes.
  What they owe to the answers they got is in \<open>NodeAudit\<close>.
\<close>

section \<open>The decision table\<close>

datatype removal_action = Remove | AddLabel | DropLabel | Keep

definition labelled :: "CsibmNode \<Rightarrow> bool" where
  "labelled b \<longleftrightarrow> map_get (bn_Labels b) (t_Key rTaint) = Some (t_Value rTaint)"

text \<open>The cluster node a csibmnode stands for, by host name.\<close>

definition cluster_node :: "CoreNode list \<Rightarrow> CsibmNode \<Rightarrow> CoreNode option" where
  "cluster_node nodes b = find (\<lambda>n. m_Name (n_Meta n) = getNodeName b) (rev nodes)"

definition removal_action :: "CoreNode list \<Rightarrow> CsibmNode \<Rightarrow> removal_action" where
  "removal_action nodes b =
     (case cluster_node nodes b of
        None \<Rightarrow> if labelled b then Remove else Keep
      | Some n \<Rightarrow>
          if hasTaint (Some n) rTaint = labelled b then Keep
          else if labelled b then DropLabel else AddLabel)"

definition relabel :: "CoreNode list \<Rightarrow> CsibmNode \<Rightarrow> CsibmNode option" where
  "relabel nodes b =
     (case removal_action nodes b of
        AddLabel \<Rightarrow> Some (addNodeRemovalLabel b)
      | DropLabel \<Rightarrow> Some (deleteNodeRemovalLabel b)
      | _ \<Rightarrow> None)"

lemma find_append: "find P (xs @ ys) = (case find P xs of None \<Rightarrow> find P ys | Some x \<Rightarrow> Some x)"
  by (induction xs) simp_all

lemma getMapIsNodesTainted_lookup:
  "fmlookup (getMapIsNodesTainted nodes t) h =
     map_option (\<lambda>n. hasTaint (Some n) t) (find (\<lambda>n. m_Name (n_Meta n) = h) (rev nodes))"
proof -
  have "fmlookup (fold (\<lambda>n m. fmupd (m_Name (n_Meta n)) (hasTaint (Some n) t) m) nodes m0) h =
      (case find (\<lambda>n. m_Name (n_Meta n) = h) (rev nodes) of
         None \<Rightarrow> fmlookup m0 h | Some n \<Rightarrow> Some (hasTaint (Some n) t))" for m0
    by (induction nodes arbitrary: m0) (auto simp: find_append split: option.splits)
  then show ?thesis
    by (simp add: getMapIsNodesTainted_def split: option.splits)
qed

lemma labelled_add [simp]: "labelled (addNodeRemovalLabel b)"
  by (simp add: labelled_def addNodeRemovalLabel_def Let_def)

lemma labelled_delete [simp]: "\<not> labelled (deleteNodeRemovalLabel b)"
  by (simp add: labelled_def deleteNodeRemovalLabel_def)

lemma getNodeName_relabelled [simp]:
  "getNodeName (addNodeRemovalLabel b) = getNodeName b"
  "getNodeName (deleteNodeRemovalLabel b) = getNodeName b"
  by (simp_all add: getNodeName_def addNodeRemovalLabel_def deleteNodeRemovalLabel_def Let_def)

lemma cluster_node_relabelled [simp]:
  "cluster_node nodes (addNodeRemovalLabel b) = cluster_node nodes b"
  "cluster_node nodes (deleteNodeRemovalLabel b) = cluster_node nodes b"
  by (simp_all add: cluster_node_def)

lemma cluster_node_None: "cluster_node nodes b = None \<longleftrightarrow> getNodeName b \<notin> (\<lambda>n. m_Name (n_Meta n)) ` set nodes"
  by (force simp: cluster_node_def find_None_iff)

text \<open>One iteration of the loop, in terms of the table.\<close>

lemma removal_loop_Cons:
  "removal_loop k (getMapIsNodesTainted nodes rTaint) (b # bs) s =
     (case removal_action nodes b of
        Remove \<Rightarrow> do {
          (errors, removing, s) \<leftarrow> removal_loop k (getMapIsNodesTainted nodes rTaint) bs s;
          Some (errors, b # removing, s)
        }
      | _ \<Rightarrow> do {
          (err, s) \<leftarrow>
            (case relabel nodes b of
               None \<Rightarrow> Some (None, s)
             | Some b' \<Rightarrow> do {
                 (u, s) \<leftarrow> kupdate (k_CsibmNodes k) O_CsibmNode b' s;
                 Some (err_of u, s)
               });
          (errors, removing, s) \<leftarrow> removal_loop k (getMapIsNodesTainted nodes rTaint) bs s;
          Some (case err of None \<Rightarrow> errors | Some e \<Rightarrow> e # errors, removing, s)
        })"
  by (cases "cluster_node nodes b"; cases "labelled b";
      cases "hasTaint (Some (the (cluster_node nodes b))) rTaint")
    (simp_all add: getMapIsNodesTainted_lookup removal_action_def relabel_def
      cluster_node_def [symmetric] labelled_def [symmetric])

declare removal_loop.simps(2) [simp del]

definition updates :: "CsibmNode list \<Rightarrow> goerr option list \<Rightarrow> event list" where
  "updates bs rs = map2 (\<lambda>b r. Updated (O_CsibmNode b) r) bs rs"

lemma removal_loop_refines:
  assumes "removal_loop k (getMapIsNodesTainted nodes rTaint) bs s = Some (errors, removing, t)"
  shows "\<exists>rs. length rs = length (List.map_filter (relabel nodes) bs)
       \<and> trace t = trace s @ updates (List.map_filter (relabel nodes) bs) rs
       \<and> errors = somes rs
       \<and> removing = filter (\<lambda>b. removal_action nodes b = Remove) bs"
  using assms
proof (induction bs arbitrary: s errors removing)
  case Nil
  then show ?case by (auto simp: updates_def map_filter_simps)
next
  case (Cons b bs)
  show ?case
  proof (cases "relabel nodes b")
    case None
    then have "removal_action nodes b = Remove \<or> removal_action nodes b = Keep"
      by (cases "removal_action nodes b") (auto simp: relabel_def)
    with Cons.prems None obtain removing' where
      l: "removal_loop k (getMapIsNodesTainted nodes rTaint) bs s = Some (errors, removing', t)" and
      r: "removing = (if removal_action nodes b = Remove then b # removing' else removing')"
      by (auto simp: removal_loop_Cons split: Option.bind_splits)
    from Cons.IH [OF l] r None show ?thesis by (auto simp: map_filter_simps)
  next
    case (Some b')
    then have a: "removal_action nodes b = AddLabel \<or> removal_action nodes b = DropLabel"
      by (cases "removal_action nodes b") (auto simp: relabel_def)
    with Cons.prems Some obtain u s1 errors' where
      k: "kupdate (k_CsibmNodes k) O_CsibmNode b' s = Some (u, s1)" and
      l: "removal_loop k (getMapIsNodesTainted nodes rTaint) bs s1 = Some (errors', removing, t)" and
      e: "errors = (case err_of u of None \<Rightarrow> errors' | Some e \<Rightarrow> e # errors')"
      by (auto simp: removal_loop_Cons split: Option.bind_splits)
    from Cons.IH [OF l] obtain rs where rs:
      "length rs = length (List.map_filter (relabel nodes) bs)"
      "trace t = trace s1 @ updates (List.map_filter (relabel nodes) bs) rs"
      "errors' = somes rs"
      "removing = filter (\<lambda>b. removal_action nodes b = Remove) bs"
      by blast
    show ?thesis
      using rs a Some e kupdate_trace [OF k]
      by (intro exI [of _ "err_of u # rs"])
        (auto simp: map_filter_simps updates_def split: option.splits)
  qed
qed

text \<open>C9. Node removal refines its decision table: \<open>handleNodeRemoval\<close> sends exactly one
  update for every csibmnode whose label and taint disagree, in list order, with the label
  set or cleared; when all of them succeed it goes on to remove exactly the labelled
  csibmnodes without a cluster node; when one fails it reports an error and removes nothing
  in this pass.\<close>

theorem handleNodeRemoval_refines_table:
  assumes "handleNodeRemoval k bs nodes s = Some (err, t)"
  shows "\<exists>rs u. length rs = length (List.map_filter (relabel nodes) bs)
       \<and> trace u = trace s @ updates (List.map_filter (relabel nodes) bs) rs
       \<and> (if list_all (\<lambda>r. r = None) rs
          then removeNodes k (filter (\<lambda>b. removal_action nodes b = Remove) bs) u = Some (err, t)
          else err = Some (Joined (somes rs)) \<and> t = u)"
proof -
  from assms obtain errors removing u where
    l: "removal_loop k (getMapIsNodesTainted nodes rTaint) bs s = Some (errors, removing, u)" and
    r: "if errors \<noteq> [] then err = join_errors errors \<and> t = u
        else removeNodes k removing u = Some (err, t)"
    by (auto simp: handleNodeRemoval_def split: Option.bind_splits if_splits)
  from removal_loop_refines [OF l] obtain rs where rs:
    "length rs = length (List.map_filter (relabel nodes) bs)"
    "trace u = trace s @ updates (List.map_filter (relabel nodes) bs) rs"
    "errors = somes rs"
    "removing = filter (\<lambda>b. removal_action nodes b = Remove) bs"
    by blast
  show ?thesis
    using r rs
    by (intro exI [of _ rs] exI [of _ u]) (auto simp: join_errors_def split: if_splits)
qed

section \<open>The resources of a removed node\<close>

lemmas resource_kinds = drives.kinds acs.kinds lvgs.kinds volumes.kinds
lemmas resource_success = drives.success acs.success lvgs.success volumes.success

definition resource_kind :: "kind \<Rightarrow> bool" where
  "resource_kind k \<longleftrightarrow> k \<in> {K_Drive, K_AvailableCapacity, K_LogicalVolumeGroup, K_CsiVolume}"

definition resource_event :: "event \<Rightarrow> bool" where
  "resource_event e \<longleftrightarrow> (\<exists>k. event_kind e = Some k \<and> resource_kind k)"

text \<open>The run of \<open>deleteCSIResources\<close>: the four deletions, then the csibmnode.\<close>

lemma deleteCSIResources_cases:
  assumes "deleteCSIResources k b s = Some (err, t)"
  obtains (kept) "err \<noteq> None" "emits resource_event s t"
  | (removed) u r where
      "emits (\<lambda>e. resource_event e \<and> event_error e = None) s u"
      "trace t = trace u @ [Deleted K_CsibmNode (m_Namespace (bn_Meta b)) (m_Name (bn_Meta b)) r]"
      "err = None \<longleftrightarrow> r = None"
proof -
  from assms obtain e1 s1 e2 s2 e3 s3 e4 s4 where
    1: "deleteDrives k (bn_UUID b) s = Some (e1, s1)" and
    2: "deleteACs k (bn_UUID b) s1 = Some (e2, s2)" and
    3: "deleteLVGs k (bn_UUID b) s2 = Some (e3, s3)" and
    4: "deleteVolumes k (bn_UUID b) s3 = Some (e4, s4)" and
    r: "if add_error e4 (add_error e3 (add_error e2 (add_error e1 []))) \<noteq> []
        then err = join_errors (add_error e4 (add_error e3 (add_error e2 (add_error e1 [])))) \<and> t = s4
        else deleteObject (csibmnode_res k) b False s4 = Some (err, t)"
    by (auto simp: deleteCSIResources_def Let_def split: Option.bind_splits if_splits)
  have kinds: "emits resource_event s s4"
  proof -
    have "emits resource_event s s1" "emits resource_event s1 s2" "emits resource_event s2 s3"
      "emits resource_event s3 s4"
      by (rule emits_mono [OF drives.kinds [OF 1]] emits_mono [OF acs.kinds [OF 2]]
          emits_mono [OF lvgs.kinds [OF 3]] emits_mono [OF volumes.kinds [OF 4]],
          simp add: resource_event_def resource_kind_def)+
    then show ?thesis by (meson emits_trans)
  qed
  show ?thesis
  proof (cases "add_error e4 (add_error e3 (add_error e2 (add_error e1 []))) = []")
    case False
    with r kinds kept show ?thesis by (simp add: join_errors_def)
  next
    case True
    then have none: "e1 = None" "e2 = None" "e3 = None" "e4 = None" by auto
    have ok: "emits (\<lambda>e. event_error e = None) s s4"
      using drives.success [OF 1 [unfolded none]] acs.success [OF 2 [unfolded none]]
        lvgs.success [OF 3 [unfolded none]] volumes.success [OF 4 [unfolded none]]
      by (meson emits_trans)
    from True r have d: "deleteObject (csibmnode_res k) b False s4 = Some (err, t)" by simp
    have "emits (\<lambda>e. resource_event e \<and> event_error e = None) s s4"
      using kinds ok by (auto simp: emits_set)
    moreover from d obtain r where
      "trace t = trace s4 @ [Deleted K_CsibmNode (m_Namespace (bn_Meta b)) (m_Name (bn_Meta b)) r]"
      "err = None \<longleftrightarrow> r = None"
      by (cases rule: deleteObject_cases) (auto simp: csibmnode_res_def)
    ultimately show ?thesis by (rule removed)
  qed
qed

section \<open>Removing one node\<close>

lemma checkDaemonsetPodRunning_silent [quiet]:
  "checkDaemonsetPodRunning k host s = Some (r, t) \<Longrightarrow> silent s t"
  by (auto simp: checkDaemonsetPodRunning_def dest: klist_silent
      split: Option.bind_splits sum.splits)

lemma removeNode_cases:
  assumes "removeNode k b s = Some (err, t)"
  obtains (skipped) "err \<noteq> None" "silent s t"
  | (cleaned) u where "checkDaemonsetPodRunning k (getNodeName b) s = Some (Inr False, u)"
      "silent s u" "deleteCSIResources k b u = Some (err, t)"
proof -
  from assms obtain r u where
    c: "checkDaemonsetPodRunning k (getNodeName b) s = Some (r, u)" and
    r: "case r of Inl e \<Rightarrow> err = Some e \<and> t = u
        | Inr True \<Rightarrow> err = Some (still_running_error (getNodeName b)) \<and> t = u
        | Inr False \<Rightarrow> deleteCSIResources k b u = Some (err, t)"
    by (auto simp: removeNode_def split: Option.bind_splits sum.splits bool.splits if_splits)
  show ?thesis
  proof (cases "r = Inr False")
    case True
    with c r cleaned checkDaemonsetPodRunning_silent [OF c] show ?thesis by simp
  next
    case False
    with c r skipped checkDaemonsetPodRunning_silent [OF c] show ?thesis
      by (auto split: sum.splits bool.splits)
  qed
qed

section \<open>Maintenance\<close>

text \<open>The pods \<open>deleteCSIPods\<close> deletes: those with exactly one owner that is no daemonset.\<close>

definition deletable :: "Pod \<Rightarrow> bool" where
  "deletable p \<longleftrightarrow> (\<exists>owner. m_OwnerReferences (p_Meta p) = [owner] \<and> own_Kind owner \<noteq> ''DaemonSet'')"

definition orphan :: "Pod \<Rightarrow> bool" where
  "orphan p \<longleftrightarrow> m_OwnerReferences (p_Meta p) = []"

definition pod_deletions :: "Pod list \<Rightarrow> goerr option list \<Rightarrow> event list" where
  "pod_deletions ps rs =
     map2 (\<lambda>p r. Deleted K_Pod (m_Namespace (p_Meta p)) (m_Name (p_Meta p)) r) ps rs"

lemma deleteCSIPod_cases:
  "deleteCSIPod k p s =
     (if orphan p then None
      else if deletable p then kdelete (k_Pods k) K_Pod (m_Namespace (p_Meta p)) (m_Name (p_Meta p)) s
      else Some (None, s))"
  by (auto simp: deleteCSIPod_def orphan_def deletable_def length_Suc_conv split: list.splits)

lemma deleteCSIPods_loop:
  "list_ex orphan ps \<and> for_errors (deleteCSIPod k) ps s = None \<or>
   \<not> list_ex orphan ps \<and>
   (\<exists>rs t. for_errors (deleteCSIPod k) ps s = Some (somes rs, t)
      \<and> length rs = length (filter deletable ps)
      \<and> trace t = trace s @ pod_deletions (filter deletable ps) rs)"
proof (induction ps arbitrary: s)
  case Nil
  then show ?case by (auto simp: pod_deletions_def intro: exI [of _ "[]"])
next
  case (Cons p ps)
  consider "orphan p" | "\<not> orphan p" "\<not> deletable p" | "\<not> orphan p" "deletable p" by blast
  then show ?case
  proof cases
    case 1
    then show ?thesis by (simp add: deleteCSIPod_cases)
  next
    case 2
    with Cons.IH [of s] show ?thesis by (auto simp: deleteCSIPod_cases)
  next
    case 3
    obtain r u where d: "kdelete (k_Pods k) K_Pod (m_Namespace (p_Meta p)) (m_Name (p_Meta p)) s = Some (r, u)"
      using calls_return_ex(5) by blast
    show ?thesis
    proof (cases "list_ex orphan ps")
      case True
      with Cons.IH [of u] d 3 show ?thesis by (auto simp: deleteCSIPod_cases)
    next
      case False
      with Cons.IH [of u] obtain rs t where
        "for_errors (deleteCSIPod k) ps u = Some (somes rs, t)"
        "length rs = length (filter deletable ps)"
        "trace t = trace u @ pod_deletions (filter deletable ps) rs" by blast
      with d 3 False kdelete_trace [OF d] show ?thesis
        by (auto simp: deleteCSIPod_cases [of k p] pod_deletions_def intro!: exI [of _ "r # rs"] exI [of _ t])
    qed
  qed
qed

text \<open>C24. Which pods node maintenance deletes: \<open>deleteCSIPods\<close> panics exactly when some listed
  pod has no owner reference (the unchecked index \<open>pod.OwnerReferences[0]\<close>); otherwise it asks
  for the deletion of every listed pod with a single owner other than a daemonset, once each
  and in list order, leaves every other pod alone, and returns the errors of the failed
  deletions.\<close>

theorem deleteCSIPods_spec:
  assumes "klist (k_Pods k) (csi_pod_opts host) s = Some (Inr pods, s1)"
  shows "(deleteCSIPods k host s = None \<longleftrightarrow> list_ex orphan pods)
       \<and> (\<not> list_ex orphan pods \<longrightarrow>
            (\<exists>rs t. deleteCSIPods k host s = Some (join_errors (somes rs), t)
               \<and> length rs = length (filter deletable pods)
               \<and> new_events s t = pod_deletions (filter deletable pods) rs))"
  using deleteCSIPods_loop [of pods k s1] klist_silent [OF assms] assms
  by (auto simp: deleteCSIPods_def)

text \<open>One pass settles the labels: after the relabelling \<open>handleNodeRemoval\<close> asks for, the
  label of the csibmnode says exactly whether its cluster node is tainted, the table asks for
  nothing more, and every other label and all else about the csibmnode is unchanged.\<close>

theorem relabel_settles:
  assumes "relabel nodes b = Some b'"
  shows "removal_action nodes b' = Keep
    \<and> (labelled b' \<longleftrightarrow> hasTaint (cluster_node nodes b) rTaint)
    \<and> (\<forall>key. key \<noteq> t_Key rTaint \<longrightarrow> map_get (bn_Labels b') key = map_get (bn_Labels b) key)
    \<and> bn_UUID b' = bn_UUID b \<and> bn_Addresses b' = bn_Addresses b \<and> m_Name (bn_Meta b') = m_Name (bn_Meta b)"
proof -
  from assms consider
      (add) n where "b' = addNodeRemovalLabel b" "cluster_node nodes b = Some n" "hasTaint (Some n) rTaint"
    | (drop) n where "b' = deleteNodeRemovalLabel b" "cluster_node nodes b = Some n" "\<not> hasTaint (Some n) rTaint"
    by (auto simp: relabel_def removal_action_def split: option.splits if_splits)
  then show ?thesis
  proof cases
    case add
    moreover from add have "removal_action nodes b' = Keep" "labelled b' \<longleftrightarrow> hasTaint (cluster_node nodes b) rTaint"
      by (simp_all add: removal_action_def)
    ultimately show ?thesis
      by (cases "bn_Labels b") (auto simp: addNodeRemovalLabel_def)
  next
    case drop
    moreover from drop have "removal_action nodes b' = Keep" "labelled b' \<longleftrightarrow> hasTaint (cluster_node nodes b) rTaint"
      by (simp_all add: removal_action_def)
    ultimately show ?thesis
      by (auto simp: deleteNodeRemovalLabel_def)
  qed
qed

section \<open>Witnesses\<close>

definition example_node :: "string \<Rightarrow> CsibmNode" where
  "example_node name = \<lparr>bn_Meta = object_meta [] name (go_map [(t_Key rTaint, t_Value rTaint)]),
     bn_UUID = name, bn_Addresses = go_map [(''Hostname'', name)]\<rparr>"

definition example_drive :: Drive where
  "example_drive = \<lparr>dr_Meta = object_meta [] ''drive'' None, dr_NodeId = ''n1''\<rparr>"

definition example_pod :: "string \<Rightarrow> Pod" where
  "example_pod owner = \<lparr>p_Meta = (object_meta ''ns'' ''pod'' None)
       \<lparr>m_OwnerReferences := [\<lparr>own_Kind = owner, own_Name = ''o''\<rparr>]\<rparr>,
     p_NodeName = ''n1'', p_Phase = ''Running'', p_PodIP = [], p_ContainerStatuses = []\<rparr>"

definition removal_cluster :: "unit cluster" where
  "removal_cluster = quiet_cluster\<lparr>k_CsibmNodes := canned [example_node ''n1''],
     k_Drives := canned [example_drive]\<rparr>"

lemmas removal_example_simps =
  removal_cluster_def example_node_def example_drive_def rTaint_def removal_loop.simps
  handleNodeRemoval_def getMapIsNodesTainted_def getNodeName_def map_index_def
  removeNodes_def removeNode_def checkDaemonsetPodRunning_def deleteCSIResources_def
  deleteDrives_def deleteACs_def deleteLVGs_def deleteVolumes_def deleteObject_def resource_defs
  new_events_def

definition removal_end :: "unit sys" where
  "removal_end = \<lparr>world = (), trace = [Deleted K_Drive [] ''drive'' None,
     Deleted K_CsibmNode [] ''n1'' None]\<rparr>"

lemma removal_run: "handleNodeRemoval removal_cluster [example_node ''n1''] [] (start ()) = Some (None, removal_end)"
  by (simp add: removal_example_simps start_def log_event_def removal_end_def join_errors_def)

theorem handleNodeRemoval_refines_table_witness:
  "\<exists>rs u. length rs = length (List.map_filter (relabel []) [example_node ''n1''])
     \<and> trace u = trace (start ()) @ updates (List.map_filter (relabel []) [example_node ''n1'']) rs
     \<and> (if list_all (\<lambda>r. r = None) rs
        then removeNodes removal_cluster
               (filter (\<lambda>b. removal_action [] b = Remove) [example_node ''n1'']) u
             = Some (None, removal_end)
        else None = Some (Joined (somes rs)) \<and> removal_end = u)"
  by (rule handleNodeRemoval_refines_table [OF removal_run])

definition pods_cluster :: "unit cluster" where
  "pods_cluster = quiet_cluster\<lparr>k_Pods := canned [example_pod ''ReplicaSet'', example_pod ''DaemonSet'']\<rparr>"

theorem deleteCSIPods_spec_witness:
  "\<exists>rs t. deleteCSIPods pods_cluster ''n1'' (start ()) = Some (join_errors (somes rs), t)
     \<and> length rs = 1
     \<and> new_events (start ()) t = pod_deletions [example_pod ''ReplicaSet''] rs"
proof -
  have "klist (k_Pods pods_cluster) (csi_pod_opts ''n1'') (start ()) =
      Some (Inr [example_pod ''ReplicaSet'', example_pod ''DaemonSet''], start ())"
    by (simp add: pods_cluster_def)
  from deleteCSIPods_spec [OF this] show ?thesis
    by (simp add: orphan_def deletable_def example_pod_def)
qed

theorem relabel_settles_witness:
  "removal_action [] (deleteNodeRemovalLabel (example_node ''n1'')) = Keep \<and>
   removal_action
     [\<lparr>n_Meta = object_meta [] ''n1'' None, n_Taints = None, n_KernelVersion = []\<rparr>]
     (deleteNodeRemovalLabel (example_node ''n1'')) = Keep"
proof -
  let ?nodes = "[\<lparr>n_Meta = object_meta [] ''n1'' None, n_Taints = None, n_KernelVersion = []\<rparr>]"
  have "relabel ?nodes (example_node ''n1'') = Some (deleteNodeRemovalLabel (example_node ''n1''))"
    by (simp add: relabel_def removal_action_def cluster_node_def getNodeName_def map_index_def
        example_node_def labelled_def hasTaint_def)
  from relabel_settles [OF this] show ?thesis
    by (simp add: removal_action_def cluster_node_def)
qed

end
