(* ===== verification/Footprint.thy ===== *)
theory Footprint
  imports Calls Workloads PatcherFacts NodeRemoval
begin

text \<open>
  Which clients every operation of the components writes through, in the order in which they
  call each other. What an operation can write, and that a component leaves the objects of
  another alone, follows from these facts.
\<close>

lemmas flow_splits = option.split sum.split if_split prod.split

section \<open>Upserts and gates\<close>

lemma flow_upserts [flow]:
  "K_ConfigMap \<in> K \<Longrightarrow> flow2 k K s (UpdateConfigMap k cm s)"
  "K_DaemonSet \<in> K \<Longrightarrow> flow2 k K s (UpdateDaemonSet k ds s)"
  "K_AppsDeployment \<in> K \<Longrightarrow> flow2 k K s (UpdateDeployment k d s)"
  by (simp_all add: flow UpdateConfigMap_def UpdateDaemonSet_def UpdateDeployment_def Let_def
      split: flow_splits)

lemma flow_GetSelectedNodes [flow]: "flow2 k K s (GetSelectedNodes k sel s)"
  by (simp add: flow GetSelectedNodes_def Let_def)

lemma flow_ValidateRBAC [flow]: "flow2 k K s (ValidateRBAC k m rules s)"
  by (simp add: flow ValidateRBAC_def ValidateServiceAccountIsBound_def Let_def
      split: flow_splits rbac_data.split)

lemma flow_verifiers [flow]:
  "flow2 k K s (pspVerify k m rule csi c s)" "flow2 k K s (sccVerify k m rules csi c s)"
  "flow2 k K s (pspHandleError k csi a e s)" "flow2 k K s (sccHandleError k csi a e s)"
  by (simp_all add: flow pspVerify_def sccVerify_def pspHandleError_def sccHandleError_def Let_def
      split: flow_splits)

lemma flow_gates [flow]:
  "flow2 k K s (security_gate (NewPodSecurityPolicyVerifier k m tmpl) csi c a s)"
  "flow2 k K s (security_gate (NewSecurityContextConstraintsVerifier k m pols) csi c a s)"
  by (simp_all add: flow security_gate_def NewPodSecurityPolicyVerifier_def
      NewSecurityContextConstraintsVerifier_def split: flow_splits)

section \<open>Workloads\<close>

lemma flow_controllers [flow]:
  "K_AppsDeployment \<in> K \<Longrightarrow> flow2 k K s (controller_Update k csi s)"
  "K_AppsDeployment \<in> K \<Longrightarrow> flow2 k K s (node_controller_Update k csi s)"
  by (simp_all add: flow controller_Update_def node_controller_Update_def split: flow_splits)

lemma flow_node_labels_loop [flow]:
  "K_CoreNode \<in> K \<Longrightarrow> flow3 k K s (node_labels_loop k sv ps nodes need err s)"
  by (induction nodes arbitrary: need err s) (simp_all add: flow Let_def split: flow_splits)

lemma flow_deploy_loop [flow]:
  "K_DaemonSet \<in> K \<Longrightarrow> flow2 k K s (deploy_loop k sv csi need order err s)"
  by (induction order arbitrary: err s) (simp_all add: flow Let_def split: flow_splits)

lemma flow_node_deploy [flow]:
  "{K_CoreNode, K_DaemonSet} \<subseteq> K \<Longrightarrow> flow2 k K s (node_deploy k sv ps order csi s)"
  by (simp add: flow node_deploy_def updateNodeLabels_def Let_def split: flow_splits)

lemma flow_clean_labels [flow]:
  "K_CoreNode \<in> K \<Longrightarrow> flow1 k K s (clean_labels_loop k idLabel nodes s)"
  by (induction nodes arbitrary: s) (simp_all add: clean_labels_loop.simps flow Let_def split: flow_splits)

lemma flow_node_Uninstall [flow]: "K_CoreNode \<in> K \<Longrightarrow> flow2 k K s (node_Uninstall k idLabel s)"
  by (simp add: flow node_Uninstall_def cleanNodeLabels_def split: flow_splits)

lemma flow_node_Update [flow]:
  "{K_CoreNode, K_DaemonSet} \<subseteq> K \<Longrightarrow>
   flow2 k K s (node_Update k (NewPodSecurityPolicyVerifier k m tmpl)
     (NewSecurityContextConstraintsVerifier k m' pols) sv ps order csi s)"
  by (simp add: flow node_Update_def split: flow_splits)

lemma flow_extender_Update [flow]:
  "K_DaemonSet \<in> K \<Longrightarrow>
   flow2 k K s (extender_Update k (NewPodSecurityPolicyVerifier k m tmpl)
     (NewSecurityContextConstraintsVerifier k m' pols) csi s)"
  by (simp add: flow extender_Update_def extender_deploy_def split: flow_splits)

section \<open>The patcher\<close>

lemma outside_calls:
  "in_world (k_ServerVersion k) s = (r, t) \<Longrightarrow> calls k K s t"
  "in_world (k_HTTPGet k url) s = (r', t) \<Longrightarrow> calls k K s (log_event (Probed url ok) t)"
  by (rule other_calls; unfold other_call_def; blast)+

lemma flow_outside [flow]:
  "flow2 k K s (server_version k s)" "flow2 k K s (http_get k url s)"
  by (auto simp: flow2_def server_version_def http_get_def outside_calls split: prod.splits sum.splits)

lemma flow_useOpenshiftSecondaryScheduler [flow]:
  "flow3 k K s (useOpenshiftSecondaryScheduler k platform p s)"
  by (simp add: flow useOpenshiftSecondaryScheduler_def Let_def split: flow_splits)

lemma flow_checkSchedulerExtender [flow]: "flow3 k K s (checkSchedulerExtender k ip extPort p s)"
  by (simp add: flow checkSchedulerExtender_def Let_def split: flow_splits)

lemma flow_probe_pods [flow]: "K_ConfigMap \<in> K \<Longrightarrow> flow3 k K s (probe_pods k csi extPort pods p s)"
  by (induction pods arbitrary: p s) (simp_all add: flow Let_def split: flow_splits)

lemma flow_getSchedulerExtenderIP [flow]:
  "K_ConfigMap \<in> K \<Longrightarrow> flow3 k K s (getSchedulerExtenderIP k csi p s)"
  by (simp add: flow getSchedulerExtenderIP_def probe_remembered_def probe_listed_def Let_def split: flow_splits)

lemma flow_extender_attempts [flow]:
  "K_ConfigMap \<in> K \<Longrightarrow> flow4 k K s (extender_attempts k csi iv n err p s)"
  by (induction n arbitrary: err p s) (simp_all add: flow Let_def split: flow_splits)

lemma flow_createOpenshiftConfig [flow]:
  "K_ConfigMap \<in> K \<Longrightarrow> flow3 k K s (createOpenshiftConfig k csi use iv n p s)"
  by (simp add: flow createOpenshiftConfig_def split: flow_splits)

lemma flow_schedulers [flow]:
  "K_SecondaryScheduler \<in> K \<Longrightarrow> flow2 k K s (patchSecondaryScheduler k csi s)"
  "K_SecondaryScheduler \<in> K \<Longrightarrow> flow2 k K s (unpatchSecondaryScheduler k s)"
  "K_OpenshiftScheduler \<in> K \<Longrightarrow> flow2 k K s (patchScheduler k c s)"
  "K_OpenshiftScheduler \<in> K \<Longrightarrow> flow2 k K s (unpatchScheduler k c s)"
  by (simp_all add: flow patchSecondaryScheduler_def unpatchSecondaryScheduler_def patchScheduler_def
      unpatchScheduler_def Let_def split: flow_splits)

abbreviation unpatch_kinds :: "kind set" where
  "unpatch_kinds \<equiv> {K_ConfigMap, K_OpenshiftScheduler, K_SecondaryScheduler}"

abbreviation patcher_kinds :: "kind set" where
  "patcher_kinds \<equiv> {K_ConfigMap, K_DaemonSet, K_OpenshiftScheduler, K_SecondaryScheduler}"

lemma flow_patchOpenShift [flow]:
  "unpatch_kinds \<subseteq> K \<Longrightarrow> flow3 k K s (patchOpenShift k csi use p s)"
  "unpatch_kinds \<subseteq> K \<Longrightarrow> flow3 k K s (unPatchOpenShift k p s)"
  by (simp_all add: flow patchOpenShift_def unPatchOpenShift_def Let_def split: flow_splits)

lemma flow_updateVanilla [flow]:
  "{K_ConfigMap, K_DaemonSet} \<subseteq> K \<Longrightarrow>
   flow2 k K s (updateVanilla k (NewPodSecurityPolicyVerifier k m tmpl) csi s)"
  by (simp add: flow updateVanilla_def updateVanillaConfigMap_def updateVanillaDaemonset_def
      patcher_deploy_def split: flow_splits)

lemma flow_retries [flow]:
  "unpatch_kinds \<subseteq> K \<Longrightarrow> flow3 k K s (retryPatchOpenshift k csi use p s)"
  "{K_ConfigMap, K_DaemonSet} \<subseteq> K \<Longrightarrow>
   flow2 k K s (retryPatchVanilla k (NewPodSecurityPolicyVerifier k m tmpl) csi s)"
  by (simp_all add: flow retryPatchOpenshift_def retryPatchVanilla_def split: flow_splits)

lemma flow_statuses [flow]:
  "flow2 k K s (updateReadinessStatuses k lbl created s)"
  "flow2 k K s (getConfigMapCreationTime k options s)"
  by (simp_all add: flow updateReadinessStatuses_def getConfigMapCreationTime_def split: flow_splits)

lemma flow_poll_statuses [flow]: "flow2 k K s (poll_statuses k lbl created iv n statuses s)"
  by (induction n arbitrary: statuses s) (simp_all add: flow split: flow_splits)

lemma flow_secondary_statuses [flow]:
  "flow2 k K s (updateReadinessStatusesForOpenshiftSecondaryScheduler k lbl created iv n s)"
  by (simp add: flow updateReadinessStatusesForOpenshiftSecondaryScheduler_def Let_def split: flow_splits)

lemma flow_UpdateReadinessConfigMap [flow]:
  "patcher_kinds \<subseteq> K \<Longrightarrow>
   flow3 k K s (UpdateReadinessConfigMap k (NewPodSecurityPolicyVerifier k m tmpl) csi use p s)"
  by (simp add: flow UpdateReadinessConfigMap_def Let_def split: flow_splits)

lemma flow_patcher [flow]:
  "patcher_kinds \<subseteq> K \<Longrightarrow> flow3 k K s (patcher_Update k (NewPodSecurityPolicyVerifier k m tmpl) csi p s)"
  "unpatch_kinds \<subseteq> K \<Longrightarrow> flow3 k K s (patcher_Uninstall k csi p s)"
  by (simp_all add: flow patcher_Update_def patcher_Uninstall_def Let_def split: flow_splits)

section \<open>Nodes\<close>

abbreviation node_kinds :: "kind set" where
  "node_kinds \<equiv> {K_CsibmNode, K_Drive, K_AvailableCapacity, K_LogicalVolumeGroup, K_CsiVolume, K_Pod}"

lemma flow_deleteObject:
  assumes "serves k (rs_Client rs) (rs_Mk rs) (rs_Kind rs)" "rs_Kind rs \<in> K" "\<And>x. kind_of (rs_Mk rs x) = rs_Kind rs"
  shows "flow2 k K s (deleteObject rs x patch s)"
proof -
  have "reads_from k (rs_Client rs)" "deletes_from k (rs_Client rs) (rs_Kind rs)"
    using assms(1) by (auto simp: reads_from_def deletes_from_def)
  with assms show ?thesis by (simp add: flow deleteObject_def Let_def split: flow_splits)
qed

lemma flow_deleteObjects [flow]:
  "K_Drive \<in> K \<Longrightarrow> flow2 k K s (deleteObject (drive_res k) x1 patch s)"
  "K_AvailableCapacity \<in> K \<Longrightarrow> flow2 k K s (deleteObject (ac_res k) x2 patch s)"
  "K_LogicalVolumeGroup \<in> K \<Longrightarrow> flow2 k K s (deleteObject (lvg_res k) x3 patch s)"
  "K_CsiVolume \<in> K \<Longrightarrow> flow2 k K s (deleteObject (volume_res k) x4 patch s)"
  "K_CsibmNode \<in> K \<Longrightarrow> flow2 k K s (deleteObject (csibmnode_res k) x5 patch s)"
  by (rule flow_deleteObject; simp add: resource_defs)+

lemma flow_delete_lists [flow]:
  "K_Drive \<in> K \<Longrightarrow> flow2 k K s (deleteDrives k n s)"
  "K_AvailableCapacity \<in> K \<Longrightarrow> flow2 k K s (deleteACs k n s)"
  "K_LogicalVolumeGroup \<in> K \<Longrightarrow> flow2 k K s (deleteLVGs k n s)"
  "K_CsiVolume \<in> K \<Longrightarrow> flow2 k K s (deleteVolumes k n s)"
  by (simp_all add: flow deleteDrives_def deleteACs_def deleteLVGs_def deleteVolumes_def split: flow_splits)

lemma flow_deleteCSIResources [flow]: "node_kinds \<subseteq> K \<Longrightarrow> flow2 k K s (deleteCSIResources k b s)"
  by (simp add: flow deleteCSIResources_def Let_def)

lemma flow_removeNode [flow]: "node_kinds \<subseteq> K \<Longrightarrow> flow2 k K s (removeNode k b s)"
  by (simp add: flow removeNode_def checkDaemonsetPodRunning_def split: flow_splits)

lemma flow_removal_loop [flow]:
  "K_CsibmNode \<in> K \<Longrightarrow> flow3 k K s (removal_loop k tainted bs s)"
  by (induction bs arbitrary: s) (simp_all add: removal_loop.simps flow Let_def split: flow_splits)

lemma flow_handleNodeRemoval [flow]: "node_kinds \<subseteq> K \<Longrightarrow> flow2 k K s (handleNodeRemoval k bs nodes s)"
  by (simp add: flow handleNodeRemoval_def removeNodes_def split: flow_splits)

lemma flow_handleNodeMaintenance [flow]: "K_Pod \<in> K \<Longrightarrow> flow2 k K s (handleNodeMaintenance k nodes s)"
  by (simp add: flow handleNodeMaintenance_def deleteCSIPods_def deleteCSIPod_def
      split: flow_splits list.split)

lemma flow_node_ops_reconcile [flow]: "node_kinds \<subseteq> K \<Longrightarrow> flow2 k K s (node_ops_reconcile k csi s)"
  by (simp add: flow node_ops_reconcile_def Let_def split: flow_splits)

end
