(* ===== verification/CsiDeployment.thy ===== *)
theory CsiDeployment
  imports Footprint
begin

text \<open>
  \<open>pkg/csi_deployment.go\<close>: the components of the driver in the order in which they are
  updated, the reconciliation of the nodes, and uninstalling. What the constructors of
  \<open>NewCSIDeployment\<close> are given is the record \<open>operator\<close>; the patcher is the only component
  with a state of its own.
\<close>

section \<open>The components together\<close>

record 'v operator =
  op_semver :: "'v semver"
  op_platformOrder :: "(string \<times> 'v PlatformDescription) list"
  op_deployOrder :: "string list"
  op_idLabel :: string
  op_Matcher :: Matcher
  op_SCCPolicies :: "PolicyRule list"
  op_PSPTemplate :: PolicyRule

definition node_psp :: "'w cluster \<Rightarrow> 'v operator \<Rightarrow> 'w SecurityVerifier" where
  "node_psp k op = NewPodSecurityPolicyVerifier k (op_Matcher op) (op_PSPTemplate op)"

definition node_scc :: "'w cluster \<Rightarrow> 'v operator \<Rightarrow> 'w SecurityVerifier" where
  "node_scc k op = NewSecurityContextConstraintsVerifier k (op_Matcher op) (op_SCCPolicies op)"

definition extender_psp :: "'w cluster \<Rightarrow> 'v operator \<Rightarrow> 'w SecurityVerifier" where
  "extender_psp k op = NewPodSecurityPolicyVerifier k NewMatcher (op_PSPTemplate op)"

definition extender_scc :: "'w cluster \<Rightarrow> 'v operator \<Rightarrow> 'w SecurityVerifier" where
  "extender_scc k op = NewSecurityContextConstraintsVerifier k NewMatcher (op_SCCPolicies op)"

definition patcher_psp :: "'w cluster \<Rightarrow> 'v operator \<Rightarrow> 'w SecurityVerifier" where
  "patcher_psp k op = NewPodSecurityPolicyVerifier k NewMatcher (op_PSPTemplate op)"

definition csi_Update ::
  "'w cluster \<Rightarrow> 'v operator \<Rightarrow> Deployment \<Rightarrow> SchedulerPatcher \<Rightarrow> 'w sys \<Rightarrow>
   (goerr option \<times> SchedulerPatcher \<times> 'w sys) option" where
  "csi_Update k op csi p s = do {
     (err, s) \<leftarrow> node_controller_Update k csi s;
     case err of
       Some err \<Rightarrow> Some (Some err, p, s)
     | None \<Rightarrow> do {
         (err, s) \<leftarrow> node_Update k (node_psp k op) (node_scc k op) (op_semver op)
           (op_platformOrder op) (op_deployOrder op) csi s;
         case err of
           Some err \<Rightarrow> Some (Some err, p, s)
         | None \<Rightarrow> do {
             (err, s) \<leftarrow> controller_Update k csi s;
             case err of
               Some err \<Rightarrow> Some (Some err, p, s)
             | None \<Rightarrow> do {
                 (err, s) \<leftarrow> extender_Update k (extender_psp k op) (extender_scc k op) csi s;
                 case err of
                   Some err \<Rightarrow> Some (Some err, p, s)
                 | None \<Rightarrow> patcher_Update k (patcher_psp k op) csi p s
               }
           }
       }
   }"

definition ReconcileNodes ::
  "'w cluster \<Rightarrow> Deployment \<Rightarrow> 'w sys \<Rightarrow> (goerr option \<times> 'w sys) option" where
  "ReconcileNodes k csi s = node_ops_reconcile k (Some csi) s"

definition csi_Uninstall ::
  "'w cluster \<Rightarrow> 'v operator \<Rightarrow> Deployment \<Rightarrow> SchedulerPatcher \<Rightarrow> 'w sys \<Rightarrow>
   (goerr option \<times> SchedulerPatcher \<times> 'w sys) option" where
  "csi_Uninstall k op csi p s = do {
     (e1, p, s) \<leftarrow> patcher_Uninstall k csi p s;
     (e2, s) \<leftarrow> node_Uninstall k (op_idLabel op) s;
     Some (join_errors (add_error e2 (add_error e1 [])), p, s)
   }"

section \<open>What they write\<close>

abbreviation deploy_kinds :: "kind set" where
  "deploy_kinds \<equiv> {K_AppsDeployment, K_CoreNode, K_DaemonSet, K_ConfigMap, K_OpenshiftScheduler, K_SecondaryScheduler}"

lemma flow_csi_Update [flow]: "deploy_kinds \<subseteq> K \<Longrightarrow> flow3 k K s (csi_Update k op csi p s)"
  by (simp add: flow csi_Update_def node_psp_def node_scc_def extender_psp_def extender_scc_def
      patcher_psp_def split: flow_splits)

lemma flow_ReconcileNodes [flow]: "node_kinds \<subseteq> K \<Longrightarrow> flow2 k K s (ReconcileNodes k csi s)"
  by (simp add: flow ReconcileNodes_def)

lemma flow_csi_Uninstall [flow]:
  "insert K_CoreNode unpatch_kinds \<subseteq> K \<Longrightarrow> flow3 k K s (csi_Uninstall k op csi p s)"
  by (simp add: flow csi_Uninstall_def)

lemmas csi_Uninstall_calls = flow_calls(3) [OF _ flow_csi_Uninstall [OF subset_refl]]

lemmas csi_Uninstall_footprint = calls_writes [OF csi_Uninstall_calls]

end
