(* ===== verification/Reconciler.thy ===== *)
theory Reconciler
  imports CsiDeployment
begin

text \<open>
  \<open>controllers/deployment_controller.go\<close>: the reconciliation of the custom resource with its
  finalizer, and the functions that map changes of pods, nodes, roles and role bindings to
  reconcile requests.
\<close>

section \<open>The finalizer\<close>

definition csiFinalizer :: string where "csiFinalizer = ''dell.emc.csi/csi-deployment-cleanup''"

abbreviation dep_Finalizers :: "Deployment \<Rightarrow> string list" where
  "dep_Finalizers d \<equiv> m_Finalizers (dep_Meta d)"

definition with_finalizers :: "Deployment \<Rightarrow> string list \<Rightarrow> Deployment" where
  "with_finalizers d fs = d\<lparr>dep_Meta := (dep_Meta d)\<lparr>m_Finalizers := fs\<rparr>\<rparr>"

fun any_contains :: "string list \<Rightarrow> bool" where
  "any_contains [] = False"
| "any_contains (finalizer # rest) =
     (if strings_Contains finalizer csiFinalizer then True else any_contains rest)"

definition containsFinalizer :: "Deployment \<Rightarrow> bool" where
  "containsFinalizer csiDep = any_contains (dep_Finalizers csiDep)"

fun drop_finalizer :: "string list \<Rightarrow> string list" where
  "drop_finalizer [] = []"
| "drop_finalizer (finalizer # rest) =
     (if finalizer = csiFinalizer then drop_finalizer rest else finalizer # drop_finalizer rest)"

definition deleteFinalizer :: "Deployment \<Rightarrow> string list" where
  "deleteFinalizer csiDep = drop_finalizer (dep_Finalizers csiDep)"

text \<open>\<open>DeletionTimestamp.IsZero()\<close>: nil or the zero time.\<close>

definition deletion_IsZero :: "Deployment \<Rightarrow> bool" where
  "deletion_IsZero d = (case m_DeletionTimestamp (dep_Meta d) of None \<Rightarrow> True | Some t \<Rightarrow> t = 0)"

section \<open>\<open>Reconcile\<close>\<close>

text \<open>The result is the flag \<open>Requeue\<close> and the error.\<close>

type_synonym result = "bool \<times> goerr option"

definition deploy_phase ::
  "'w cluster \<Rightarrow> 'v operator \<Rightarrow> Deployment \<Rightarrow> SchedulerPatcher \<Rightarrow> 'w sys \<Rightarrow>
   (result \<times> SchedulerPatcher \<times> 'w sys) option" where
  "deploy_phase k op deployment p s = do {
     (err, p, s) \<leftarrow> csi_Update k op deployment p s;
     case err of
       Some err \<Rightarrow> Some ((True, Some err), p, s)
     | None \<Rightarrow> do {
         (err, s) \<leftarrow> ReconcileNodes k deployment s;
         case err of
           Some err \<Rightarrow> Some ((True, Some err), p, s)
         | None \<Rightarrow> Some ((False, None), p, s)
       }
   }"

definition Reconcile ::
  "'w cluster \<Rightarrow> 'v operator \<Rightarrow> string \<Rightarrow> string \<Rightarrow> SchedulerPatcher \<Rightarrow> 'w sys \<Rightarrow>
   (result \<times> SchedulerPatcher \<times> 'w sys) option" where
  "Reconcile k op ns name p s = do {
     (r, s) \<leftarrow> kget (k_CsiDeployments k) ns name s;
     case r of
       Inl err \<Rightarrow>
         if IsNotFound (Some err) then Some ((False, None), p, s)
         else Some ((True, Some err), p, s)
     | Inr deployment \<Rightarrow>
         if deletion_IsZero deployment then
           if \<not> containsFinalizer deployment then do {
             let deployment = with_finalizers deployment (dep_Finalizers deployment @ [csiFinalizer]);
             (u, s) \<leftarrow> kupdate (k_CsiDeployments k) O_Deployment deployment s;
             case u of
               Inl err \<Rightarrow> Some ((True, Some err), p, s)
             | Inr deployment \<Rightarrow> deploy_phase k op deployment p s
           } else deploy_phase k op deployment p s
         else if containsFinalizer deployment then do {
           (_, p, s) \<leftarrow> csi_Uninstall k op deployment p s;
           let deployment = with_finalizers deployment (deleteFinalizer deployment);
           (u, s) \<leftarrow> kupdate (k_CsiDeployments k) O_Deployment deployment s;
           case u of
             Inl err \<Rightarrow> Some ((True, Some err), p, s)
           | Inr _ \<Rightarrow> Some ((False, None), p, s)
         } else deploy_phase k op deployment p s
   }"

section \<open>Watches\<close>

definition all_deployments ::
  "'w cluster \<Rightarrow> 'w sys \<Rightarrow> ((goerr + Deployment list) \<times> 'w sys) option" where
  "all_deployments k s = klist (k_CsiDeployments k) list_all_objects s"

definition request_of :: "Deployment \<Rightarrow> string \<times> string" where
  "request_of d = (dep_Namespace d, dep_Name d)"

text \<open>The loop of the pod watch over the custom resources.\<close>

fun pod_requests :: "Pod \<Rightarrow> Deployment list \<Rightarrow> (string \<times> string) list" where
  "pod_requests pod [] = []"
| "pod_requests pod (dep # deps) =
     (case ChooseKubeSchedulerLabel dep of
        Inl _ \<Rightarrow> pod_requests pod deps
      | Inr (key, value) \<Rightarrow>
          (case map_get (m_Labels (p_Meta pod)) key of
             None \<Rightarrow> pod_requests pod deps
           | Some realValue \<Rightarrow>
               if value \<noteq> realValue \<and> value \<noteq> OpenshiftSecondarySchedulerLabelValue
               then pod_requests pod deps
               else request_of dep # pod_requests pod deps))"

definition map_pod ::
  "'w cluster \<Rightarrow> obj \<Rightarrow> 'w sys \<Rightarrow> ((string \<times> string) list \<times> 'w sys) option" where
  "map_pod k obj s = do {
     (r, s) \<leftarrow> all_deployments k s;
     case r of
       Inl _ \<Rightarrow> Some ([], s)
     | Inr deployments \<Rightarrow>
         (case obj of O_Pod pod \<Rightarrow> Some (pod_requests pod deployments, s) | _ \<Rightarrow> Some ([], s))
   }"

fun node_requests :: "CoreNode \<Rightarrow> Deployment list \<Rightarrow> (string \<times> string) list" where
  "node_requests nd [] = []"
| "node_requests nd (dep # deps) =
     (case sp_NodeSelector (dep_Spec dep) of
        Some sel \<Rightarrow>
          (case map_get (n_Labels nd) (ns_Key sel) of
             None \<Rightarrow> node_requests nd deps
           | Some value \<Rightarrow>
               if value \<noteq> ns_Value sel then node_requests nd deps
               else request_of dep # node_requests nd deps)
      | None \<Rightarrow> request_of dep # node_requests nd deps)"

definition map_node ::
  "'w cluster \<Rightarrow> obj \<Rightarrow> 'w sys \<Rightarrow> ((string \<times> string) list \<times> 'w sys) option" where
  "map_node k obj s = do {
     (r, s) \<leftarrow> all_deployments k s;
     case r of
       Inl _ \<Rightarrow> Some ([], s)
     | Inr deployments \<Rightarrow>
         (case obj of O_CoreNode nd \<Rightarrow> Some (node_requests nd deployments, s) | _ \<Rightarrow> Some ([], s))
   }"

definition isNodeChanged :: "obj \<Rightarrow> obj \<Rightarrow> bool" where
  "isNodeChanged old new =
     (case old of
        O_CoreNode oldNode \<Rightarrow>
          (case new of
             O_CoreNode newNode \<Rightarrow>
               if n_Labels oldNode \<noteq> n_Labels newNode then True
               else if n_KernelVersion oldNode \<noteq> n_KernelVersion newNode then True
               else if n_Taints oldNode \<noteq> n_Taints newNode then True
               else False
           | _ \<Rightarrow> False)
      | _ \<Rightarrow> False)"

text \<open>The role watch for the single custom resource. Both pod security conditions match the
  role against the policies for security context constraints; the resource name set on the
  template is not used.\<close>

definition role_requests ::
  "Matcher \<Rightarrow> PolicyRule list \<Rightarrow> Role \<Rightarrow> Deployment \<Rightarrow> (string \<times> string) list option" where
  "role_requests m sccPolicies role d = do {
     let securityContextConstraintsCondition =
       sp_Platform (dep_Spec d) = PlatformOpenShift \<and> dep_Namespace d \<noteq> DefaultNamespace
       \<and> dep_Namespace d = m_Namespace (r_Meta role) \<and> mt_PolicyRules m (r_Rules role) sccPolicies;
     nd \<leftarrow> spec_node d;
     let podNodeSecurityPolicyCondition =
       (case nd_PodSecurityPolicy nd of
          Some psp \<Rightarrow> psp_Enable psp \<and> mt_PolicyRules m (r_Rules role) sccPolicies
        | None \<Rightarrow> False);
     sch \<leftarrow> sp_Scheduler (dep_Spec d);
     let podSchedulerSecurityPolicyCondition =
       (case sch_PodSecurityPolicy sch of
          Some psp \<Rightarrow> psp_Enable psp \<and> mt_PolicyRules m (r_Rules role) sccPolicies
        | None \<Rightarrow> False);
     if \<not> securityContextConstraintsCondition \<and> \<not> podNodeSecurityPolicyCondition
        \<and> \<not> podSchedulerSecurityPolicyCondition
     then Some []
     else Some [request_of d]
   }"

definition watchRole ::
  "'w cluster \<Rightarrow> Matcher \<Rightarrow> PolicyRule list \<Rightarrow> obj \<Rightarrow> 'w sys \<Rightarrow>
   ((string \<times> string) list \<times> 'w sys) option" where
  "watchRole k m sccPolicies obj s = do {
     (r, s) \<leftarrow> all_deployments k s;
     case r of
       Inl _ \<Rightarrow> Some ([], s)
     | Inr deployments \<Rightarrow>
         if length deployments = 0 then Some ([], s)
         else (case obj of
           O_Role role \<Rightarrow>
             (case deployments of
                [d] \<Rightarrow> do { reqs \<leftarrow> role_requests m sccPolicies role d; Some (reqs, s) }
              | _ \<Rightarrow> Some ([], s))
         | _ \<Rightarrow> Some ([], s))
   }"

definition binding_requests :: "Matcher \<Rightarrow> RoleBinding \<Rightarrow> Deployment \<Rightarrow> (string \<times> string) list option" where
  "binding_requests m roleBinding d = do {
     nd \<leftarrow> spec_node d;
     let matchNodeRoleBindingSubject =
       mt_RoleBindingSubjects m roleBinding (nd_ServiceAccount nd) (dep_Namespace d);
     sch \<leftarrow> sp_Scheduler (dep_Spec d);
     let matchSchedulerRoleBindingSubject =
       mt_RoleBindingSubjects m roleBinding (sch_ServiceAccount sch) (dep_Namespace d);
     let securityContextConstraintsCondition =
       sp_Platform (dep_Spec d) = PlatformOpenShift \<and> dep_Namespace d \<noteq> DefaultNamespace
       \<and> dep_Namespace d = m_Namespace (rb_Meta roleBinding)
       \<and> (matchNodeRoleBindingSubject \<or> matchSchedulerRoleBindingSubject);
     let podNodeSecurityPolicyCondition =
       (case nd_PodSecurityPolicy nd of
          Some psp \<Rightarrow> psp_Enable psp \<and> matchNodeRoleBindingSubject | None \<Rightarrow> False);
     let podSchedulerSecurityPolicyCondition =
       (case sch_PodSecurityPolicy sch of
          Some psp \<Rightarrow> psp_Enable psp \<and> matchSchedulerRoleBindingSubject | None \<Rightarrow> False);
     if \<not> securityContextConstraintsCondition \<and> \<not> podNodeSecurityPolicyCondition
        \<and> \<not> podSchedulerSecurityPolicyCondition
     then Some []
     else Some [request_of d]
   }"

definition watchRoleBinding ::
  "'w cluster \<Rightarrow> Matcher \<Rightarrow> obj \<Rightarrow> 'w sys \<Rightarrow> ((string \<times> string) list \<times> 'w sys) option" where
  "watchRoleBinding k m obj s = do {
     (r, s) \<leftarrow> all_deployments k s;
     case r of
       Inl _ \<Rightarrow> Some ([], s)
     | Inr deployments \<Rightarrow>
         if length deployments = 0 then Some ([], s)
         else (case obj of
           O_RoleBinding roleBinding \<Rightarrow>
             (case deployments of
                [d] \<Rightarrow> do { reqs \<leftarrow> binding_requests m roleBinding d; Some (reqs, s) }
              | _ \<Rightarrow> Some ([], s))
         | _ \<Rightarrow> Some ([], s))
   }"

section \<open>The life of the finalizer\<close>

lemma any_contains_iff: "any_contains fs \<longleftrightarrow> (\<exists>f \<in> set fs. sublist csiFinalizer f)"
  by (induction fs) (auto simp: strings_Contains_iff)

lemma drop_finalizer_filter: "drop_finalizer fs = filter (\<lambda>f. f \<noteq> csiFinalizer) fs"
  by (induction fs) auto

lemma dep_Finalizers_with [simp]: "dep_Finalizers (with_finalizers d fs) = fs"
  by (simp add: with_finalizers_def)

text \<open>C39. The life of the finalizer: adding it to a custom resource that does not contain it makes
  it contained, and deleting it afterwards gives back the finalizers there were, all others
  kept in order. The two tests disagree, though: a finalizer that merely contains the text
  counts as present and is never deleted.\<close>

theorem finalizer_roundtrip:
  "(\<not> containsFinalizer d \<longrightarrow>
      containsFinalizer (with_finalizers d (dep_Finalizers d @ [csiFinalizer]))
      \<and> deleteFinalizer (with_finalizers d (dep_Finalizers d @ [csiFinalizer])) = dep_Finalizers d)
   \<and> csiFinalizer \<notin> set (deleteFinalizer d)
   \<and> (x \<noteq> [] \<longrightarrow>
      containsFinalizer (with_finalizers d [x @ csiFinalizer])
      \<and> deleteFinalizer (with_finalizers d [x @ csiFinalizer]) = [x @ csiFinalizer])"
proof -
  have "\<not> any_contains fs \<Longrightarrow> filter (\<lambda>f. f \<noteq> csiFinalizer) fs = fs" for fs
    by (induction fs) (auto simp: strings_Contains_iff split: if_splits)
  then show ?thesis
    by (auto simp: containsFinalizer_def deleteFinalizer_def drop_finalizer_filter any_contains_iff)
qed

section \<open>The footprint of a reconciliation\<close>

lemma flow_deploy_phase [flow]:
  "deploy_kinds \<union> node_kinds \<subseteq> K \<Longrightarrow> flow3 k K s (deploy_phase k op d p s)"
  by (simp add: flow deploy_phase_def split: flow_splits)

lemmas deploy_phase_calls = flow_calls(3) [OF _ flow_deploy_phase [OF subset_refl]]

lemmas deploy_phase_footprint = calls_writes [OF deploy_phase_calls]

text \<open>What a reconciliation does to custom resources: at most the update of the finalizers.\<close>

definition finalizer_update :: "Deployment \<Rightarrow> event \<Rightarrow> bool" where
  "finalizer_update d e \<longleftrightarrow>
     (\<exists>r. e = Updated (O_Deployment (with_finalizers d (dep_Finalizers d @ [csiFinalizer]))) r
        \<or> e = Updated (O_Deployment (with_finalizers d (deleteFinalizer d))) r)"

text \<open>C1. No workload without the finalizer: a reconciliation of a custom resource that is not being
  deleted and does not contain the finalizer writes nothing before the update that adds it;
  if that update fails it is the only write, and the error is returned with a request to
  try again; and nothing later in the run writes a custom resource.\<close>

theorem finalizer_before_workloads:
  assumes get: "kget (k_CsiDeployments k) ns name s = Some (Inr d, s1)"
    and live: "deletion_IsZero d" and new: "\<not> containsFinalizer d"
    and run: "Reconcile k op ns name p s = Some (res, q, t)"
  shows "\<exists>r es. new_events s t =
      Updated (O_Deployment (with_finalizers d (dep_Finalizers d @ [csiFinalizer]))) r # es
    \<and> (r \<noteq> None \<longrightarrow> es = [] \<and> res = (True, r))
    \<and> (\<forall>e \<in> set es. event_kind e \<noteq> Some K_Deployment)"
proof -
  let ?d = "with_finalizers d (dep_Finalizers d @ [csiFinalizer])"
  obtain u s2 where u: "kupdate (k_CsiDeployments k) O_Deployment ?d s1 = Some (u, s2)"
    using calls_return_ex(4) [of "k_CsiDeployments k" O_Deployment ?d s1] by blast
  have tr: "trace s2 = trace s @ [Updated (O_Deployment ?d) (err_of u)]"
    using kget_silent [OF get] kupdate_trace [OF u] by simp
  show ?thesis
  proof (cases u)
    case (Inl e)
    with run get live new u have "res = (True, Some e)" "t = s2"
      by (simp_all add: Reconcile_def)
    with tr Inl show ?thesis by simp
  next
    case (Inr d')
    with run get live new u have "deploy_phase k op d' p s2 = Some (res, q, t)"
      by (simp add: Reconcile_def)
    from deploy_phase_footprint [OF this] obtain es where
      "trace t = trace s2 @ es" "list_all (touches (deploy_kinds \<union> node_kinds)) es"
      by (auto simp: emits_def)
    with tr Inr show ?thesis by (auto simp: list_all_iff touches_def)
  qed
qed


lemma Reconcile_not_deleted_cases:
  assumes get: "kget (k_CsiDeployments k) ns name s = Some (Inr d, s1)"
    and live: "deletion_IsZero d" and new: "\<not> containsFinalizer d"
    and run: "Reconcile k op ns name p s = Some (res, q, t)"
  obtains (refused) e s2 where
    "kupdate (k_CsiDeployments k) O_Deployment (with_finalizers d (dep_Finalizers d @ [csiFinalizer])) s1
      = Some (Inl e, s2)" "res = (True, Some e)" "q = p" "t = s2"
  | (accepted) d' s2 where
    "kupdate (k_CsiDeployments k) O_Deployment (with_finalizers d (dep_Finalizers d @ [csiFinalizer])) s1
      = Some (Inr d', s2)" "deploy_phase k op d' p s2 = Some (res, q, t)"
  using assms calls_return_ex(4) [of "k_CsiDeployments k" O_Deployment
      "with_finalizers d (dep_Finalizers d @ [csiFinalizer])" s1]
  by (auto simp: Reconcile_def split: sum.splits Option.bind_splits)

lemma Reconcile_deleted_cases:
  assumes get: "kget (k_CsiDeployments k) ns name s = Some (Inr d, s1)"
    and deleted: "\<not> deletion_IsZero d" and held: "containsFinalizer d"
    and run: "Reconcile k op ns name p s = Some (res, q, t)"
  obtains e s2 u where "csi_Uninstall k op d p s1 = Some (e, q, s2)"
    "kupdate (k_CsiDeployments k) O_Deployment (with_finalizers d (deleteFinalizer d)) s2 = Some (u, t)"
    "res = (err_of u \<noteq> None, err_of u)"
  using assms by (auto simp: Reconcile_def split: Option.bind_splits sum.splits)

text \<open>Every other run is the deployment phase alone, or no run at all.\<close>

lemma Reconcile_other_cases:
  assumes get: "kget (k_CsiDeployments k) ns name s = Some (r, s1)"
    and run: "Reconcile k op ns name p s = Some (res, q, t)"
    and other: "\<And>d. r = Inr d \<Longrightarrow> deletion_IsZero d = containsFinalizer d"
  obtains (none) e where "r = Inl e" "t = s1" "q = p"
      "res = (if IsNotFound (Some e) then (False, None) else (True, Some e))"
  | (plain) d where "r = Inr d" "deploy_phase k op d p s1 = Some (res, q, t)"
proof (cases r)
  case (Inl e)
  with get run none show ?thesis by (auto simp: Reconcile_def split: if_splits)
next
  case (Inr d)
  with get run other plain show ?thesis by (auto simp: Reconcile_def split: if_splits)
qed

lemma deploy_phase_requeue:
  "deploy_phase k op d p s = Some ((b, err), q, t) \<Longrightarrow> b \<longleftrightarrow> err \<noteq> None"
  by (auto simp: deploy_phase_def split: Option.bind_splits option.splits)

text \<open>What a reconciliation may write: objects of the driver, and the finalizers of the custom
  resource it read.\<close>

definition permitted :: "Deployment \<Rightarrow> event \<Rightarrow> bool" where
  "permitted d e \<longleftrightarrow> touches (deploy_kinds \<union> node_kinds) e \<or> finalizer_update d e"

lemma Reconcile_permitted:
  assumes get: "kget (k_CsiDeployments k) ns name s = Some (Inr d, s1)"
    and run: "Reconcile k op ns name p s = Some ((b, err), q, t)"
  shows "emits (permitted d) s t" "b \<longleftrightarrow> err \<noteq> None"
proof -
  have lift: "writes_in (deploy_kinds \<union> node_kinds) u v \<Longrightarrow> emits (permitted d) u v" for u v
    by (erule emits_mono) (simp add: permitted_def)
  have upd: "emits (permitted d) u v"
    if "kupdate (k_CsiDeployments k) O_Deployment (with_finalizers d fs) u = Some (r, v)"
      "fs = dep_Finalizers d @ [csiFinalizer] \<or> fs = deleteFinalizer d" for u v r fs
    using kupdate_trace [OF that(1)] that(2)
    by (auto simp: emits_def permitted_def finalizer_update_def)
  note q = kget_silent [OF get]
  have "emits (permitted d) s1 t \<and> (b \<longleftrightarrow> err \<noteq> None)"
  proof (cases "deletion_IsZero d = containsFinalizer d")
    case True
    have "deploy_phase k op d p s1 = Some ((b, err), q, t)"
      by (rule Reconcile_other_cases [OF get run]) (use True in auto)
    then show ?thesis using lift [OF deploy_phase_footprint] deploy_phase_requeue by blast
  next
    case False
    show ?thesis
    proof (cases "deletion_IsZero d")
      case True
      with False have "\<not> containsFinalizer d" by simp
      from get True this run show ?thesis
      proof (cases rule: Reconcile_not_deleted_cases)
        case (refused e s2)
        then show ?thesis using upd by auto
      next
        case (accepted d' s2)
        have "emits (permitted d) s1 s2" using accepted(1) upd by blast
        moreover have "emits (permitted d) s2 t" using lift [OF deploy_phase_footprint] accepted(2) by blast
        ultimately show ?thesis using deploy_phase_requeue [OF accepted(2)] by (meson emits_trans)
      qed
    next
      case deleted: False
      with False have "containsFinalizer d" by simp
      from Reconcile_deleted_cases [OF get deleted this run] obtain e s2 u where
        u: "csi_Uninstall k op d p s1 = Some (e, q, s2)" and
        w: "kupdate (k_CsiDeployments k) O_Deployment (with_finalizers d (deleteFinalizer d)) s2 = Some (u, t)"
           "(b, err) = (err_of u \<noteq> None, err_of u)" .
      have "writes_in (deploy_kinds \<union> node_kinds) s1 s2"
        using csi_Uninstall_footprint [OF u] by (rule writes_in_mono) simp
      from lift [OF this] upd [OF w(1)] w(2) show ?thesis by (auto intro: emits_trans)
    qed
  qed
  with q show "emits (permitted d) s t" "b \<longleftrightarrow> err \<noteq> None" by (auto intro: silent_then_emits)
qed


text \<open>C14. What a reconciliation of a custom resource that it could read may write. It asks to be
  run again exactly if it returns an error. Every object it creates, updates or deletes is
  a deployment, a daemonset, a config map, one of the two scheduler resources of OpenShift,
  a node, a pod, or a csibmnode or one of the resources of a node (drive, available capacity,
  volume group, volume), or the write is an update of the custom resource it read with
  nothing but the finalizers changed: the operator's own appended, or exactly that one taken
  out. So it never writes a role, a role binding or a reservation.\<close>

theorem Reconcile_writes_only:
  assumes get: "kget (k_CsiDeployments k) ns name s = Some (Inr d, s1)"
    and run: "Reconcile k op ns name p s = Some ((requeue, err), q, t)"
  shows "(requeue \<longleftrightarrow> err \<noteq> None)
    \<and> (\<forall>e \<in> set (new_events s t).
        (case event_kind e of None \<Rightarrow> True | Some kd \<Rightarrow> kd \<in> deploy_kinds \<union> node_kinds)
        \<or> (\<exists>r fs. e = Updated (O_Deployment (with_finalizers d fs)) r
            \<and> (fs = dep_Finalizers d @ [csiFinalizer] \<or> fs = deleteFinalizer d)))"
proof (intro conjI ballI)
  show "requeue \<longleftrightarrow> err \<noteq> None" by (rule Reconcile_permitted(2) [OF assms])
next
  fix e
  assume "e \<in> set (new_events s t)"
  with Reconcile_permitted(1) [OF assms] have "permitted d e" by (rule emits_new_events)
  then show "(case event_kind e of None \<Rightarrow> True | Some kd \<Rightarrow> kd \<in> deploy_kinds \<union> node_kinds)
        \<or> (\<exists>r fs. e = Updated (O_Deployment (with_finalizers d fs)) r
            \<and> (fs = dep_Finalizers d @ [csiFinalizer] \<or> fs = deleteFinalizer d))"
    unfolding permitted_def finalizer_update_def touches_def by blast
qed

text \<open>C15. Deleting the custom resource: when it carries the finalizer, uninstalling runs first and
  touches neither daemonsets nor deployments; whatever it answers, the finalizer is removed
  by the very last write of the run, nothing is deployed, and only the error of that write
  is reported.\<close>

theorem deletion_uninstalls_then_releases:
  assumes get: "kget (k_CsiDeployments k) ns name s = Some (Inr d, s1)"
    and deleted: "\<not> deletion_IsZero d" and held: "containsFinalizer d"
    and run: "Reconcile k op ns name p s = Some (res, q, t)"
  shows "\<exists>e s2 es r. csi_Uninstall k op d p s1 = Some (e, q, s2)
    \<and> new_events s t = es @ [Updated (O_Deployment (with_finalizers d (deleteFinalizer d))) r]
    \<and> (\<forall>e \<in> set es. event_kind e \<in> {None, Some K_ConfigMap, Some K_OpenshiftScheduler,
          Some K_SecondaryScheduler, Some K_CoreNode})
    \<and> res = (r \<noteq> None, r)"
proof -
  from Reconcile_deleted_cases [OF assms] obtain e s2 u where
    u: "csi_Uninstall k op d p s1 = Some (e, q, s2)" and
    w: "kupdate (k_CsiDeployments k) O_Deployment (with_finalizers d (deleteFinalizer d)) s2 = Some (u, t)" and
    res: "res = (err_of u \<noteq> None, err_of u)" .
  from csi_Uninstall_footprint [OF u] obtain es where
    es: "trace s2 = trace s1 @ es" "\<forall>e \<in> set es. touches (insert K_CoreNode unpatch_kinds) e"
    by (auto simp: emits_set)
  have "new_events s t = es @ [Updated (O_Deployment (with_finalizers d (deleteFinalizer d))) (err_of u)]"
    using es(1) kget_silent [OF get] kupdate_trace [OF w] by simp
  moreover have "\<forall>e \<in> set es. event_kind e \<in> {None, Some K_ConfigMap, Some K_OpenshiftScheduler,
          Some K_SecondaryScheduler, Some K_CoreNode}"
    using es(2) by (fastforce simp: touches_def split: option.splits)
  ultimately show ?thesis using u res by blast
qed

section \<open>Which changes lead to a reconciliation\<close>

text \<open>C34. The pod watch requests a reconciliation for exactly the custom resources whose platform
  has a kube-scheduler label and where the pod carries this label with this value. So a pod
  of the secondary scheduler of OpenShift never leads to a request.\<close>

theorem pod_watch_spec:
  "pod_requests pod deps = map request_of (filter (\<lambda>d. \<exists>key value.
      ChooseKubeSchedulerLabel d = Inr (key, value)
      \<and> map_get (m_Labels (p_Meta pod)) key = Some value) deps)
   \<and> (map_get (m_Labels (p_Meta pod)) ''app'' = Some OpenshiftSecondarySchedulerLabelValue \<and>
       (\<forall>d \<in> set deps. sp_Platform (dep_Spec d) = PlatformOpenShift) \<longrightarrow>
       pod_requests pod deps = [])"
proof -
  have ne: "v \<noteq> OpenshiftSecondarySchedulerLabelValue"
    if "ChooseKubeSchedulerLabel d = Inr (key, v)" for d key v
    using that by (auto simp: ChooseKubeSchedulerLabel_def OpenshiftSecondarySchedulerLabelValue_def
        Let_def split: if_splits)
  have spec: "pod_requests pod ds = map request_of (filter (\<lambda>d. \<exists>key value.
      ChooseKubeSchedulerLabel d = Inr (key, value)
      \<and> map_get (m_Labels (p_Meta pod)) key = Some value) ds)" for ds
    by (induction ds) (auto simp: ne split: sum.splits option.splits)
  moreover have "pod_requests pod deps = []"
    if "map_get (m_Labels (p_Meta pod)) ''app'' = Some OpenshiftSecondarySchedulerLabelValue"
      "\<forall>d \<in> set deps. sp_Platform (dep_Spec d) = PlatformOpenShift"
    unfolding spec using that
    by (auto simp: filter_empty_conv ChooseKubeSchedulerLabel_def OpenshiftSecondarySchedulerLabelValue_def)
  ultimately show ?thesis by blast
qed

text \<open>C33. The node watch loses nothing the operator decides on: a change of a node that its filter
  drops leaves the kernel version that selects the platform, every taint test, every label
  and the custom resources that select the node as they were; and a node leads to requests
  for exactly the custom resources whose selector it satisfies.\<close>

theorem node_watch_complete:
  assumes "\<not> isNodeChanged (O_CoreNode old) (O_CoreNode new)"
  shows "GetNodeKernelVersion sv new = GetNodeKernelVersion sv old
    \<and> hasTaint (Some new) taint = hasTaint (Some old) taint
    \<and> map_get (n_Labels new) key = map_get (n_Labels old) key
    \<and> node_requests new deps = node_requests old deps
    \<and> node_requests new deps = map request_of (filter (\<lambda>d.
        (case sp_NodeSelector (dep_Spec d) of
           None \<Rightarrow> True
         | Some sel \<Rightarrow> map_get (n_Labels new) (ns_Key sel) = Some (ns_Value sel))) deps)"
proof -
  have spec: "node_requests nd deps = map request_of (filter (\<lambda>d.
        (case sp_NodeSelector (dep_Spec d) of
           None \<Rightarrow> True
         | Some sel \<Rightarrow> map_get (n_Labels nd) (ns_Key sel) = Some (ns_Value sel))) deps)" for nd
    by (induction deps) (auto split: option.splits)
  have eq: "n_Labels new = n_Labels old" "n_KernelVersion new = n_KernelVersion old"
    "n_Taints new = n_Taints old"
    using assms by (auto simp: isNodeChanged_def split: if_splits)
  have req: "node_requests new deps = node_requests old deps"
    unfolding spec eq by simp
  show ?thesis
    using spec [of new] eq req by (simp add: GetNodeKernelVersion_def hasTaint_def)
qed


section \<open>What \<open>main.go\<close> passes\<close>

definition matchSecurityContextConstraintsPolicies :: "PolicyRule list" where
  "matchSecurityContextConstraintsPolicies =
     [\<lparr>rule_Verbs = [''use''], rule_APIGroups = [''security.openshift.io''],
        rule_Resources = [''securitycontextconstraints''], rule_ResourceNames = [''privileged'']\<rparr>]"

definition matchPodSecurityPolicyTemplate :: PolicyRule where
  "matchPodSecurityPolicyTemplate =
     \<lparr>rule_Verbs = [''use''], rule_APIGroups = [''policy''],
       rule_Resources = [''podsecuritypolicies''], rule_ResourceNames = []\<rparr>"

text \<open>\<open>NewCSIDeployment\<close>, with the library and the map orders that are parameters here.\<close>

definition NewCSIDeployment ::
  "'v semver \<Rightarrow> (string \<times> 'v PlatformDescription) list \<Rightarrow> string list \<Rightarrow> string \<Rightarrow>
   Matcher \<Rightarrow> PolicyRule list \<Rightarrow> PolicyRule \<Rightarrow> 'v operator" where
  "NewCSIDeployment sv platformOrder deployOrder idLabel matcher sccPolicies pspTemplate =
     \<lparr>op_semver = sv, op_platformOrder = platformOrder, op_deployOrder = deployOrder,
      op_idLabel = idLabel, op_Matcher = matcher, op_SCCPolicies = sccPolicies,
      op_PSPTemplate = pspTemplate\<rparr>"

text \<open>A role that grants the use of one pod security policy.\<close>

definition psp_role :: "string \<Rightarrow> string \<Rightarrow> Role" where
  "psp_role ns resourceName = \<lparr>r_Meta = object_meta ns ''csi-psp'' None,
     r_Rules = [matchPodSecurityPolicyTemplate\<lparr>rule_ResourceNames := [resourceName]\<rparr>]\<rparr>"

lemma role_requests_cases:
  assumes "role_requests m pols role d = Some reqs"
  shows "reqs = [] \<or> reqs = [request_of d] \<and> mt_PolicyRules m (r_Rules role) pols"
  using assms by (auto simp: role_requests_def Let_def split: Option.bind_splits option.splits if_splits)

text \<open>C35. The role watch sees only roles that grant security context constraints. A role that
  grants what the verifier of pod security policies asks for, and nothing about security
  context constraints, never leads to a request, whatever the custom resource enables: with
  the policies of \<open>main.go\<close>, granting it does not wake the operator that reported it
  missing.\<close>

theorem role_watch_blind_to_psp_roles:
  assumes "\<forall>r \<in> set (r_Rules role). ''securitycontextconstraints'' \<notin> set (rule_Resources r)"
    and "role_requests NewMatcher matchSecurityContextConstraintsPolicies role d = Some reqs"
  shows "reqs = []
    \<and> mt_PolicyRules NewMatcher (r_Rules (psp_role ns name))
        [matchPodSecurityPolicyTemplate\<lparr>rule_ResourceNames := [name]\<rparr>]
    \<and> \<not> mt_PolicyRules NewMatcher (r_Rules (psp_role ns name)) matchSecurityContextConstraintsPolicies"
proof -
  have "\<not> mt_PolicyRules NewMatcher (r_Rules role) matchSecurityContextConstraintsPolicies"
    using assms(1) by (auto simp: go_matcher.rules_law matchSecurityContextConstraintsPolicies_def
        rule_covers_def)
  with role_requests_cases [OF assms(2)] have "reqs = []" by blast
  then show ?thesis
    by (simp add: go_matcher.rules_law psp_role_def rule_covers_def matchPodSecurityPolicyTemplate_def
        matchSecurityContextConstraintsPolicies_def)
qed

text \<open>The role binding watch misses nothing the gates depend on: when the custom resource
  needs security context constraints, or a pod security policy for a component, every role
  binding in its namespace that the validator would select for the service account of that
  component leads to a request for the custom resource; a binding that selects neither
  account leads to none.\<close>

theorem binding_watch_covers_gates:
  assumes nd: "spec_node d = Some nd" and sch: "sp_Scheduler (dep_Spec d) = Some sch"
    and ns: "m_Namespace (rb_Meta rb) = dep_Namespace d"
  shows "let selected = (\<lambda>account. rb \<in> set (mt_RoleBindingsSubjects NewMatcher [rb] account (dep_Namespace d)));
             scc = (sp_Platform (dep_Spec d) = PlatformOpenShift \<and> dep_Namespace d \<noteq> DefaultNamespace);
             psp = (\<lambda>x. case x of None \<Rightarrow> False | Some y \<Rightarrow> psp_Enable y)
         in binding_requests NewMatcher rb d =
              Some (if selected (nd_ServiceAccount nd) \<and> (scc \<or> psp (nd_PodSecurityPolicy nd))
                     \<or> selected (sch_ServiceAccount sch) \<and> (scc \<or> psp (sch_PodSecurityPolicy sch))
                    then [request_of d] else [])"
  using assms
  by (auto simp: binding_requests_def Let_def go_matcher.bindings_law NewMatcher_def binds_def
      MatchRoleBindingSubjects_def MatchRoleBindingsSubjects_def match_subjects_iff split: option.splits)


section \<open>Witnesses\<close>

definition example_op :: "(nat \<times> nat) operator" where
  "example_op = NewCSIDeployment two_numbers (platforms two_numbers) [] ''nodes.csi-baremetal.dell.com/uuid''
     NewMatcher matchSecurityContextConstraintsPolicies matchPodSecurityPolicyTemplate"

definition example_deleted :: Deployment where
  "example_deleted = (example_csi PlatformVanilla)\<lparr>dep_Meta :=
     (object_meta ''ns'' ''csi'' None)\<lparr>m_Finalizers := [csiFinalizer, ''foregroundDeletion''],
       m_DeletionTimestamp := Some 1\<rparr>\<rparr>"

text \<open>Clusters that hold one custom resource; the second refuses updates of it.\<close>

definition csi_cluster :: "Deployment \<Rightarrow> 'w cluster" where
  "csi_cluster d = quiet_cluster\<lparr>k_CsiDeployments := holding d\<rparr>"

definition refusing_cluster :: "Deployment \<Rightarrow> 'w cluster" where
  "refusing_cluster d = quiet_cluster\<lparr>k_CsiDeployments :=
     (holding d)\<lparr>kc_update := (\<lambda>x w. (Inl (False, ''conflict''), w))\<rparr>\<rparr>"

lemma csi_cluster_simps [simp]:
  "k_CsiDeployments (csi_cluster d) = holding d" "k_Nodes (csi_cluster d) = canned []"
  by (simp_all add: csi_cluster_def)

lemma refusing_calls:
  "kget (k_CsiDeployments (refusing_cluster d)) ns n s = Some (Inr d, s)"
  "kupdate (k_CsiDeployments (refusing_cluster d)) mk x s =
    Some (Inl (ApiError False ''conflict''), log_event (Updated (mk x) (Some (ApiError False ''conflict''))) s)"
  by (simp_all add: refusing_cluster_def holding_def canned_def kget_def kupdate_def in_world_def
      api_err_def)

lemma example_fresh: "deletion_IsZero (example_csi pl)" "\<not> containsFinalizer (example_csi pl)"
  by (simp_all add: deletion_IsZero_def containsFinalizer_def example_csi_def object_meta_def)

lemma example_deleted_simps:
  "\<not> deletion_IsZero example_deleted" "dep_Finalizers example_deleted = [csiFinalizer, ''foregroundDeletion'']"
  "IsPatchingEnabled example_deleted = Some True"
  "sp_Platform (dep_Spec example_deleted) = PlatformVanilla"
proof -
  show "\<not> deletion_IsZero example_deleted" "dep_Finalizers example_deleted = [csiFinalizer, ''foregroundDeletion'']"
    by (simp_all add: example_deleted_def deletion_IsZero_def)
  show "sp_Platform (dep_Spec example_deleted) = PlatformVanilla"
    by (simp add: example_deleted_def example_csi_def)
  have "spec_patcher example_deleted \<noteq> None \<and> pat_Enable (the (spec_patcher example_deleted))"
    by (simp add: spec_patcher_def example_deleted_def example_csi_def example_scheduler_def)
  then show "IsPatchingEnabled example_deleted = Some True"
    by (auto simp: IsPatchingEnabled_def isPlatformSupported_def example_deleted_def example_csi_def)
qed

lemma example_deleted_held: "containsFinalizer example_deleted"
  by (simp add: containsFinalizer_def example_deleted_simps strings_Contains_iff)

theorem finalizer_roundtrip_witness:
  "deleteFinalizer (with_finalizers (example_csi PlatformVanilla) [''old-'' @ csiFinalizer]) = [''old-'' @ csiFinalizer]"
  using finalizer_roundtrip [of "example_csi PlatformVanilla" "''old-''"] by simp

lemma refused_run:
  "Reconcile (refusing_cluster (example_csi PlatformVanilla)) example_op ''ns'' ''csi'' new_patcher (start ()) =
   Some ((True, Some (ApiError False ''conflict'')), new_patcher,
     log_event (Updated (O_Deployment (with_finalizers (example_csi PlatformVanilla)
       (dep_Finalizers (example_csi PlatformVanilla) @ [csiFinalizer]))) (Some (ApiError False ''conflict''))) (start ()))"
  by (simp add: Reconcile_def refusing_calls example_fresh)

theorem finalizer_before_workloads_witness:
  "\<exists>s1 r es. kget (k_CsiDeployments (refusing_cluster (example_csi PlatformVanilla))) ''ns'' ''csi'' (start ()) =
      Some (Inr (example_csi PlatformVanilla), s1) \<and>
    new_events (start ()) (log_event (Updated (O_Deployment (with_finalizers (example_csi PlatformVanilla)
       (dep_Finalizers (example_csi PlatformVanilla) @ [csiFinalizer]))) (Some (ApiError False ''conflict''))) (start ())) =
      Updated (O_Deployment (with_finalizers (example_csi PlatformVanilla)
       (dep_Finalizers (example_csi PlatformVanilla) @ [csiFinalizer]))) r # es"
  using finalizer_before_workloads [OF refusing_calls(1) example_fresh refused_run] refusing_calls(1) by blast

theorem Reconcile_writes_only_witness:
  "\<exists>t. Reconcile (refusing_cluster (example_csi PlatformVanilla)) example_op ''ns'' ''csi'' new_patcher (start ()) =
     Some ((True, Some (ApiError False ''conflict'')), new_patcher, t) \<and>
     (\<forall>e \<in> set (new_events (start ()) t). event_kind e \<noteq> Some K_Role)"
  using Reconcile_writes_only [OF refusing_calls(1) refused_run] refused_run
  by (fastforce split: option.splits)

lemma deleted_run:
  "\<exists>t. Reconcile (csi_cluster example_deleted) example_op ''ns'' ''csi'' new_patcher (start ()) =
     Some ((False, None), new_patcher, t)"
  by (simp add: Reconcile_def example_deleted_simps(1,3,4) example_deleted_held csi_Uninstall_def
      patcher_Uninstall_def node_Uninstall_def cleanNodeLabels_def join_errors_def)

theorem deletion_uninstalls_then_releases_witness:
  "\<exists>t es. Reconcile (csi_cluster example_deleted) example_op ''ns'' ''csi'' new_patcher (start ()) =
     Some ((False, None), new_patcher, t) \<and>
     new_events (start ()) t = es @ [Updated (O_Deployment (with_finalizers example_deleted [''foregroundDeletion''])) None]"
proof -
  obtain t where t: "Reconcile (csi_cluster example_deleted) example_op ''ns'' ''csi'' new_patcher (start ()) =
      Some ((False, None), new_patcher, t)"
    using deleted_run by blast
  have g: "kget (k_CsiDeployments (csi_cluster example_deleted)) ''ns'' ''csi'' (start ()) =
      Some (Inr example_deleted, start ())" by simp
  have f: "deleteFinalizer example_deleted = [''foregroundDeletion'']"
    by (simp add: deleteFinalizer_def example_deleted_simps(2) csiFinalizer_def)
  from deletion_uninstalls_then_releases [OF g example_deleted_simps(1) example_deleted_held t] t
  show ?thesis unfolding f by auto
qed

definition secondary_pod :: Pod where
  "secondary_pod = \<lparr>p_Meta = object_meta ''openshift-secondary-scheduler-operator'' ''secondary''
     (Some (fmap_of_list [(''app'', ''secondary-scheduler'')])), p_NodeName = ''n1'', p_Phase = ''Running'',
     p_PodIP = ''10.0.0.1'', p_ContainerStatuses = []\<rparr>"

theorem pod_watch_spec_witness:
  "pod_requests secondary_pod [example_csi PlatformOpenShift] = []"
proof -
  have "map_get (m_Labels (p_Meta secondary_pod)) ''app'' = Some OpenshiftSecondarySchedulerLabelValue"
    by (simp add: secondary_pod_def OpenshiftSecondarySchedulerLabelValue_def map_get_def)
  moreover have "\<forall>d \<in> set [example_csi PlatformOpenShift]. sp_Platform (dep_Spec d) = PlatformOpenShift"
    by (simp add: example_csi_def)
  ultimately show ?thesis using pod_watch_spec [of secondary_pod "[example_csi PlatformOpenShift]"] by blast
qed

definition watched_node :: "string \<Rightarrow> CoreNode" where
  "watched_node name = \<lparr>n_Meta = object_meta [] name (Some fmempty), n_Taints = None,
     n_KernelVersion = ''5.15.0''\<rparr>"

theorem node_watch_complete_witness:
  "node_requests (watched_node ''b'') [example_csi PlatformVanilla] =
   node_requests (watched_node ''a'') [example_csi PlatformVanilla]"
  using node_watch_complete [of "watched_node ''a''" "watched_node ''b''" two_numbers rTaint "[]"
      "[example_csi PlatformVanilla]"]
  by (simp add: isNodeChanged_def watched_node_def)

theorem role_watch_blind_to_psp_roles_witness:
  "role_requests NewMatcher matchSecurityContextConstraintsPolicies (psp_role ''ns'' ''privileged'')
     (example_csi PlatformVanilla) = Some []"
proof -
  have no: "\<forall>r \<in> set (r_Rules (psp_role ''ns'' ''privileged'')).
      ''securitycontextconstraints'' \<notin> set (rule_Resources r)"
    by (simp add: psp_role_def matchPodSecurityPolicyTemplate_def)
  have "role_requests NewMatcher matchSecurityContextConstraintsPolicies
      (psp_role ''ns'' ''privileged'') (example_csi PlatformVanilla) \<noteq> None"
    by (simp add: role_requests_def spec_node_def example_csi_def Let_def)
  then obtain reqs where r: "role_requests NewMatcher matchSecurityContextConstraintsPolicies
      (psp_role ''ns'' ''privileged'') (example_csi PlatformVanilla) = Some reqs"
    by blast
  from role_watch_blind_to_psp_roles [OF no r] r show ?thesis by simp
qed

definition watched_binding :: RoleBinding where
  "watched_binding = \<lparr>rb_Meta = object_meta ''ns'' ''rb'' None,
     rb_Subjects = [\<lparr>sub_Kind = ''ServiceAccount'', sub_Name = ''sa'', sub_Namespace = ''ns''\<rparr>],
     rb_RoleRefKind = ''Role'', rb_RoleRefName = ''csi-psp''\<rparr>"

theorem binding_watch_covers_gates_witness:
  "binding_requests NewMatcher watched_binding (example_csi PlatformVanilla) = Some [(''ns'', ''csi'')]"
  using binding_watch_covers_gates [of "example_csi PlatformVanilla" example_spec_node example_scheduler watched_binding]
  by (simp add: spec_node_def example_csi_def watched_binding_def go_matcher.bindings_law binds_def
      example_spec_node_def example_scheduler_def request_of_def)

end
