(* ===== verification/NodeAudit.thy ===== *)
theory NodeAudit
  imports Recording Footprint
begin

text \<open>
  Node removal and the answers it rests on. A run on the recording cluster has a list of all
  requests with their answers; what is deleted is justified by answers this very run got
  before: the resources of a node by the lists they were in, the csibmnode by the success of
  everything before it, by the lists of nodes and by the answer that no pod runs there.
\<close>

section \<open>Deletions in a record\<close>

fun deletion :: "entry \<Rightarrow> (kind \<times> string \<times> string) option" where
  "deletion (R_Delete kd ns n, _) = Some (kd, ns, n)"
| "deletion _ = None"

definition deletions :: "entry list \<Rightarrow> (kind \<times> string \<times> string) list" where
  "deletions cs = List.map_filter deletion cs"

lemma deletions_simps [simp]:
  "deletions [] = []"
  "deletions (c # cs) = (case deletion c of None \<Rightarrow> deletions cs | Some d \<Rightarrow> d # deletions cs)"
  "deletions (cs @ ds) = deletions cs @ deletions ds"
  by (simp_all add: deletions_def List.map_filter_def split: option.splits)

lemma deletions_concat: "deletions (concat css) = concat (map deletions css)"
  by (induction css) simp_all

lemma deletion_iff: "deletion c = Some (kd, ns, n) \<longleftrightarrow> (\<exists>a. c = (R_Delete kd ns n, a))"
  by (cases c rule: deletion.cases) auto

lemma in_deletions: "(kd, ns, n) \<in> set (deletions cs) \<longleftrightarrow> (\<exists>a. (R_Delete kd ns n, a) \<in> set cs)"
  by (force simp: deletions_def List.map_filter_def deletion_iff image_iff)

text \<open>The node an object belongs to, and its key, for the four kinds of resources.\<close>

fun resource_node :: "obj \<Rightarrow> string option" where
  "resource_node (O_Drive x) = Some (dr_NodeId x)"
| "resource_node (O_AvailableCapacity x) = Some (ac_NodeId x)"
| "resource_node (O_LogicalVolumeGroup x) = Some (lvg_Node x)"
| "resource_node (O_CsiVolume x) = Some (cv_NodeId x)"
| "resource_node _ = None"

definition key_of_obj :: "obj \<Rightarrow> kind \<times> string \<times> string" where
  "key_of_obj x = (kind_of x, m_Namespace (meta_of x), m_Name (meta_of x))"

section \<open>Deleting one object\<close>

text \<open>A request about a single object of a kind.\<close>

fun object_entry :: "kind \<Rightarrow> entry \<Rightarrow> bool" where
  "object_entry kd (R_List _ _, _) \<longleftrightarrow> False"
| "object_entry kd (q, _) \<longleftrightarrow> request_kind q = kd"

lemma object_entry_kind: "object_entry kd c \<Longrightarrow> request_kind (fst c) = kd"
  by (cases "(kd, c)" rule: object_entry.cases) auto

lemma object_entry_no_list: "\<not> object_entry kd (R_List kd' opts, a)"
  by simp

lemma deleteObject_recorded:
  assumes run: "deleteObject rs x p s = Some (err, t)"
    and client: "rs_Client rs = recording_client (rs_Mk rs) (rs_Kind rs) c"
    and kinds: "\<And>y. kind_of (rs_Mk rs y) = rs_Kind rs"
  obtains cs where "appends s cs t" "err = None \<longleftrightarrow> list_all succeeded cs"
    "list_all (object_entry (rs_Kind rs)) cs"
    "\<not> p \<or> same_key c (rs_Meta rs) \<and>
       m_Namespace (rs_Meta rs (rs_SetFinalizers rs [] x)) = m_Namespace (rs_Meta rs x) \<and>
       m_Name (rs_Meta rs (rs_SetFinalizers rs [] x)) = m_Name (rs_Meta rs x) \<Longrightarrow>
     deletions cs = [(rs_Kind rs, m_Namespace (rs_Meta rs x), m_Name (rs_Meta rs x))]"
proof (cases "p \<and> m_Finalizers (rs_Meta rs x) \<noteq> []")
  case False
  with run obtain d where d:
    "kdelete (rs_Client rs) (rs_Kind rs) (m_Namespace (rs_Meta rs x)) (m_Name (rs_Meta rs x)) s = Some (d, t)"
    "err = join_errors (add_error d [])"
    by (auto simp: deleteObject_def split: Option.bind_splits)
  note kdelete_recorded [OF d(1) [unfolded client]]
  then show ?thesis by (rule that) (use d(2) in \<open>auto simp: join_errors_def add_error_def split: option.splits\<close>)
next
  case True
  let ?x = "rs_SetFinalizers rs [] x"
  from True run obtain u s1 g s2 r where
    u: "kupdate (rs_Client rs) (rs_Mk rs) ?x s = Some (u, s1)" and
    g: "kget (rs_Client rs) (m_Namespace (rs_Meta rs (answered u ?x)))
          (m_Name (rs_Meta rs (answered u ?x))) s1 = Some (g, s2)" and
    d: "kdelete (rs_Client rs) (rs_Kind rs) (m_Namespace (rs_Meta rs (answered g (answered u ?x))))
          (m_Name (rs_Meta rs (answered g (answered u ?x)))) s2 = Some (r, t)" and
    e: "err = join_errors (add_error r (add_error (err_of g) (add_error (err_of u) [])))"
    by (auto simp: deleteObject_def Let_def split: Option.bind_splits)
  have key: "m_Namespace (rs_Meta rs (answered g (answered u ?x))) = m_Namespace (rs_Meta rs ?x) \<and>
      m_Name (rs_Meta rs (answered g (answered u ?x))) = m_Name (rs_Meta rs ?x)"
    if "same_key c (rs_Meta rs)"
  proof -
    have same: "same_key (rs_Client rs) (rs_Meta rs)"
      unfolding client by (rule recording_same_key [OF that])
    show ?thesis
      using kupdate_same_key [OF same] kget_same_key [OF same] u g
      by (cases u; cases g) (auto simp: answered_def)
  qed
  have "appends s ([(R_Update (rs_Mk rs ?x), object_answer (rs_Mk rs) u)] @
      [(R_Get (rs_Kind rs) (m_Namespace (rs_Meta rs (answered u ?x))) (m_Name (rs_Meta rs (answered u ?x))),
        object_answer (rs_Mk rs) g)] @
      [(R_Delete (rs_Kind rs) (m_Namespace (rs_Meta rs (answered g (answered u ?x))))
        (m_Name (rs_Meta rs (answered g (answered u ?x)))), done_answer r)]) t"
    using calls_recorded(4) [OF u [unfolded client]] calls_recorded(1) [OF g [unfolded client]]
      calls_recorded(5) [OF d [unfolded client]] by (blast intro: appends_trans)
  then show ?thesis
    by (rule that)
      (use e key True in \<open>auto simp: kinds join_errors_def add_error_def split: option.splits\<close>)
qed

section \<open>Deleting the objects of one kind\<close>

text \<open>The record of such a deletion: the list request, and then what was listed for this node.\<close>

definition sweeps :: "kind \<Rightarrow> string \<Rightarrow> bool \<Rightarrow> goerr option \<Rightarrow> entry list \<Rightarrow> bool" where
  "sweeps kd nodeID keyed err cs \<longleftrightarrow>
     (\<exists>a rest. cs = (R_List kd list_all_objects, a) # rest
        \<and> list_all (object_entry kd) rest
        \<and> (err = None \<longleftrightarrow> list_all succeeded cs)
        \<and> (case a of
             A_Items ys \<Rightarrow> keyed \<longrightarrow>
               deletions rest = map key_of_obj (filter (\<lambda>y. resource_node y = Some nodeID) ys)
           | _ \<Rightarrow> rest = []))"

locale recorded_resource = node_resource del res node_of patches res_kind
  for del :: "('v \<times> entry list) cluster \<Rightarrow> string \<Rightarrow> ('v \<times> entry list) sys \<Rightarrow>
      (goerr option \<times> ('v \<times> entry list) sys) option"
    and res :: "('v \<times> entry list) cluster \<Rightarrow> ('o, 'v \<times> entry list) resource"
    and node_of :: "'o \<Rightarrow> string" and patches :: bool and res_kind :: kind +
  fixes base :: "'v cluster \<Rightarrow> ('o, 'v) kclient"
    and mk :: "'o \<Rightarrow> obj" and meta :: "'o \<Rightarrow> ObjectMeta"
  assumes rec_client: "rs_Client (res (recording k)) = recording_client mk res_kind (base k)"
    and mk_eq: "rs_Mk (res (recording k)) = mk"
    and meta_eq: "rs_Meta (res (recording k)) = meta"
    and mk_node: "resource_node (mk x) = Some (node_of x)"
    and mk_meta: "meta_of (mk x) = meta x"
begin

lemma object_recorded:
  assumes "deleteObject (res (recording k)) x patches s = Some (err, t)"
  obtains cs where "appends s cs t" "err = None \<longleftrightarrow> list_all succeeded cs"
    "list_all (object_entry res_kind) cs"
    "\<not> patches \<or> same_key (base k) meta \<Longrightarrow> deletions cs = [key_of_obj (mk x)]"
proof -
  have kind: "kind_of (mk x) = res_kind" for x using res_kind(2) [of "recording k" x] by (simp add: mk_eq)
  have c: "rs_Client (res (recording k)) =
      recording_client (rs_Mk (res (recording k))) (rs_Kind (res (recording k))) (base k)"
    by (simp add: rec_client mk_eq res_kind(1))
  have ks: "kind_of (rs_Mk (res (recording k)) y) = rs_Kind (res (recording k))" for y
    by (simp add: mk_eq kind res_kind(1))
  from deleteObject_recorded [OF assms c ks] obtain cs where cs:
    "appends s cs t" "err = None \<longleftrightarrow> list_all succeeded cs"
    "list_all (object_entry (rs_Kind (res (recording k)))) cs"
    "\<not> patches \<or> same_key (base k) (rs_Meta (res (recording k))) \<and>
       m_Namespace (rs_Meta (res (recording k)) (rs_SetFinalizers (res (recording k)) [] x)) =
         m_Namespace (rs_Meta (res (recording k)) x) \<and>
       m_Name (rs_Meta (res (recording k)) (rs_SetFinalizers (res (recording k)) [] x)) =
         m_Name (rs_Meta (res (recording k)) x) \<Longrightarrow>
     deletions cs = [(rs_Kind (res (recording k)), m_Namespace (rs_Meta (res (recording k)) x),
       m_Name (rs_Meta (res (recording k)) x))]" by metis
  show ?thesis
    by (rule that [OF cs(1,2)])
      (use cs(3,4) finalizers_key [of "recording k" x] in
        \<open>auto simp: res_kind(1) meta_eq key_of_obj_def kind mk_meta\<close>)
qed

lemma swept:
  assumes "del (recording k) nodeID s = Some (err, t)"
  obtains cs where "appends s cs t" "sweeps res_kind nodeID (\<not> patches \<or> same_key (base k) meta) err cs"
proof -
  let ?keyed = "\<not> patches \<or> same_key (base k) meta"
  obtain a s1 where l: "klist (rs_Client (res (recording k))) list_all_objects s = Some (a, s1)"
    using calls_return_ex(2) by blast
  have al: "appends s [(R_List res_kind list_all_objects, items_answer mk a)] s1"
    by (rule calls_recorded(2)) (use l in \<open>simp add: rec_client\<close>)
  show ?thesis
  proof (cases a)
    case (Inl e)
    with assms l have "err = Some e" "t = s1" by (auto simp: del_eq)
    with al Inl show ?thesis by (intro that) (auto simp: sweeps_def)
  next
    case (Inr xs)
    with assms l obtain errors where loop: "for_errors (\<lambda>x s.
        if node_of x = nodeID then deleteObject (res (recording k)) x patches s else Some (None, s)) xs s1
          = Some (errors, t)" and err: "err = join_errors errors"
      by (auto simp: del_eq split: Option.bind_splits)
    let ?Q = "\<lambda>x e cs. (e = None \<longleftrightarrow> list_all succeeded cs) \<and> list_all (object_entry res_kind) cs
      \<and> (?keyed \<longrightarrow> deletions cs = (if node_of x = nodeID then [key_of_obj (mk x)] else []))"
    have "\<exists>cs. appends u cs v \<and> ?Q x e cs"
      if "(if node_of x = nodeID then deleteObject (res (recording k)) x patches u else Some (None, u)) = Some (e, v)"
      for x u e v
    proof (cases "node_of x = nodeID")
      case True
      with that have "deleteObject (res (recording k)) x patches u = Some (e, v)" by simp
      from object_recorded [OF this] True show ?thesis by metis
    next
      case False
      with that show ?thesis by (intro exI [of _ "[]"]) simp
    qed
    from for_errors_appends [OF loop, of ?Q, OF this] obtain os where
      os: "list_all2 (\<lambda>x (e, cs). ?Q x e cs) xs os" "appends s1 (concat (map snd os)) t" "errors = somes (map fst os)"
      by blast
    have ok: "somes (map fst os) = [] \<longleftrightarrow> list_all succeeded (concat (map snd os))"
      using os(1) by (induction rule: list_all2_induct) (auto split: option.splits)
    have kinds: "list_all (object_entry res_kind) (concat (map snd os))"
      using os(1) by (induction rule: list_all2_induct) (auto simp: list_all_iff)
    have del: "deletions (concat (map snd os)) =
        map key_of_obj (filter (\<lambda>y. resource_node y = Some nodeID) (map mk xs))" if ?keyed
    proof -
      have "list_all2 (\<lambda>x (e, cs). deletions cs = (if node_of x = nodeID then [key_of_obj (mk x)] else [])) xs os"
        by (rule list_all2_mono [OF os(1)]) (use that in \<open>clarsimp split: if_splits\<close>)
      then show ?thesis
        by (induction rule: list_all2_induct) (auto simp: mk_node)
    qed
    have "appends s ((R_List res_kind list_all_objects, A_Items (map mk xs)) # concat (map snd os)) t"
      using appends_trans [OF al os(2)] Inr by simp
    then show ?thesis
      by (rule that) (use ok kinds del err os(3) in \<open>auto simp: sweeps_def join_errors_def split: if_splits\<close>)
  qed
qed

end

interpretation rec_drives: recorded_resource deleteDrives drive_res dr_NodeId False K_Drive k_Drives O_Drive dr_Meta
  by unfold_locales (auto simp: drive_res_def)

interpretation rec_acs: recorded_resource deleteACs ac_res ac_NodeId False K_AvailableCapacity
    k_ACs O_AvailableCapacity ac_Meta
  by unfold_locales (auto simp: ac_res_def)

interpretation rec_lvgs: recorded_resource deleteLVGs lvg_res lvg_Node True K_LogicalVolumeGroup
    k_LVGs O_LogicalVolumeGroup lvg_Meta
  by unfold_locales (auto simp: lvg_res_def)

interpretation rec_volumes: recorded_resource deleteVolumes volume_res cv_NodeId True K_CsiVolume
    k_Volumes O_CsiVolume cv_Meta
  by unfold_locales (auto simp: volume_res_def)

section \<open>The resources of a node\<close>

lemma deleteCSIResources_recorded:
  assumes run: "deleteCSIResources (recording k) b s = Some (err, t)"
  obtains dr ac lv vo e1 e2 e3 e4 last where "appends s (dr @ ac @ lv @ vo @ last) t"
    "sweeps K_Drive (bn_UUID b) True e1 dr" "sweeps K_AvailableCapacity (bn_UUID b) True e2 ac"
    "sweeps K_LogicalVolumeGroup (bn_UUID b) (same_key (k_LVGs k) lvg_Meta) e3 lv"
    "sweeps K_CsiVolume (bn_UUID b) (same_key (k_Volumes k) cv_Meta) e4 vo"
    "if e1 = None \<and> e2 = None \<and> e3 = None \<and> e4 = None
     then \<exists>r. last = [(R_Delete K_CsibmNode (m_Namespace (bn_Meta b)) (m_Name (bn_Meta b)), done_answer r)]
       \<and> (err = None \<longleftrightarrow> r = None)
     else last = [] \<and> err \<noteq> None"
proof -
  from run obtain e1 s1 e2 s2 e3 s3 e4 s4 where
    1: "deleteDrives (recording k) (bn_UUID b) s = Some (e1, s1)" and
    2: "deleteACs (recording k) (bn_UUID b) s1 = Some (e2, s2)" and
    3: "deleteLVGs (recording k) (bn_UUID b) s2 = Some (e3, s3)" and
    4: "deleteVolumes (recording k) (bn_UUID b) s3 = Some (e4, s4)" and
    r: "if add_error e4 (add_error e3 (add_error e2 (add_error e1 []))) \<noteq> []
        then err = join_errors (add_error e4 (add_error e3 (add_error e2 (add_error e1 [])))) \<and> t = s4
        else deleteObject (csibmnode_res (recording k)) b False s4 = Some (err, t)"
    by (auto simp: deleteCSIResources_def Let_def split: Option.bind_splits if_splits)
  from rec_drives.swept [OF 1] obtain dr where d: "appends s dr s1" "sweeps K_Drive (bn_UUID b) True e1 dr" by auto
  from rec_acs.swept [OF 2] obtain ac where
    a: "appends s1 ac s2" "sweeps K_AvailableCapacity (bn_UUID b) True e2 ac" by auto
  from rec_lvgs.swept [OF 3] obtain lv where
    l: "appends s2 lv s3" "sweeps K_LogicalVolumeGroup (bn_UUID b) (same_key (k_LVGs k) lvg_Meta) e3 lv" by auto
  from rec_volumes.swept [OF 4] obtain vo where
    v: "appends s3 vo s4" "sweeps K_CsiVolume (bn_UUID b) (same_key (k_Volumes k) cv_Meta) e4 vo" by auto
  from d(1) a(1) l(1) v(1) have four: "appends s (dr @ ac @ lv @ vo) s4" by (simp add: appends_def)
  show ?thesis
  proof (cases "e1 = None \<and> e2 = None \<and> e3 = None \<and> e4 = None")
    case False
    then have "add_error e4 (add_error e3 (add_error e2 (add_error e1 []))) \<noteq> []"
      by (auto simp: add_error_def split: option.splits)
    with r False have t: "t = s4" "err \<noteq> None" by (simp_all add: join_errors_def)
    have "appends s (dr @ ac @ lv @ vo @ []) t" using four t(1) by simp
    from that [OF this d(2) a(2) l(2) v(2)] False t(2) show ?thesis by auto
  next
    case True
    with r have "deleteObject (csibmnode_res (recording k)) b False s4 = Some (err, t)" by (simp add: add_error_def)
    then obtain q where q:
      "kdelete (recording_client O_CsibmNode K_CsibmNode (k_CsibmNodes k)) K_CsibmNode
         (m_Namespace (bn_Meta b)) (m_Name (bn_Meta b)) s4 = Some (q, t)" "err = join_errors (add_error q [])"
      by (auto simp: deleteObject_def csibmnode_res_def split: Option.bind_splits)
    have "appends s (dr @ ac @ lv @ vo @
        [(R_Delete K_CsibmNode (m_Namespace (bn_Meta b)) (m_Name (bn_Meta b)), done_answer q)]) t"
      using appends_trans [OF four calls_recorded(5) [OF q(1)]] by simp
    moreover have "err = None \<longleftrightarrow> q = None"
      using q(2) by (auto simp: join_errors_def add_error_def split: option.splits)
    ultimately show ?thesis using that [OF _ d(2) a(2) l(2) v(2)] True by auto
  qed
qed

text \<open>The record of the deletions of one kind: it begins with the list request, and everything in
  it is of this kind.\<close>

definition starts_with_list :: "kind \<Rightarrow> entry list \<Rightarrow> bool" where
  "starts_with_list kd cs \<longleftrightarrow>
     (\<exists>a rest. cs = (R_List kd list_all_objects, a) # rest) \<and> list_all (\<lambda>c. request_kind (fst c) = kd) cs"

lemma sweeps_starts: "sweeps kd nodeID keyed err cs \<Longrightarrow> starts_with_list kd cs"
  by (auto simp: sweeps_def starts_with_list_def list_all_iff dest: object_entry_kind)

lemma sweeps_ok: "sweeps kd nodeID keyed err cs \<Longrightarrow> err = None \<longleftrightarrow> list_all succeeded cs"
  by (auto simp: sweeps_def)

text \<open>C13. The csibmnode goes last: whatever the API answers, \<open>deleteCSIResources\<close> lists and
  deletes drives, then available capacities, then volume groups, then volumes; only if every
  one of these requests succeeded, the lists and the reads in between included, it then asks
  for the deletion of the csibmnode, once and as its very last request; otherwise it makes no
  request for the csibmnode at all. It reports success exactly if every request of the run
  succeeded, that last one included.\<close>

theorem csibmnode_deleted_last:
  assumes "deleteCSIResources (recording k) b s = Some (err, t)"
  shows "\<exists>dr ac lv vo last. new_entries s t = dr @ ac @ lv @ vo @ last
    \<and> starts_with_list K_Drive dr \<and> starts_with_list K_AvailableCapacity ac
    \<and> starts_with_list K_LogicalVolumeGroup lv \<and> starts_with_list K_CsiVolume vo
    \<and> (if list_all succeeded (dr @ ac @ lv @ vo)
       then \<exists>a. last = [(R_Delete K_CsibmNode (m_Namespace (bn_Meta b)) (m_Name (bn_Meta b)), a)]
       else last = [])
    \<and> (err = None \<longleftrightarrow> list_all succeeded (new_entries s t))"
proof -
  from deleteCSIResources_recorded [OF assms] obtain dr ac lv vo e1 e2 e3 e4 last where
    cs: "appends s (dr @ ac @ lv @ vo @ last) t" and
    sw: "sweeps K_Drive (bn_UUID b) True e1 dr" "sweeps K_AvailableCapacity (bn_UUID b) True e2 ac"
      "sweeps K_LogicalVolumeGroup (bn_UUID b) (same_key (k_LVGs k) lvg_Meta) e3 lv"
      "sweeps K_CsiVolume (bn_UUID b) (same_key (k_Volumes k) cv_Meta) e4 vo" and
    last: "if e1 = None \<and> e2 = None \<and> e3 = None \<and> e4 = None
     then \<exists>r. last = [(R_Delete K_CsibmNode (m_Namespace (bn_Meta b)) (m_Name (bn_Meta b)), done_answer r)]
       \<and> (err = None \<longleftrightarrow> r = None)
     else last = [] \<and> err \<noteq> None" .
  note new = appends_new [OF cs]
  note ok = sw [THEN sweeps_ok]
  have "starts_with_list K_Drive dr" "starts_with_list K_AvailableCapacity ac"
    "starts_with_list K_LogicalVolumeGroup lv" "starts_with_list K_CsiVolume vo"
    by (rule sweeps_starts [OF sw(1)] sweeps_starts [OF sw(2)] sweeps_starts [OF sw(3)] sweeps_starts [OF sw(4)])+
  moreover have "if list_all succeeded (dr @ ac @ lv @ vo)
       then \<exists>a. last = [(R_Delete K_CsibmNode (m_Namespace (bn_Meta b)) (m_Name (bn_Meta b)), a)] else last = []"
    using last by (simp add: ok split: if_splits) blast
  moreover have "err = None \<longleftrightarrow> list_all succeeded (dr @ ac @ lv @ vo @ last)"
    using last by (auto simp: ok [symmetric] split: if_splits)
  ultimately show ?thesis
    unfolding new by (intro exI [of _ dr] exI [of _ ac] exI [of _ lv] exI [of _ vo] exI [of _ last] conjI refl)
qed

section \<open>Only what was listed\<close>

text \<open>A deletion is justified by the answers before it: it is of the csibmnode, or of an object
  that a list request of its kind was answered with and that has the id of the node.\<close>

definition justified :: "CsibmNode \<Rightarrow> entry set \<Rightarrow> entry \<Rightarrow> bool" where
  "justified b seen c \<longleftrightarrow> (\<forall>kd ns n a. c = (R_Delete kd ns n, a) \<longrightarrow>
     kd = K_CsibmNode \<and> ns = m_Namespace (bn_Meta b) \<and> n = m_Name (bn_Meta b) \<or>
     (\<exists>ys. (R_List kd list_all_objects, A_Items ys) \<in> seen \<and>
        (\<exists>y \<in> set ys. resource_node y = Some (bn_UUID b) \<and> key_of_obj y = (kd, ns, n))))"

lemma sweeps_justified:
  assumes "sweeps kd (bn_UUID b) keyed err cs" keyed
  shows "guarded (justified b) seen cs"
proof -
  from assms(1) obtain a rest where cs: "cs = (R_List kd list_all_objects, a) # rest"
    and kinds: "list_all (object_entry kd) rest"
    and rest: "case a of A_Items ys \<Rightarrow> keyed \<longrightarrow>
               deletions rest = map key_of_obj (filter (\<lambda>y. resource_node y = Some (bn_UUID b)) ys)
           | _ \<Rightarrow> rest = []"
    unfolding sweeps_def by blast
  have "guarded (justified b) (insert (R_List kd list_all_objects, a) seen) rest"
  proof (rule guarded_all)
    fix c A
    assume c: "c \<in> set rest" and A: "insert (R_List kd list_all_objects, a) seen \<subseteq> A"
    from c rest assms(2) obtain ys where a: "a = A_Items ys"
      and del: "deletions rest = map key_of_obj (filter (\<lambda>y. resource_node y = Some (bn_UUID b)) ys)"
      by (cases a) auto
    show "justified b A c"
      unfolding justified_def
    proof (intro allI impI disjI2)
      fix kd' ns n r
      assume "c = (R_Delete kd' ns n, r)"
      with c have "(kd', ns, n) \<in> set (deletions rest)" and "kd' = kd"
        using kinds by (auto simp: in_deletions list_all_iff)
      with del a A show "\<exists>ys. (R_List kd' list_all_objects, A_Items ys) \<in> A \<and>
          (\<exists>y \<in> set ys. resource_node y = Some (bn_UUID b) \<and> key_of_obj y = (kd', ns, n))"
        by (intro exI [of _ ys]) auto
    qed
  qed
  then show ?thesis by (simp add: cs justified_def)
qed

text \<open>What was listed for the node was deleted, if everything succeeded.\<close>

lemma sweeps_complete:
  assumes "sweeps kd nodeID keyed err cs" keyed "(R_List kd' opts, A_Items ys) \<in> set cs"
    "y \<in> set ys" "resource_node y = Some nodeID"
  shows "key_of_obj y \<in> set (deletions cs)"
proof -
  from assms(1) obtain a rest where cs: "cs = (R_List kd list_all_objects, a) # rest"
    and kinds: "list_all (object_entry kd) rest"
    and rest: "case a of A_Items ys \<Rightarrow> keyed \<longrightarrow>
               deletions rest = map key_of_obj (filter (\<lambda>y. resource_node y = Some nodeID) ys)
           | _ \<Rightarrow> rest = []"
    unfolding sweeps_def by blast
  have "a = A_Items ys" using assms(3) kinds by (auto simp: cs list_all_iff)
  with rest assms(2,4,5) show ?thesis by (simp add: cs)
qed

lemma deleteCSIResources_justified:
  assumes run: "deleteCSIResources (recording k) b s = Some (err, t)"
    and same: "same_key (k_LVGs k) lvg_Meta" "same_key (k_Volumes k) cv_Meta"
  shows "guarded (justified b) {} (new_entries s t)"
    and "err = None \<Longrightarrow> (R_List kd opts, A_Items ys) \<in> set (new_entries s t) \<Longrightarrow> y \<in> set ys \<Longrightarrow>
      resource_node y = Some (bn_UUID b) \<Longrightarrow> key_of_obj y \<in> set (deletions (new_entries s t))"
    and "err = None \<Longrightarrow> list_all succeeded (new_entries s t)"
proof -
  from deleteCSIResources_recorded [OF run] obtain dr ac lv vo e1 e2 e3 e4 last where
    cs: "appends s (dr @ ac @ lv @ vo @ last) t" and
    sw: "sweeps K_Drive (bn_UUID b) True e1 dr" "sweeps K_AvailableCapacity (bn_UUID b) True e2 ac"
      "sweeps K_LogicalVolumeGroup (bn_UUID b) (same_key (k_LVGs k) lvg_Meta) e3 lv"
      "sweeps K_CsiVolume (bn_UUID b) (same_key (k_Volumes k) cv_Meta) e4 vo" and
    last: "if e1 = None \<and> e2 = None \<and> e3 = None \<and> e4 = None
     then \<exists>r. last = [(R_Delete K_CsibmNode (m_Namespace (bn_Meta b)) (m_Name (bn_Meta b)), done_answer r)]
       \<and> (err = None \<longleftrightarrow> r = None)
     else last = [] \<and> err \<noteq> None" .
  note new = appends_new [OF cs]
  have "guarded (justified b) A last" for A using last by (auto simp: justified_def split: if_splits)
  with same show "guarded (justified b) {} (new_entries s t)"
    unfolding new guarded_append
    by (simp add: sweeps_justified [OF sw(1)] sweeps_justified [OF sw(2)] sweeps_justified [OF sw(3)]
        sweeps_justified [OF sw(4)])
  show "list_all succeeded (new_entries s t)" if "err = None"
    using last that sw [THEN sweeps_ok] unfolding new by (auto split: if_splits)
  assume y: "(R_List kd opts, A_Items ys) \<in> set (new_entries s t)" "y \<in> set ys"
    "resource_node y = Some (bn_UUID b)"
  note c = sweeps_complete [OF _ _ _ y(2,3)]
  have "(R_List kd opts, A_Items ys) \<notin> set last" using last by (auto split: if_splits)
  then show "key_of_obj y \<in> set (deletions (new_entries s t))"
    using y(1) same unfolding new by (auto dest: c [OF sw(1) TrueI] c [OF sw(2) TrueI] c [OF sw(3)] c [OF sw(4)])
qed

text \<open>C21. The deletion of a node's resources goes exactly as far as the node, given an API that
  answers reads and updates of volume groups and volumes with the object asked for: every
  object \<open>deleteCSIResources\<close> asks to delete is the csibmnode or was before, in this very run,
  in the answer to the list request of its kind and carries the id of the node; and if the run
  reports success, everything that was listed with the id of the node has been deleted.\<close>

theorem deleteCSIResources_scoped:
  assumes run: "deleteCSIResources (recording k) b s = Some (err, t)"
    and same: "same_key (k_LVGs k) lvg_Meta" "same_key (k_Volumes k) cv_Meta"
  shows "(\<forall>pre kd ns n a post. new_entries s t = pre @ (R_Delete kd ns n, a) # post \<longrightarrow>
       kd = K_CsibmNode \<and> ns = m_Namespace (bn_Meta b) \<and> n = m_Name (bn_Meta b) \<or>
       (\<exists>ys. (R_List kd list_all_objects, A_Items ys) \<in> set pre \<and>
          (\<exists>y \<in> set ys. resource_node y = Some (bn_UUID b) \<and> key_of_obj y = (kd, ns, n))))
    \<and> (err = None \<longrightarrow>
       (\<forall>kd opts ys y. (R_List kd opts, A_Items ys) \<in> set (new_entries s t) \<and> y \<in> set ys
            \<and> resource_node y = Some (bn_UUID b) \<longrightarrow>
          (\<exists>kd' ns n a. key_of_obj y = (kd', ns, n) \<and> (R_Delete kd' ns n, a) \<in> set (new_entries s t)
             \<and> succeeded (R_Delete kd' ns n, a))))"
  (is "?only \<and> (err = None \<longrightarrow> ?all)")
proof (intro conjI impI)
  note j = deleteCSIResources_justified [OF assms]
  show ?only
    using j(1) by (auto simp: guarded_append justified_def)
  assume ok: "err = None"
  show ?all
  proof (intro allI impI, elim conjE)
    fix kd opts ys y
    assume l: "(R_List kd opts, A_Items ys) \<in> set (new_entries s t)" "y \<in> set ys"
      "resource_node y = Some (bn_UUID b)"
    obtain kd' ns n where key: "key_of_obj y = (kd', ns, n)" by (cases "key_of_obj y") auto
    from j(2) [OF ok l] key obtain a where a: "(R_Delete kd' ns n, a) \<in> set (new_entries s t)"
      by (auto simp: in_deletions)
    with j(3) [OF ok] have "succeeded (R_Delete kd' ns n, a)" by (auto simp: list_all_iff)
    with key a show "\<exists>kd' ns n a. key_of_obj y = (kd', ns, n) \<and> (R_Delete kd' ns n, a) \<in> set (new_entries s t)
             \<and> succeeded (R_Delete kd' ns n, a)" by blast
  qed
qed

section \<open>A pass of node removal\<close>

text \<open>The options \<open>GetSelectedNodes\<close> lists the nodes with.\<close>

definition selected_opts :: "NodeSelector option \<Rightarrow> list_opts" where
  "selected_opts selector =
     (case selector of
        None \<Rightarrow> list_all_objects
      | Some n \<Rightarrow> list_all_objects\<lparr>lo_Labels := [(ns_Key n, Some (ns_Value n))]\<rparr>)"

text \<open>The updates of the loop delete nothing.\<close>

lemma removal_loop_recorded:
  assumes "removal_loop (recording k) (getMapIsNodesTainted nodes rTaint) bs s = Some (errors, removing, t)"
  shows "\<exists>cs. appends s cs t \<and> deletions cs = []"
  using assms
proof (induction bs arbitrary: s errors removing)
  case (Cons b bs)
  let ?loop = "removal_loop (recording k) (getMapIsNodesTainted nodes rTaint) bs"
  have "\<exists>u ds e r. ?loop u = Some (e, r, t) \<and> appends s ds u \<and> deletions ds = []"
  proof (cases "relabel nodes b")
    case None
    then have "removal_action nodes b = Remove \<or> removal_action nodes b = Keep"
      by (cases "removal_action nodes b") (auto simp: relabel_def)
    with Cons.prems None obtain e r where "?loop s = Some (e, r, t)"
      by (auto simp: removal_loop_Cons split: Option.bind_splits)
    then show ?thesis by (intro exI [of _ s] exI [of _ "[] :: entry list"]) simp
  next
    case (Some b')
    then have "removal_action nodes b = AddLabel \<or> removal_action nodes b = DropLabel"
      by (cases "removal_action nodes b") (auto simp: relabel_def)
    with Cons.prems Some obtain u s1 e r where
      k: "kupdate (k_CsibmNodes (recording k)) O_CsibmNode b' s = Some (u, s1)" and
      l: "?loop s1 = Some (e, r, t)"
      by (auto simp del: recording_clients simp: removal_loop_Cons split: Option.bind_splits)
    from calls_recorded(4) [OF k [unfolded recording_clients]] l show ?thesis
      by (intro exI [of _ s1]) (auto simp: appends_def)
  qed
  then obtain u ds e r where u: "?loop u = Some (e, r, t)" "appends s ds u" "deletions ds = []" by blast
  from Cons.IH [OF u(1)] obtain cs where "appends u cs t" "deletions cs = []" by blast
  with u(2,3) show ?case by (intro exI [of _ "ds @ cs"]) (auto intro: appends_trans)
qed (auto intro: exI [of _ "[]"])

text \<open>A csibmnode is deleted after the answer that no daemonset pod runs on its host.\<close>

definition drained :: "CsibmNode list \<Rightarrow> entry set \<Rightarrow> entry \<Rightarrow> bool" where
  "drained bs seen c \<longleftrightarrow> (\<forall>ns n a. c = (R_Delete K_CsibmNode ns n, a) \<longrightarrow>
     (\<exists>b \<in> set bs. ns = m_Namespace (bn_Meta b) \<and> n = m_Name (bn_Meta b)
        \<and> (R_List K_Pod (node_pod_opts (getNodeName b)), A_Items []) \<in> seen))"

lemma starts_drained: "starts_with_list kd cs \<Longrightarrow> kd \<noteq> K_CsibmNode \<Longrightarrow> guarded (drained bs) A cs"
  by (rule guarded_all) (auto simp: starts_with_list_def drained_def list_all_iff)

lemma removeNode_drained:
  assumes run: "removeNode (recording k) b s = Some (err, t)" and b: "b \<in> set bs"
  shows "\<exists>cs. appends s cs t \<and> (\<forall>A. guarded (drained bs) A cs)"
proof -
  obtain a u where l: "klist (k_Pods (recording k)) (node_pod_opts (getNodeName b)) s = Some (a, u)"
    using calls_return_ex(2) by blast
  let ?l = "(R_List K_Pod (node_pod_opts (getNodeName b)), items_answer O_Pod a)"
  from calls_recorded(2) [OF l [unfolded recording_clients]] have al: "appends s [?l] u" .
  have l': "drained bs A ?l" for A by (simp add: drained_def)
  show ?thesis
  proof (cases "a = Inr []")
    case False
    with run l have "t = u"
      by (cases a) (auto simp: removeNode_def checkDaemonsetPodRunning_def simp del: recording_clients)
    with al l' show ?thesis by (intro exI [of _ "[?l]"]) simp
  next
    case True
    with run l have "deleteCSIResources (recording k) b u = Some (err, t)"
      by (auto simp: removeNode_def checkDaemonsetPodRunning_def simp del: recording_clients)
    from deleteCSIResources_recorded [OF this] obtain dr ac lv vo e1 e2 e3 e4 last where
      cs: "appends u (dr @ ac @ lv @ vo @ last) t" and
      sw: "sweeps K_Drive (bn_UUID b) True e1 dr" "sweeps K_AvailableCapacity (bn_UUID b) True e2 ac"
        "sweeps K_LogicalVolumeGroup (bn_UUID b) (same_key (k_LVGs k) lvg_Meta) e3 lv"
        "sweeps K_CsiVolume (bn_UUID b) (same_key (k_Volumes k) cv_Meta) e4 vo" and
      last: "if e1 = None \<and> e2 = None \<and> e3 = None \<and> e4 = None
       then \<exists>r. last = [(R_Delete K_CsibmNode (m_Namespace (bn_Meta b)) (m_Name (bn_Meta b)), done_answer r)]
         \<and> (err = None \<longleftrightarrow> r = None)
       else last = [] \<and> err \<noteq> None" .
    note st = sw [THEN sweeps_starts]
    have "guarded (drained bs) B last"
      if "(R_List K_Pod (node_pod_opts (getNodeName b)), A_Items []) \<in> B" for B
      using last b that by (auto simp: drained_def split: if_splits)
    moreover have "?l = (R_List K_Pod (node_pod_opts (getNodeName b)), A_Items [])" using True by simp
    ultimately have "guarded (drained bs) A (?l # dr @ ac @ lv @ vo @ last)" for A
      using l' st [THEN starts_drained [of _ _ bs]] by (simp add: guarded_append)
    moreover have "appends s (?l # dr @ ac @ lv @ vo @ last) t" using appends_trans [OF al cs] by simp
    ultimately show ?thesis by blast
  qed
qed

lemma removeNodes_drained:
  assumes run: "removeNodes (recording k) bs s = Some (err, t)"
  shows "\<exists>cs. appends s cs t \<and> (\<forall>A. guarded (drained bs) A cs)"
proof -
  from run obtain errors where l: "for_errors (removeNode (recording k)) bs s = Some (errors, t)"
    by (auto simp: removeNodes_def split: Option.bind_splits)
  have "\<exists>css. appends s (concat css) t \<and> (\<forall>cs \<in> set css. \<forall>A. guarded (drained bs) A cs)"
    by (rule for_errors_appends_all [OF l]) (erule (1) removeNode_drained [rotated])
  then obtain css where "appends s (concat css) t" "\<forall>cs \<in> set css. \<forall>A. guarded (drained bs) A cs" by blast
  then show ?thesis by (intro exI [of _ "concat css"]) (auto intro: guarded_concat)
qed

lemma maintenance_drained:
  assumes "handleNodeMaintenance (recording k) nodes s = Some (err, t)"
  shows "\<exists>cs. appends s cs t \<and> (\<forall>A. guarded (drained bs) A cs)"
proof -
  have "flow2 (recording k) {K_Pod} s (handleNodeMaintenance (recording k) nodes s)"
    by (rule flow_handleNodeMaintenance) simp
  with assms have "calls (recording k) {K_Pod} s t" by (auto simp: flow2_def)
  from recorded_calls [OF this] obtain cs where cs: "appends s cs t" "list_all (entry_in {K_Pod}) cs" .
  have "guarded (drained bs) A cs" for A
    by (rule guarded_all) (use cs(2) in \<open>auto simp: drained_def list_all_iff entry_in_def\<close>)
  with cs(1) show ?thesis by blast
qed

lemma no_deletions_drained: "deletions cs = [] \<Longrightarrow> guarded (drained bs) A cs"
  by (rule guarded_all) (auto simp: drained_def dest: in_deletions [THEN iffD2, OF exI])

text \<open>C8. Safety of node removal in a whole reconciliation: whenever \<open>Reconcile\<close> of the node
  operations asks the API to delete a csibmnode, then before, in this very pass, the API
  answered the list requests for nodes and csibmnodes with lists such that this csibmnode was
  listed with the removal label and no listed cluster node had its host name, and it answered
  the list request for the pods of the node daemonset on that host with no pod.\<close>

theorem csibmnode_removal_safe:
  assumes run: "node_ops_reconcile (recording k) csi s = Some (err, t)"
    and ev: "new_entries s t = before @ (R_Delete K_CsibmNode ns n, a) # after"
  shows "\<exists>nodes bs b.
      (R_List K_CoreNode (selected_opts (case csi of Some d \<Rightarrow> sp_NodeSelector (dep_Spec d) | None \<Rightarrow> None)),
         A_Items (map O_CoreNode nodes)) \<in> set before
    \<and> (R_List K_CsibmNode list_all_objects, A_Items (map O_CsibmNode bs)) \<in> set before
    \<and> b \<in> set bs \<and> m_Namespace (bn_Meta b) = ns \<and> m_Name (bn_Meta b) = n \<and> labelled b
    \<and> getNodeName b \<notin> (\<lambda>c. m_Name (n_Meta c)) ` set nodes
    \<and> (R_List K_Pod (node_pod_opts (getNodeName b)), A_Items []) \<in> set before"
proof -
  let ?sel = "case csi of Some d \<Rightarrow> sp_NodeSelector (dep_Spec d) | None \<Rightarrow> None"
  have sel: "GetSelectedNodes (recording k) ?sel s = klist (k_Nodes (recording k)) (selected_opts ?sel) s"
    by (simp add: GetSelectedNodes_def selected_opts_def)
  obtain rn s1 where g: "klist (k_Nodes (recording k)) (selected_opts ?sel) s = Some (rn, s1)"
    using calls_return_ex(2) by blast
  obtain rb s2 where l: "klist (k_CsibmNodes (recording k)) list_all_objects s1 = Some (rb, s2)"
    using calls_return_ex(2) by blast
  let ?n = "(R_List K_CoreNode (selected_opts ?sel), items_answer O_CoreNode rn)"
  let ?b = "(R_List K_CsibmNode list_all_objects, items_answer O_CsibmNode rb)"
  have a1: "appends s [?n] s1" by (rule calls_recorded(2) [OF g [unfolded recording_clients]])
  have a2: "appends s1 [?b] s2" by (rule calls_recorded(2) [OF l [unfolded recording_clients]])
  note defs = node_ops_reconcile_def Let_def sel g l
  have "\<exists>nodes. rn = Inr nodes"
  proof (cases rn)
    case (Inl e)
    with run have "s1 = t" by (simp add: defs del: recording_clients)
    with appends_new [OF a1] ev show ?thesis by (auto simp: append_eq_Cons_conv)
  qed blast
  then obtain nodes where rn: "rn = Inr nodes" ..
  have "\<exists>bs. rb = Inr bs"
  proof (cases rb)
    case (Inl e)
    with run rn have "s2 = t" by (simp add: defs del: recording_clients)
    with appends_new [OF appends_trans [OF a1 a2]] ev show ?thesis by (auto simp: append_eq_Cons_conv)
  qed blast
  then obtain bs where rb: "rb = Inr bs" ..
  let ?rm = "filter (\<lambda>b. removal_action nodes b = Remove) bs"
  from run rn rb obtain e1 s3 e2 where
    h: "handleNodeRemoval (recording k) bs nodes s2 = Some (e1, s3)" and
    m: "handleNodeMaintenance (recording k) nodes s3 = Some (e2, t)"
    by (auto simp: defs simp del: recording_clients split: Option.bind_splits)
  from h obtain errors removing u where
    lo: "removal_loop (recording k) (getMapIsNodesTainted nodes rTaint) bs s2 = Some (errors, removing, u)" and
    r: "u = s3 \<or> removeNodes (recording k) removing u = Some (e1, s3)"
    by (auto simp: handleNodeRemoval_def split: Option.bind_splits if_splits)
  have rm: "removing = ?rm" using removal_loop_refines [OF lo] by blast
  from removal_loop_recorded [OF lo] obtain cs where cs: "appends s2 cs u" "deletions cs = []" by blast
  from r obtain ds where ds: "appends u ds s3" "\<And>A. guarded (drained ?rm) A ds"
  proof
    assume "u = s3"
    with that [of "[]"] show thesis by simp
  next
    assume "removeNodes (recording k) removing u = Some (e1, s3)"
    from removeNodes_drained [OF this] that show thesis unfolding rm by blast
  qed
  from maintenance_drained [OF m] obtain fs where
    fs: "appends s3 fs t" "\<And>A. guarded (drained ?rm) A fs" by blast
  have "appends s ([?n] @ [?b] @ cs @ ds @ fs) t"
    using a1 a2 cs(1) ds(1) fs(1) by (blast intro: appends_trans)
  then have new: "new_entries s t = [?n] @ [?b] @ cs @ ds @ fs" by (rule appends_new)
  have "guarded (drained ?rm) {} (new_entries s t)"
    using ds(2) fs(2) no_deletions_drained [OF cs(2)] unfolding new by (simp add: guarded_append drained_def)
  from guarded_split [OF this [unfolded ev]] obtain b where b: "b \<in> set bs" "removal_action nodes b = Remove"
    "ns = m_Namespace (bn_Meta b)" "n = m_Name (bn_Meta b)"
    "(R_List K_Pod (node_pod_opts (getNodeName b)), A_Items []) \<in> set before"
    by (auto simp: drained_def)
  from b(2) have "labelled b" "cluster_node nodes b = None"
    by (auto simp: removal_action_def split: option.splits if_splits)
  then have free: "labelled b" "getNodeName b \<notin> (\<lambda>c. m_Name (n_Meta c)) ` set nodes"
    using cluster_node_None by metis+
  have "?n \<in> set before" "?b \<in> set before"
    using ev unfolding new by (auto simp: Cons_eq_append_conv)
  with b free rn rb show ?thesis by (intro exI [of _ nodes] exI [of _ bs] exI [of _ b]) simp
qed

section \<open>Witnesses\<close>

abbreviation removal_start :: "(unit \<times> entry list) sys" where
  "removal_start \<equiv> start ((), [])"

definition removal_record :: "entry list" where
  "removal_record =
     [(R_List K_Drive list_all_objects, A_Items [O_Drive example_drive]), (R_Delete K_Drive [] ''drive'', A_Done),
      (R_List K_AvailableCapacity list_all_objects, A_Items []),
      (R_List K_LogicalVolumeGroup list_all_objects, A_Items []), (R_List K_CsiVolume list_all_objects, A_Items []),
      (R_Delete K_CsibmNode [] ''n1'', A_Done)]"

lemma removal_resources_run:
  assumes "record_of s = cs"
  shows "\<exists>t. deleteCSIResources (recording removal_cluster) (example_node ''n1'') s = Some (None, t)
     \<and> record_of t = cs @ removal_record"
  using assms
  by (simp add: removal_example_simps join_errors_def removal_record_def)

theorem csibmnode_deleted_last_witness:
  "\<exists>t cs a. deleteCSIResources (recording removal_cluster) (example_node ''n1'') removal_start = Some (None, t)
     \<and> new_entries removal_start t = cs @ [(R_Delete K_CsibmNode [] ''n1'', a)] \<and> list_all succeeded cs"
proof -
  from removal_resources_run [of removal_start "[]"] obtain t where
    t: "deleteCSIResources (recording removal_cluster) (example_node ''n1'') removal_start = Some (None, t)" by auto
  from csibmnode_deleted_last [OF t] obtain dr ac lv vo last where
    n: "new_entries removal_start t = dr @ ac @ lv @ vo @ last" "list_all succeeded (new_entries removal_start t)"
    "if list_all succeeded (dr @ ac @ lv @ vo)
     then \<exists>a. last = [(R_Delete K_CsibmNode (m_Namespace (bn_Meta (example_node ''n1'')))
            (m_Name (bn_Meta (example_node ''n1''))), a)] else last = []"
    by auto
  then obtain a where "last = [(R_Delete K_CsibmNode [] ''n1'', a)]" by (auto simp: example_node_def)
  with t n show ?thesis by (intro exI [of _ t] exI [of _ "dr @ ac @ lv @ vo"] exI [of _ a]) simp
qed

theorem deleteCSIResources_scoped_witness:
  "\<exists>t ys y. deleteCSIResources (recording removal_cluster) (example_node ''n1'') removal_start = Some (None, t)
     \<and> (R_List K_Drive list_all_objects, A_Items ys) \<in> set (new_entries removal_start t)
     \<and> y \<in> set ys \<and> resource_node y = Some ''n1'' \<and> key_of_obj y = (K_Drive, [], ''drive'')"
proof -
  from removal_resources_run [of removal_start "[]"] obtain t where
    t: "deleteCSIResources (recording removal_cluster) (example_node ''n1'') removal_start = Some (None, t)"
    "record_of t = removal_record" by auto
  have same: "same_key (k_LVGs removal_cluster) lvg_Meta" "same_key (k_Volumes removal_cluster) cv_Meta"
    by (simp_all add: removal_cluster_def)
  let ?pre = "[(R_List K_Drive list_all_objects, A_Items [O_Drive example_drive])]"
  have "new_entries removal_start t = ?pre @ (R_Delete K_Drive [] ''drive'', A_Done) # drop 2 removal_record"
    by (simp add: new_entries_def t(2) removal_record_def)
  with deleteCSIResources_scoped [OF t(1) same] have
    "\<exists>ys. (R_List K_Drive list_all_objects, A_Items ys) \<in> set ?pre \<and>
       (\<exists>y \<in> set ys. resource_node y = Some (bn_UUID (example_node ''n1'')) \<and> key_of_obj y = (K_Drive, [], ''drive''))"
    by blast
  with t(1) \<open>new_entries removal_start t = _\<close> show ?thesis by (auto simp: example_node_def)
qed

lemma removal_reconcile_run:
  "\<exists>t before. node_ops_reconcile (recording removal_cluster) None removal_start = Some (None, t)
     \<and> new_entries removal_start t = before @ [(R_Delete K_CsibmNode [] ''n1'', A_Done)]"
proof -
  let ?k = "recording removal_cluster" and ?b = "example_node ''n1''"
  let ?s1 = "record_entry (R_List K_CoreNode list_all_objects, A_Items []) removal_start"
  let ?s2 = "record_entry (R_List K_CsibmNode list_all_objects, A_Items [O_CsibmNode ?b]) ?s1"
  let ?s3 = "record_entry (R_List K_Pod (node_pod_opts ''n1''), A_Items []) ?s2"
  from removal_resources_run [of ?s3, OF refl] obtain t where
    t: "deleteCSIResources ?k ?b ?s3 = Some (None, t)" "record_of t = record_of ?s3 @ removal_record" by blast
  have c: "k_Nodes ?k = recording_client O_CoreNode K_CoreNode (canned [])"
    "k_CsibmNodes ?k = recording_client O_CsibmNode K_CsibmNode (canned [?b])"
    "k_Pods ?k = recording_client O_Pod K_Pod (canned [])" by (simp_all add: removal_cluster_def)
  have r: "getNodeName ?b = ''n1''" "removal_action [] ?b = Remove" "relabel [] ?b = None"
    by (simp_all add: getNodeName_def example_node_def map_index_def removal_action_def cluster_node_def
        labelled_def relabel_def)
  have "removal_loop ?k (getMapIsNodesTainted [] rTaint) [?b] ?s2 = Some ([], [?b], ?s2)"
    by (simp add: removal_loop_Cons r)
  moreover have "removeNode ?k ?b ?s2 = Some (None, t)"
    using t(1) by (simp add: removeNode_def checkDaemonsetPodRunning_def c r(1) del: recording_clients)
  ultimately have "handleNodeRemoval ?k [?b] [] ?s2 = Some (None, t)"
    by (simp add: handleNodeRemoval_def removeNodes_def join_errors_def)
  then have "node_ops_reconcile ?k None removal_start = Some (None, t)"
    by (simp add: node_ops_reconcile_def GetSelectedNodes_def c handleNodeMaintenance_def join_errors_def
        del: recording_clients)
  moreover have "new_entries removal_start t = (record_of ?s3 @ butlast removal_record)
      @ [(R_Delete K_CsibmNode [] ''n1'', A_Done)]"
    by (simp add: new_entries_def t(2) removal_record_def)
  ultimately show ?thesis by blast
qed

theorem csibmnode_removal_safe_witness:
  "\<exists>t before b. node_ops_reconcile (recording removal_cluster) None removal_start = Some (None, t)
     \<and> new_entries removal_start t = before @ [(R_Delete K_CsibmNode [] ''n1'', A_Done)]
     \<and> labelled b \<and> m_Name (bn_Meta b) = ''n1''
     \<and> (R_List K_Pod (node_pod_opts (getNodeName b)), A_Items []) \<in> set before"
proof -
  from removal_reconcile_run obtain t before where
    t: "node_ops_reconcile (recording removal_cluster) None removal_start = Some (None, t)"
    "new_entries removal_start t = before @ [(R_Delete K_CsibmNode [] ''n1'', A_Done)]" by blast
  from csibmnode_removal_safe [OF t] t show ?thesis by blast
qed

end
