(* ===== verification/NodeLifecycle.thy ===== *)
theory NodeLifecycle
  imports NodeRemoval
begin

text \<open>
  The life of one csibmnode over many reconciliations, as a state machine: the
  administrators taint, untaint, delete and add the cluster node at any time, and the
  operator runs \<open>handleNodeRemoval\<close> on whatever it lists, against an API that may refuse any
  request. What a pass does to the csibmnode is read off the requests the API accepted.
\<close>

section \<open>The effect of accepted requests\<close>

abbreviation key_of :: "CsibmNode \<Rightarrow> string \<times> string" where
  "key_of b \<equiv> (m_Namespace (bn_Meta b), m_Name (bn_Meta b))"

fun apply_event :: "event \<Rightarrow> CsibmNode option \<Rightarrow> CsibmNode option" where
  "apply_event (Updated (O_CsibmNode x) None) (Some b) = (if key_of x = key_of b then Some x else Some b)"
| "apply_event (Deleted K_CsibmNode ns n None) (Some b) = (if (ns, n) = key_of b then None else Some b)"
| "apply_event _ b = b"

abbreviation effect :: "event list \<Rightarrow> CsibmNode option \<Rightarrow> CsibmNode option" where
  "effect es b \<equiv> fold apply_event es b"

text \<open>The requests of a removal pass after the updates: on resources of nodes, or the deletion
  of a csibmnode.\<close>

definition removal_event :: "CsibmNode list \<Rightarrow> event \<Rightarrow> bool" where
  "removal_event bs e \<longleftrightarrow> resource_event e \<or>
     (\<exists>b \<in> set bs. \<exists>r. e = Deleted K_CsibmNode (m_Namespace (bn_Meta b)) (m_Name (bn_Meta b)) r)"

lemma apply_resource_event: "resource_event e \<Longrightarrow> apply_event e b = b"
  by (cases "(e, b)" rule: apply_event.cases) (auto simp: resource_event_def resource_kind_def)

lemma apply_None [simp]: "apply_event e None = None"
  by (cases "(e, None :: CsibmNode option)" rule: apply_event.cases) auto

lemma effect_None [simp]: "effect es None = None"
  by (induction es) simp_all

lemma effect_other_deletions:
  assumes "\<forall>e \<in> set es. removal_event bs e" "key_of c \<notin> key_of ` set bs"
  shows "effect es (Some c) = Some c"
  using assms(1)
proof (induction es)
  case (Cons e es)
  then have "removal_event bs e" by simp
  then have "apply_event e (Some c) = Some c"
    unfolding removal_event_def
  proof
    assume "\<exists>b \<in> set bs. \<exists>r. e = Deleted K_CsibmNode (m_Namespace (bn_Meta b)) (m_Name (bn_Meta b)) r"
    then obtain b r where b: "b \<in> set bs" "e = Deleted K_CsibmNode (m_Namespace (bn_Meta b)) (m_Name (bn_Meta b)) r"
      by blast
    with assms(2) have "key_of b \<noteq> key_of c" by (auto simp: image_iff)
    with b(2) show ?thesis by (cases r) auto
  qed (rule apply_resource_event)
  with Cons show ?case by simp
qed simp

lemma effect_deletions:
  assumes "\<forall>e \<in> set es. removal_event bs e"
  shows "effect es (Some c) \<in> {Some c, None}"
  using assms
proof (induction es)
  case (Cons e es)
  have "apply_event e (Some c) \<in> {Some c, None}"
  proof (cases "resource_event e")
    case False
    with Cons.prems obtain ns n r where "e = Deleted K_CsibmNode ns n r"
      by (auto simp: removal_event_def)
    then show ?thesis by (cases r) auto
  qed (simp add: apply_resource_event)
  with Cons show ?case by auto
qed simp

lemma effect_deleted:
  assumes "\<forall>e \<in> set es. removal_event bs e"
    "Deleted K_CsibmNode (m_Namespace (bn_Meta c)) (m_Name (bn_Meta c)) None \<in> set es"
  shows "effect es (Some c) = None"
  using assms
proof (induction es)
  case (Cons e es)
  show ?case
  proof (cases "e = Deleted K_CsibmNode (m_Namespace (bn_Meta c)) (m_Name (bn_Meta c)) None")
    case False
    moreover have "effect [e] (Some c) \<in> {Some c, None}"
      by (rule effect_deletions [of "[e]" bs]) (use Cons.prems in simp)
    ultimately show ?thesis using Cons by auto
  qed simp
qed simp

section \<open>The effect of the updates\<close>

lemma relabel_key: "relabel nodes b = Some b' \<Longrightarrow> key_of b' = key_of b"
  by (auto simp: relabel_def addNodeRemovalLabel_def deleteNodeRemovalLabel_def Let_def
      split: removal_action.splits)

lemma effect_other_updates:
  "key_of c \<notin> key_of ` set bs \<Longrightarrow>
   effect (updates (List.map_filter (relabel nodes) bs) rs) (Some c) = Some c"
proof (induction bs arbitrary: rs)
  case (Cons b bs)
  show ?case
  proof (cases "relabel nodes b")
    case (Some b')
    from Some Cons.prems have "key_of b' \<noteq> key_of c" using relabel_key [OF Some] by auto
    then have "apply_event (Updated (O_CsibmNode b') r) (Some c) = Some c" for r
      by (cases r) auto
    with Cons Some show ?thesis by (cases rs) (simp_all add: updates_def map_filter_simps)
  qed (use Cons in \<open>simp add: map_filter_simps\<close>)
qed (simp add: updates_def map_filter_simps)

lemma effect_updates:
  assumes "distinct (map key_of bs)" "b \<in> set bs" "length rs = length (List.map_filter (relabel nodes) bs)"
  shows "effect (updates (List.map_filter (relabel nodes) bs) rs) (Some b) \<in>
      insert (Some b) (Some ` set_option (relabel nodes b))"
    and "list_all (\<lambda>r. r = None) rs \<Longrightarrow>
      effect (updates (List.map_filter (relabel nodes) bs) rs) (Some b) =
      (case relabel nodes b of None \<Rightarrow> Some b | Some b' \<Rightarrow> Some b')"
proof -
  have "effect (updates (List.map_filter (relabel nodes) bs) rs) (Some b) \<in>
      insert (Some b) (Some ` set_option (relabel nodes b)) \<and>
    (list_all (\<lambda>r. r = None) rs \<longrightarrow> effect (updates (List.map_filter (relabel nodes) bs) rs) (Some b) =
      (case relabel nodes b of None \<Rightarrow> Some b | Some b' \<Rightarrow> Some b'))"
    using assms
  proof (induction bs arbitrary: rs)
    case (Cons x xs)
    show ?case
    proof (cases "x = b")
      case True
      then have new: "key_of b \<notin> key_of ` set xs" using Cons.prems(1) by auto
      show ?thesis
      proof (cases "relabel nodes b")
        case None
        with True new show ?thesis by (simp add: map_filter_simps effect_other_updates)
      next
        case (Some b')
        then obtain r rs' where "rs = r # rs'"
          using Cons.prems(3) True by (cases rs) (auto simp: map_filter_simps)
        moreover have "key_of b' \<notin> key_of ` set xs" using new relabel_key [OF Some] by simp
        ultimately show ?thesis
          using True Some new relabel_key [OF Some]
          by (cases r) (simp_all add: map_filter_simps updates_def [of "_ # _"] effect_other_updates
              updates_def [symmetric])
      qed
    next
      case False
      then have b: "b \<in> set xs" using Cons.prems(2) by simp
      then have ne: "key_of x \<noteq> key_of b" using Cons.prems(1) by auto
      show ?thesis
      proof (cases "relabel nodes x")
        case None
        with Cons b show ?thesis by (simp add: map_filter_simps)
      next
        case (Some x')
        then obtain r rs' where rs: "rs = r # rs'" "length rs' = length (List.map_filter (relabel nodes) xs)"
          using Cons.prems(3) by (cases rs) (auto simp: map_filter_simps)
        have "apply_event (Updated (O_CsibmNode x') r) (Some b) = Some b"
          using ne relabel_key [OF Some] by (cases r) auto
        then have "effect (updates (List.map_filter (relabel nodes) (x # xs)) rs) (Some b) =
            effect (updates (List.map_filter (relabel nodes) xs) rs') (Some b)"
          using rs(1) Some by (simp only: map_filter_simps updates_def option.case) simp
        moreover have "distinct (map key_of xs)" using Cons.prems(1) by simp
        moreover have "list_all (\<lambda>r. r = None) rs \<longrightarrow> list_all (\<lambda>r. r = None) rs'" using rs(1) by simp
        ultimately show ?thesis using Cons.IH [OF _ b rs(2)] by simp
      qed
    qed
  qed simp
  then show "effect (updates (List.map_filter (relabel nodes) bs) rs) (Some b) \<in>
      insert (Some b) (Some ` set_option (relabel nodes b))"
    and "list_all (\<lambda>r. r = None) rs \<Longrightarrow>
      effect (updates (List.map_filter (relabel nodes) bs) rs) (Some b) =
      (case relabel nodes b of None \<Rightarrow> Some b | Some b' \<Rightarrow> Some b')" by blast+
qed

section \<open>One pass\<close>

lemma for_errors_each:
  assumes "for_errors f xs s = Some ([], t)" "x \<in> set xs"
    and "\<And>x s e s'. f x s = Some (e, s') \<Longrightarrow> emits (\<lambda>_. True) s s'"
  shows "\<exists>u v. f x u = Some (None, v) \<and> set (new_events u v) \<subseteq> set (new_events s t)"
  using assms(1,2)
proof (induction xs arbitrary: s)
  case (Cons y ys)
  from Cons.prems(1) obtain s1 where 1: "f y s = Some (None, s1)" and 2: "for_errors f ys s1 = Some ([], t)"
    by (auto split: Option.bind_splits option.splits)
  from assms(3) [OF 1] obtain es where es: "trace s1 = trace s @ es" by (auto simp: emits_def)
  have "emits (\<lambda>_. True) s1 t"
    using for_errors_rel [OF 2, of "emits (\<lambda>_. True)"] assms(3) emits_trans by blast
  then obtain fs where fs: "trace t = trace s1 @ fs" by (auto simp: emits_def)
  from es fs have new: "new_events s s1 = es" "new_events s1 t = fs" "new_events s t = es @ fs" by simp_all
  show ?case
  proof (cases "x = y")
    case True
    with 1 new show ?thesis by (intro exI [of _ s] exI [of _ s1]) simp
  next
    case False
    with Cons.IH [OF 2] Cons.prems(2) new show ?thesis by (metis Un_iff set_ConsD set_append subset_iff)
  qed
qed simp

lemma removeNode_events:
  assumes "removeNode k b s = Some (err, t)"
  shows "emits (removal_event [b]) s t"
    and "err = None \<Longrightarrow>
      Deleted K_CsibmNode (m_Namespace (bn_Meta b)) (m_Name (bn_Meta b)) None \<in> set (new_events s t)"
proof -
  have "emits (removal_event [b]) s t \<and> (err = None \<longrightarrow>
      Deleted K_CsibmNode (m_Namespace (bn_Meta b)) (m_Name (bn_Meta b)) None \<in> set (new_events s t))"
    using assms
  proof (cases rule: removeNode_cases)
    case (cleaned u)
    from cleaned(3) show ?thesis
    proof (cases rule: deleteCSIResources_cases)
      case kept
      have "emits (removal_event [b]) u t" by (rule emits_mono [OF kept(2)]) (simp add: removal_event_def)
      with cleaned(2) kept(1) show ?thesis by (auto simp: emits_def)
    next
      case (removed v r)
      from removed(1) obtain es where "trace v = trace u @ es" "\<forall>e \<in> set es. resource_event e"
        by (auto simp: emits_set)
      with removed(2,3) cleaned(2) show ?thesis by (auto simp: emits_set removal_event_def)
    qed
  qed (simp add: silent_emits)
  then show "emits (removal_event [b]) s t" and "err = None \<Longrightarrow>
      Deleted K_CsibmNode (m_Namespace (bn_Meta b)) (m_Name (bn_Meta b)) None \<in> set (new_events s t)"
    by blast+
qed

lemma removeNodes_events:
  assumes "removeNodes k bs s = Some (err, t)"
  shows "emits (removal_event bs) s t"
    and "err = None \<Longrightarrow> b \<in> set bs \<Longrightarrow>
      Deleted K_CsibmNode (m_Namespace (bn_Meta b)) (m_Name (bn_Meta b)) None \<in> set (new_events s t)"
proof -
  from assms obtain errors where l: "for_errors (removeNode k) bs s = Some (errors, t)" and
    err: "err = join_errors errors"
    by (auto simp: removeNodes_def split: Option.bind_splits)
  show "emits (removal_event bs) s t"
  proof (rule for_errors_emits [OF l])
    fix x u e v
    assume x: "x \<in> set bs" and "removeNode k x u = Some (e, v)"
    from removeNode_events(1) [OF this(2)] show "emits (removal_event bs) u v"
    proof (rule emits_mono)
      fix e
      assume "removal_event [x] e"
      with x show "removal_event bs e" unfolding removal_event_def by auto
    qed
  qed
  assume "err = None" "b \<in> set bs"
  with l err have none: "for_errors (removeNode k) bs s = Some ([], t)"
    by (auto simp: join_errors_def split: if_splits)
  have "emits (\<lambda>_. True) u v" if "removeNode k x u = Some (e, v)" for x u e v
    by (rule emits_mono [OF removeNode_events(1) [OF that]]) simp
  with for_errors_each [OF none \<open>b \<in> set bs\<close>] obtain u v where
    "removeNode k b u = Some (None, v)" "set (new_events u v) \<subseteq> set (new_events s t)" by metis
  then show "Deleted K_CsibmNode (m_Namespace (bn_Meta b)) (m_Name (bn_Meta b)) None \<in> set (new_events s t)"
    using removeNode_events(2) by blast
qed

lemma pass_events:
  assumes "handleNodeRemoval k bs nodes s = Some (err, t)"
  obtains rs es where "length rs = length (List.map_filter (relabel nodes) bs)"
    "new_events s t = updates (List.map_filter (relabel nodes) bs) rs @ es"
    "\<forall>e \<in> set es. removal_event (filter (\<lambda>b. removal_action nodes b = Remove) bs) e"
    "err = None \<longrightarrow> list_all (\<lambda>r. r = None) rs"
    "\<forall>b. err = None \<and> b \<in> set bs \<and> removal_action nodes b = Remove \<longrightarrow>
       Deleted K_CsibmNode (m_Namespace (bn_Meta b)) (m_Name (bn_Meta b)) None \<in> set es"
proof -
  let ?L = "List.map_filter (relabel nodes) bs" and ?rm = "filter (\<lambda>b. removal_action nodes b = Remove) bs"
  from assms obtain errors removing u where
    l: "removal_loop k (getMapIsNodesTainted nodes rTaint) bs s = Some (errors, removing, u)" and
    r: "if errors \<noteq> [] then err = join_errors errors \<and> t = u else removeNodes k removing u = Some (err, t)"
    by (auto simp: handleNodeRemoval_def split: Option.bind_splits if_splits)
  from removal_loop_refines [OF l] obtain rs where rs: "length rs = length ?L"
    "trace u = trace s @ updates ?L rs" "errors = somes rs" "removing = ?rm" by blast
  show ?thesis
  proof (cases "errors = []")
    case False
    with r rs have n: "new_events s t = updates ?L rs @ []" and "err \<noteq> None"
      by (simp_all add: join_errors_def)
    from rs(1) n show ?thesis by (rule that) (use \<open>err \<noteq> None\<close> in auto)
  next
    case True
    with r rs(4) have n: "removeNodes k ?rm u = Some (err, t)" by simp
    from removeNodes_events(1) [OF n] obtain es where
      es: "trace t = trace u @ es" "\<forall>e \<in> set es. removal_event ?rm e" by (auto simp: emits_set)
    have "new_events u t = es" using es(1) by simp
    then have del: "err = None \<Longrightarrow> b \<in> set ?rm \<Longrightarrow>
        Deleted K_CsibmNode (m_Namespace (bn_Meta b)) (m_Name (bn_Meta b)) None \<in> set es" for b
      using removeNodes_events(2) [OF n] by simp
    have ok: "list_all (\<lambda>r. r = None) rs" using True rs(3) by simp
    have "new_events s t = updates ?L rs @ es" using es(1) rs(2) by simp
    with rs(1) show ?thesis by (rule that) (use es(2) ok del in simp_all)
  qed
qed


text \<open>What a pass makes of one csibmnode of its list.\<close>

lemma pass_effect:
  assumes run: "handleNodeRemoval k bs nodes s = Some (err, t)"
    and b: "b \<in> set bs" and d: "distinct (map key_of bs)"
  shows "removal_action nodes b = Remove \<Longrightarrow> effect (new_events s t) (Some b) \<in> {Some b, None}"
    and "removal_action nodes b \<noteq> Remove \<Longrightarrow>
      effect (new_events s t) (Some b) \<in> insert (Some b) (Some ` set_option (relabel nodes b))"
    and "err = None \<Longrightarrow> effect (new_events s t) (Some b) =
      (if removal_action nodes b = Remove then None
       else case relabel nodes b of None \<Rightarrow> Some b | Some b' \<Rightarrow> Some b')"
proof -
  let ?rm = "filter (\<lambda>b. removal_action nodes b = Remove) bs"
  from run obtain rs es where
    len: "length rs = length (List.map_filter (relabel nodes) bs)" and
    ev: "new_events s t = updates (List.map_filter (relabel nodes) bs) rs @ es" and
    es: "\<forall>e \<in> set es. removal_event ?rm e" and
    ok: "err = None \<longrightarrow> list_all (\<lambda>r. r = None) rs" and
    del: "\<forall>b. err = None \<and> b \<in> set bs \<and> removal_action nodes b = Remove \<longrightarrow>
       Deleted K_CsibmNode (m_Namespace (bn_Meta b)) (m_Name (bn_Meta b)) None \<in> set es"
    by (rule pass_events)
  define c where "c = effect (updates (List.map_filter (relabel nodes) bs) rs) (Some b)"
  have eff: "effect (new_events s t) (Some b) = effect es c"
    unfolding ev c_def by simp
  have rm: "relabel nodes b = None" if "removal_action nodes b = Remove"
    using that by (simp add: relabel_def)
  have c1: "c \<in> insert (Some b) (Some ` set_option (relabel nodes b))"
    unfolding c_def by (rule effect_updates(1) [OF d b len])
  have c2: "c = (case relabel nodes b of None \<Rightarrow> Some b | Some b' \<Rightarrow> Some b')" if "err = None"
    unfolding c_def by (rule effect_updates(2) [OF d b len ok [rule_format, OF that]])
  show "effect (new_events s t) (Some b) \<in> {Some b, None}" if "removal_action nodes b = Remove"
    using effect_deletions [OF es, of b] c1 rm [OF that] unfolding eff by simp
  have keep: "effect es c = c" if "removal_action nodes b \<noteq> Remove"
  proof -
    from c1 obtain x where x: "c = Some x" "key_of x = key_of b"
      using relabel_key by fastforce
    have "key_of b \<notin> key_of ` set ?rm"
      using d b that by (auto simp: distinct_map inj_on_def)
    with x es show ?thesis by (simp add: effect_other_deletions)
  qed
  show "effect (new_events s t) (Some b) \<in> insert (Some b) (Some ` set_option (relabel nodes b))"
    if "removal_action nodes b \<noteq> Remove"
    using keep [OF that] c1 unfolding eff by simp
  show "effect (new_events s t) (Some b) = (if removal_action nodes b = Remove then None
       else case relabel nodes b of None \<Rightarrow> Some b | Some b' \<Rightarrow> Some b')" if "err = None"
  proof (cases "removal_action nodes b = Remove")
    case True
    with c1 rm have "c = Some b" by simp
    with effect_deleted [OF es del [rule_format, of b]] True that b show ?thesis unfolding eff by simp
  next
    case False
    with keep c2 [OF that] show ?thesis unfolding eff by simp
  qed
qed


text \<open>C22. A pass of node removal that reports success has done everything the table asks for:
  each listed csibmnode to be removed was deleted, each one to be relabelled was updated,
  and the API accepted these requests.\<close>

theorem successful_pass_complete:
  assumes run: "handleNodeRemoval k bs nodes s = Some (None, t)" and b: "b \<in> set bs"
  shows "case removal_action nodes b of
      Remove \<Rightarrow> Deleted K_CsibmNode (m_Namespace (bn_Meta b)) (m_Name (bn_Meta b)) None \<in> set (new_events s t)
    | Keep \<Rightarrow> relabel nodes b = None
    | _ \<Rightarrow> (\<exists>b'. relabel nodes b = Some b' \<and> Updated (O_CsibmNode b') None \<in> set (new_events s t))"
proof -
  from run obtain rs es where
    len: "length rs = length (List.map_filter (relabel nodes) bs)" and
    ev: "new_events s t = updates (List.map_filter (relabel nodes) bs) rs @ es" and
    ok: "list_all (\<lambda>r. r = None) rs" and
    del: "\<forall>b. b \<in> set bs \<and> removal_action nodes b = Remove \<longrightarrow>
       Deleted K_CsibmNode (m_Namespace (bn_Meta b)) (m_Name (bn_Meta b)) None \<in> set es"
    by (rule pass_events) auto
  have rs: "rs = replicate (length (List.map_filter (relabel nodes) bs)) None"
    using len ok by (auto simp: list_all_iff intro: replicate_eqI)
  have "Updated (O_CsibmNode b') None \<in> set (new_events s t)" if "relabel nodes b = Some b'" for b'
  proof -
    have "b' \<in> set (List.map_filter (relabel nodes) bs)"
      using b that by (auto simp: List.map_filter_def intro!: image_eqI [of _ _ b])
    then show ?thesis unfolding ev rs updates_def
      by (auto simp: zip_replicate2 intro!: image_eqI)
  qed
  then show ?thesis
    using del b ev by (cases "removal_action nodes b") (auto simp: relabel_def)
qed

section \<open>Many passes\<close>

text \<open>
  The state: the cluster node the csibmnode stands for; the csibmnode and all versions of it
  there have been, which is what a list may show, be it outdated; and three flags of the
  history. \<open>l_Seen\<close>: some pass was shown the cluster node with the removal taint.
  \<open>l_Tainted\<close>: the same, and no pass without error was shown it without the taint since.
  \<open>l_Stale\<close>: some pass was shown an outdated csibmnode or cluster node.
\<close>

record life =
  l_Node :: "CoreNode option"
  l_Csibm :: "CsibmNode option"
  l_Past :: "CsibmNode set"
  l_Seen :: bool
  l_Tainted :: bool
  l_Stale :: bool

text \<open>The steps: the administrators change the cluster node; others change the csibmnode, but not
  its removal label or its key; a pass of the operator is shown some version of the
  csibmnode and some cluster nodes, or no such csibmnode. Any request may be refused; an
  update is only accepted for the current version.\<close>

inductive life_step :: "'w cluster \<Rightarrow> life \<Rightarrow> life \<Rightarrow> bool" for k where
  administrator: "life_step k l (l\<lparr>l_Node := nd\<rparr>)"
| others: "l_Csibm l = Some c \<Longrightarrow> key_of c' = key_of c \<Longrightarrow> labelled c' = labelled c \<Longrightarrow>
    life_step k l (l\<lparr>l_Csibm := Some c', l_Past := insert c' (l_Past l)\<rparr>)"
| operator_pass:
    "b \<in> l_Past l \<Longrightarrow> b \<in> set bs \<Longrightarrow> distinct (map key_of bs) \<Longrightarrow>
     handleNodeRemoval k bs nodes s = Some (err, t) \<Longrightarrow>
     l_Csibm l = Some b \<or> (\<forall>x. Updated (O_CsibmNode x) None \<in> set (new_events s t) \<longrightarrow> key_of x \<noteq> key_of b) \<Longrightarrow>
     c = effect (new_events s t) (l_Csibm l) \<Longrightarrow>
     life_step k l \<lparr>l_Node = l_Node l, l_Csibm = c, l_Past = set_option c \<union> l_Past l,
       l_Seen = (l_Seen l \<or> hasTaint (cluster_node nodes b) rTaint),
       l_Tainted = (if cluster_node nodes b = None then l_Tainted l
          else if hasTaint (cluster_node nodes b) rTaint then True
          else if err = None then False else l_Tainted l),
       l_Stale = (l_Stale l \<or> l_Csibm l \<noteq> Some b \<or> cluster_node nodes b \<noteq> l_Node l)\<rparr>"
| unlisted_pass:
    "l_Csibm l = Some c \<Longrightarrow> key_of c \<notin> key_of ` set bs \<Longrightarrow>
     handleNodeRemoval k bs nodes s = Some (err, t) \<Longrightarrow>
     life_step k l (l\<lparr>l_Csibm := effect (new_events s t) (Some c)\<rparr>)"

inductive lived :: "'w cluster \<Rightarrow> CsibmNode \<Rightarrow> life \<Rightarrow> bool" for k b where
  born: "\<not> labelled b \<Longrightarrow> lived k b \<lparr>l_Node = nd, l_Csibm = Some b, l_Past = {b},
    l_Seen = False, l_Tainted = False, l_Stale = False\<rparr>"
| later: "lived k b l \<Longrightarrow> life_step k l l' \<Longrightarrow> lived k b l'"

inductive_cases life_stepE: "life_step k l l'"

text \<open>A labelled version is there only after the taint was seen; while nothing outdated was shown
  the present version tells the same of \<open>l_Tainted\<close>.\<close>

definition life_inv :: "CsibmNode \<Rightarrow> life \<Rightarrow> bool" where
  "life_inv b0 l \<longleftrightarrow>
     (\<forall>b \<in> l_Past l. key_of b = key_of b0 \<and> (labelled b \<longrightarrow> l_Seen l)) \<and>
     (case l_Csibm l of None \<Rightarrow> l_Seen l | Some c \<Rightarrow> c \<in> l_Past l) \<and>
     (l_Stale l \<or> l_Tainted l \<or> (\<exists>c. l_Csibm l = Some c \<and> \<not> labelled c))"

text \<open>What is gone stays gone for the operator.\<close>

lemma life_step_gone: "life_step k l l' \<Longrightarrow> l_Csibm l = None \<Longrightarrow> l_Csibm l' = None"
  by (erule life_stepE) auto

lemma removal_action_present:
  "cluster_node nodes b = Some n \<Longrightarrow> removal_action nodes b \<noteq> Remove"
  "cluster_node nodes b = Some n \<Longrightarrow> \<not> hasTaint (Some n) rTaint \<Longrightarrow>
    (relabel nodes b = (if labelled b then Some (deleteNodeRemovalLabel b) else None))"
  by (auto simp: removal_action_def relabel_def)

lemma removal_action_absent:
  "cluster_node nodes b = None \<Longrightarrow> relabel nodes b = None"
  "cluster_node nodes b = None \<Longrightarrow> removal_action nodes b = (if labelled b then Remove else Keep)"
  by (simp_all add: removal_action_def relabel_def)

lemma removed_labelled: "removal_action nodes b = Remove \<Longrightarrow> labelled b"
  by (auto simp: removal_action_def split: option.splits if_splits)

lemma relabel_labelled:
  "relabel nodes b = Some b' \<Longrightarrow> labelled b' \<Longrightarrow> hasTaint (cluster_node nodes b) rTaint"
  by (auto simp: relabel_def removal_action_def split: option.splits if_splits)

text \<open>The effect on a csibmnode of which no update was accepted.\<close>

lemma effect_without_updates:
  assumes "\<forall>x. Updated (O_CsibmNode x) None \<in> set es \<longrightarrow> key_of x \<noteq> key_of c"
  shows "effect es (Some c) =
    (if Deleted K_CsibmNode (m_Namespace (bn_Meta c)) (m_Name (bn_Meta c)) None \<in> set es then None else Some c)"
  using assms
proof (induction es)
  case (Cons e es)
  then have IH: "effect es (Some c) =
    (if Deleted K_CsibmNode (m_Namespace (bn_Meta c)) (m_Name (bn_Meta c)) None \<in> set es then None else Some c)"
    by simp
  from Cons.prems have "\<forall>x. e = Updated (O_CsibmNode x) None \<longrightarrow> key_of x \<noteq> key_of c" by auto
  then have "apply_event e (Some c) =
      (if e = Deleted K_CsibmNode (m_Namespace (bn_Meta c)) (m_Name (bn_Meta c)) None then None else Some c)"
    by (cases "(e, Some c)" rule: apply_event.cases) auto
  with IH show ?case by auto
qed simp

lemma pass_deletes_labelled:
  assumes run: "handleNodeRemoval k bs nodes s = Some (err, t)"
    and b: "b \<in> set bs" "distinct (map key_of bs)"
    and d: "Deleted K_CsibmNode (m_Namespace (bn_Meta b)) (m_Name (bn_Meta b)) r \<in> set (new_events s t)"
  shows "removal_action nodes b = Remove"
proof -
  let ?rm = "filter (\<lambda>b. removal_action nodes b = Remove) bs"
  from run obtain rs es where
    ev: "new_events s t = updates (List.map_filter (relabel nodes) bs) rs @ es" and
    es: "\<forall>e \<in> set es. removal_event ?rm e"
    by (rule pass_events)
  have "Deleted K_CsibmNode ns n r \<notin> set (updates cs rs)" for ns n cs by (auto simp: updates_def)
  with d ev have "removal_event ?rm (Deleted K_CsibmNode (m_Namespace (bn_Meta b)) (m_Name (bn_Meta b)) r)"
    using es by auto
  then obtain b' where "b' \<in> set ?rm" "key_of b' = key_of b"
    by (auto simp: removal_event_def resource_event_def resource_kind_def)
  with b show ?thesis by (auto simp: distinct_map inj_on_def)
qed

lemma pass_unlisted:
  assumes run: "handleNodeRemoval k bs nodes s = Some (err, t)" and c: "key_of c \<notin> key_of ` set bs"
  shows "effect (new_events s t) (Some c) = Some c"
proof -
  from run obtain rs es where
    ev: "new_events s t = updates (List.map_filter (relabel nodes) bs) rs @ es" and
    es: "\<forall>e \<in> set es. removal_event (filter (\<lambda>b. removal_action nodes b = Remove) bs) e"
    by (rule pass_events)
  have "effect es (Some c) = Some c" by (rule effect_other_deletions [OF es]) (use c in auto)
  with effect_other_updates [OF c] show ?thesis by (simp add: ev)
qed

text \<open>What a pass makes of the csibmnode when it was shown the version \<open>b\<close>.\<close>

lemma shown_pass:
  assumes run: "handleNodeRemoval k bs nodes s = Some (err, t)" and b: "b \<in> set bs" "distinct (map key_of bs)"
    and occ: "c = b \<or> (\<forall>x. Updated (O_CsibmNode x) None \<in> set (new_events s t) \<longrightarrow> key_of x \<noteq> key_of b)"
    and key: "key_of c = key_of b"
  obtains (kept) "effect (new_events s t) (Some c) = Some c"
  | (removed) "effect (new_events s t) (Some c) = None" "labelled b"
  | (relabelled) b' where "c = b" "effect (new_events s t) (Some c) = Some b'" "relabel nodes b = Some b'"
proof (cases "c = b")
  case True
  show ?thesis
  proof (cases "removal_action nodes b = Remove")
    case rm: True
    with pass_effect(1) [OF run b rm] True removed_labelled [OF rm] show ?thesis using kept removed by auto
  next
    case False
    with pass_effect(2) [OF run b False] True show ?thesis
      using kept relabelled by (cases "relabel nodes b") auto
  qed
next
  case False
  with occ key have no: "\<forall>x. Updated (O_CsibmNode x) None \<in> set (new_events s t) \<longrightarrow> key_of x \<noteq> key_of c" by simp
  show ?thesis
  proof (cases "Deleted K_CsibmNode (m_Namespace (bn_Meta c)) (m_Name (bn_Meta c)) None \<in> set (new_events s t)")
    case True
    with effect_without_updates [OF no] have "effect (new_events s t) (Some c) = None" by simp
    moreover have "labelled b"
      by (rule removed_labelled [OF pass_deletes_labelled [OF run b]]) (use True key in simp)
    ultimately show ?thesis by (rule removed)
  next
    case False
    with effect_without_updates [OF no] kept show ?thesis by simp
  qed
qed

lemma life_step_inv:
  assumes "life_step k l l'" "life_inv b0 l"
  shows "life_inv b0 l'"
  using assms(1)
proof (cases rule: life_step.cases)
  case (administrator nd)
  with assms(2) show ?thesis by (cases "l_Csibm l") (simp_all add: life_inv_def)
next
  case (others c c')
  with assms(2) show ?thesis by (auto simp: life_inv_def)
next
  case (unlisted_pass c bs nodes s err t)
  with pass_unlisted [OF unlisted_pass(4,3)] assms(2) show ?thesis by (simp add: life_inv_def)
next
  case (operator_pass b bs nodes s err t c')
  from assms(2) have past: "\<forall>x \<in> l_Past l. key_of x = key_of b0 \<and> (labelled x \<longrightarrow> l_Seen l)"
    and here: "case l_Csibm l of None \<Rightarrow> l_Seen l | Some c \<Rightarrow> c \<in> l_Past l"
    and flag: "l_Stale l \<or> l_Tainted l \<or> (\<exists>c. l_Csibm l = Some c \<and> \<not> labelled c)"
    by (simp_all add: life_inv_def)
  show ?thesis
  proof (cases "l_Csibm l")
    case None
    with operator_pass here past show ?thesis by (auto simp: life_inv_def)
  next
    case (Some c)
    with past here operator_pass(2) have key: "key_of c = key_of b" by auto
    have occ: "c = b \<or> (\<forall>x. Updated (O_CsibmNode x) None \<in> set (new_events s t) \<longrightarrow> key_of x \<noteq> key_of b)"
      using operator_pass(6) Some by simp
    note p = shown_pass [OF operator_pass(5,3,4) occ key]
    have "\<forall>x \<in> set_option c' \<union> l_Past l. key_of x = key_of b0
        \<and> (labelled x \<longrightarrow> l_Seen l \<or> hasTaint (cluster_node nodes b) rTaint)"
      using p past here Some operator_pass(2,7)
      by (cases rule: p) (auto dest: relabel_key relabel_labelled)
    moreover have "case c' of None \<Rightarrow> l_Seen l \<or> hasTaint (cluster_node nodes b) rTaint
        | Some x \<Rightarrow> x \<in> set_option c' \<union> l_Past l"
      using past Some operator_pass(2,7) by (cases rule: p) auto
    moreover have "l_Stale l' \<or> l_Tainted l' \<or> (\<exists>x. c' = Some x \<and> \<not> labelled x)"
    proof (cases "l_Stale l \<or> l_Csibm l \<noteq> Some b \<or> cluster_node nodes b \<noteq> l_Node l")
      case False
      then have cb: "c = b" using Some by simp
      from False flag Some cb have f: "l_Tainted l \<or> \<not> labelled b" by auto
      have eff: "c' = effect (new_events s t) (Some b)" using operator_pass(7) Some cb by simp
      show ?thesis
      proof (cases "err = None \<and> cluster_node nodes b \<noteq> None \<and> \<not> hasTaint (cluster_node nodes b) rTaint")
        case True
        then obtain n where n: "cluster_node nodes b = Some n" "\<not> hasTaint (Some n) rTaint" "err = None" by auto
        with pass_effect(3) [OF operator_pass(5,3,4) n(3)] removal_action_present(1) [OF n(1)]
          removal_action_present(2) [OF n(1,2)]
        have "c' = (if labelled b then Some (deleteNodeRemovalLabel b) else Some b)" by (simp add: eff)
        then show ?thesis by simp
      next
        case untouched: False
        have t: "l_Tainted l'" if "l_Tainted l" using untouched that operator_pass(1) by auto
        have t': "l_Tainted l'" if "hasTaint (cluster_node nodes b) rTaint"
          using that operator_pass(1) by (auto simp: hasTaint_def)
        show ?thesis
        proof (cases rule: p)
          case 1
          with f t eff cb show ?thesis by auto
        next
          case 2
          with f t show ?thesis by blast
        next
          case (3 b')
          with f t t' eff cb relabel_labelled show ?thesis by (metis)
        qed
      qed
    qed (use operator_pass(1) in simp)
    moreover have "l_Csibm l' = c'" "l_Past l' = set_option c' \<union> l_Past l"
      "l_Seen l' = (l_Seen l \<or> hasTaint (cluster_node nodes b) rTaint)"
      using operator_pass(1) by simp_all
    ultimately show ?thesis by (simp only: life_inv_def)
  qed
qed

lemma lived_inv: "lived k b l \<Longrightarrow> life_inv b l"
proof (induction rule: lived.induct)
  case (born nd)
  then show ?case by (simp add: life_inv_def)
qed (rule life_step_inv)

text \<open>C10. A node is only ever removed on purpose: over any sequence of changes of the cluster
  node, of changes of the csibmnode that leave its removal label alone, and of passes of the
  operator, whatever these are shown, be it outdated, and whichever requests are refused, as
  long as an update is only accepted for the current version of the csibmnode: a csibmnode
  that started without the removal label is gone only if some pass was shown its cluster
  node with the removal taint. And if no pass was shown an outdated csibmnode or cluster
  node, no pass without error has seen the node without the taint since.\<close>

theorem removed_only_after_taint:
  assumes "lived k b l" and "l_Csibm l = None"
  shows "l_Seen l \<and> (l_Stale l \<or> l_Tainted l)"
  using lived_inv [OF assms(1)] assms(2) by (simp add: life_inv_def)

text \<open>C23. And removal makes progress: from any state with the csibmnode, after the node is
  tainted, seen by a pass without error, deleted, and a second pass without error, the
  csibmnode is gone.\<close>

theorem drain_completes:
  assumes d: "distinct (map key_of bs)" "b \<in> set bs"
    and tainted: "cluster_node nodes b = Some n" "hasTaint (Some n) rTaint"
    and pass1: "handleNodeRemoval k bs nodes s = Some (None, t)"
    and listed: "effect (new_events s t) (Some b) = Some b'" "b' \<in> set bs'" "distinct (map key_of bs')"
    and gone: "cluster_node nodes' b' = None"
    and pass2: "handleNodeRemoval k bs' nodes' s' = Some (None, t')"
  shows "effect (new_events s' t') (effect (new_events s t) (Some b)) = None"
proof -
  have "Some b' = (if labelled b then Some b else Some (addNodeRemovalLabel b))"
    using pass_effect(3) [OF pass1 d(2,1)] tainted listed(1)
    by (simp add: removal_action_def relabel_def)
  then have "labelled b'" by (auto split: if_splits)
  with pass_effect(3) [OF pass2 listed(2,3)] removal_action_absent(2) [OF gone] listed(1)
  show ?thesis by simp
qed


section \<open>Witnesses\<close>

definition fresh_node :: CsibmNode where
  "fresh_node = \<lparr>bn_Meta = object_meta [] ''n1'' (go_map []), bn_UUID = ''n1'',
     bn_Addresses = go_map [(''Hostname'', ''n1'')]\<rparr>"

definition tainted_node :: CoreNode where
  "tainted_node = \<lparr>n_Meta = object_meta [] ''n1'' None, n_Taints = Some [rTaint], n_KernelVersion = []\<rparr>"

lemma fresh_node_labelled: "addNodeRemovalLabel fresh_node = example_node ''n1''"
  by (simp add: addNodeRemovalLabel_def fresh_node_def example_node_def go_map_def object_meta_def)

lemma tainted_simps:
  "hasTaint (Some tainted_node) rTaint" "cluster_node [tainted_node] fresh_node = Some tainted_node"
  "\<not> labelled fresh_node"
  by (simp_all add: hasTaint_def tainted_node_def cluster_node_def getNodeName_def fresh_node_def
      map_index_def labelled_def)

definition labelled_end :: "unit sys" where
  "labelled_end = log_event (Updated (O_CsibmNode (example_node ''n1'')) None) (start ())"

lemma labelling_run:
  "handleNodeRemoval removal_cluster [fresh_node] [tainted_node] (start ()) = Some (None, labelled_end)"
proof -
  have act: "removal_action [tainted_node] fresh_node = AddLabel"
    using tainted_simps by (simp add: removal_action_def)
  then have rel: "relabel [tainted_node] fresh_node = Some (example_node ''n1'')"
    by (simp add: relabel_def fresh_node_labelled)
  have "k_CsibmNodes removal_cluster = canned [example_node ''n1'']" by (simp add: removal_cluster_def)
  with act rel have "removal_loop removal_cluster (getMapIsNodesTainted [tainted_node] rTaint) [fresh_node] (start ())
      = Some ([], [], labelled_end)"
    by (simp add: removal_loop_Cons labelled_end_def)
  then show ?thesis by (simp add: handleNodeRemoval_def removeNodes_def join_errors_def)
qed

lemma labelling_effect: "effect (new_events (start ()) labelled_end) (Some fresh_node) = Some (example_node ''n1'')"
  by (simp add: new_events_def labelled_end_def example_node_def fresh_node_def)

lemma new_events_start: "new_events (start w) t = trace t"
  by (simp add: new_events_def)

lemma removing_effect: "effect (new_events (start ()) removal_end) (Some (example_node ''n1'')) = None"
  by (simp add: new_events_def removal_end_def example_node_def)

theorem successful_pass_complete_witness:
  "Updated (O_CsibmNode (example_node ''n1'')) None \<in> set (new_events (start ()) labelled_end)"
proof -
  have "removal_action [tainted_node] fresh_node = AddLabel"
    using tainted_simps by (simp add: removal_action_def)
  with successful_pass_complete [OF labelling_run, of fresh_node] show ?thesis
    by (auto simp: relabel_def fresh_node_labelled)
qed

theorem drain_completes_witness:
  "effect (new_events (start ()) removal_end)
     (effect (new_events (start ()) labelled_end) (Some fresh_node)) = None"
  by (rule drain_completes [OF _ _ tainted_simps(2,1) labelling_run labelling_effect _ _ _ removal_run])
    (simp_all add: cluster_node_def)

theorem removed_only_after_taint_witness:
  "\<exists>l. lived removal_cluster fresh_node l \<and> l_Csibm l = None \<and> l_Seen l \<and> \<not> l_Stale l \<and> l_Tainted l"
proof -
  let ?x = "example_node ''n1''"
  let ?l1 = "\<lparr>l_Node = Some tainted_node, l_Csibm = Some fresh_node, l_Past = {fresh_node},
    l_Seen = False, l_Tainted = False, l_Stale = False\<rparr>"
  let ?l2 = "\<lparr>l_Node = Some tainted_node, l_Csibm = Some ?x, l_Past = {?x, fresh_node},
    l_Seen = True, l_Tainted = True, l_Stale = False\<rparr>"
  let ?l3 = "?l2\<lparr>l_Node := None\<rparr>"
  let ?l4 = "?l3\<lparr>l_Csibm := None\<rparr>"
  have "lived removal_cluster fresh_node ?l1" by (rule lived.born) (rule tainted_simps)
  moreover have "life_step removal_cluster ?l1 ?l2"
    using operator_pass [of fresh_node ?l1 "[fresh_node]", OF _ _ _ labelling_run _ refl]
    by (simp add: labelling_effect [unfolded new_events_start] new_events_start tainted_simps insert_commute)
  moreover have "life_step removal_cluster ?l2 ?l3"
    using administrator [of removal_cluster ?l2 None] by simp
  moreover have "life_step removal_cluster ?l3 ?l4"
    using operator_pass [of ?x ?l3 "[?x]", OF _ _ _ removal_run _ refl]
    by (simp add: removing_effect [unfolded new_events_start] new_events_start cluster_node_def hasTaint_def)
  ultimately have lived: "lived removal_cluster fresh_node ?l4" by (blast intro: later)
  then show ?thesis using removed_only_after_taint [OF lived] by (intro exI [of _ ?l4]) simp
qed

end
