(* ===== verification/AcrValidator.thy ===== *)
theory AcrValidator
  imports ExampleCluster
begin

text \<open>
  \<open>pkg/acrvalidator/acr_validator.go\<close>: every minute the reservations whose pod is gone or
  already running are deleted. The deadline of the context only shows as errors of the client.
\<close>

section \<open>The validator\<close>

definition validationTimeout :: int where "validationTimeout = 60 * 10 ^ 9"

definition getPodName :: "AvailableCapacityReservation \<Rightarrow> string \<times> string" where
  "getPodName acr =
     (let namespace = acr_Namespace acr;
          pod = strings_Replace1 (m_Name (acr_Meta acr)) (namespace @ ''-'') []
      in (namespace, pod))"

definition needToRemoveACR ::
  "'w cluster \<Rightarrow> AvailableCapacityReservation \<Rightarrow> 'w sys \<Rightarrow> (bool \<times> 'w sys) option" where
  "needToRemoveACR k acr s = do {
     let (ns, podName) = getPodName acr;
     (r, s) \<leftarrow> kget (k_Pods k) ns podName s;
     if err_of r \<noteq> None \<and> \<not> IsNotFound (err_of r) then Some (False, s)
     else if IsNotFound (err_of r) then Some (True, s)
     else case r of
       Inr pod \<Rightarrow> if p_Phase pod = ''Running'' then Some (True, s) else Some (False, s)
     | Inl _ \<Rightarrow> Some (False, s)
   }"

fun validate_loop ::
  "'w cluster \<Rightarrow> AvailableCapacityReservation list \<Rightarrow> 'w sys \<Rightarrow> ('w sys) option" where
  "validate_loop k [] s = Some s"
| "validate_loop k (acr # acrs) s = do {
     (remove, s) \<leftarrow> needToRemoveACR k acr s;
     s \<leftarrow> (if remove then do {
            (_, s) \<leftarrow> kdelete (k_ACRs k) K_ACR (m_Namespace (acr_Meta acr)) (m_Name (acr_Meta acr)) s;
            Some s
          } else Some s);
     validate_loop k acrs s
   }"

definition validateACRs :: "'w cluster \<Rightarrow> 'w sys \<Rightarrow> ('w sys) option" where
  "validateACRs k s = do {
     (r, s) \<leftarrow> klist (k_ACRs k) list_all_objects s;
     case r of
       Inl _ \<Rightarrow> Some s
     | Inr acrs \<Rightarrow> validate_loop k acrs s
   }"

text \<open>The first \<open>n\<close> rounds of the endless loop of \<open>LauncACRValidation\<close>.\<close>

fun LauncACRValidation :: "'w cluster \<Rightarrow> nat \<Rightarrow> 'w sys \<Rightarrow> ('w sys) option" where
  "LauncACRValidation k 0 s = Some s"
| "LauncACRValidation k (Suc n) s = do {
     (_, s) \<leftarrow> pause k validationTimeout s;
     s \<leftarrow> validateACRs k s;
     LauncACRValidation k n s
   }"

section \<open>What it does\<close>

text \<open>What the answer to the read of a pod means for its reservation.\<close>

definition reservation_over :: "goerr + Pod \<Rightarrow> bool" where
  "reservation_over g =
     (case g of Inl e \<Rightarrow> IsNotFound (Some e) | Inr pod \<Rightarrow> p_Phase pod = ''Running'')"

text \<open>The requests for one reservation of the pod \<open>pod\<close>: its pod is read, and if the answer says
  so the reservation is deleted, whatever comes of it.\<close>

definition validates :: "AvailableCapacityReservation \<Rightarrow> string \<Rightarrow> entry list \<Rightarrow> bool" where
  "validates acr pod cs \<longleftrightarrow>
     (\<exists>g. if reservation_over g
          then \<exists>d. cs = [(R_Get K_Pod (acr_Namespace acr) pod, object_answer O_Pod g),
                 (R_Delete K_ACR (m_Namespace (acr_Meta acr)) (m_Name (acr_Meta acr)), d)]
          else cs = [(R_Get K_Pod (acr_Namespace acr) pod, object_answer O_Pod g)])"

lemma getPodName_named:
  "m_Name (acr_Meta acr) = acr_Namespace acr @ ''-'' @ pod \<Longrightarrow> getPodName acr = (acr_Namespace acr, pod)"
  using strings_Replace1_prefix [of "acr_Namespace acr @ ''-''" pod "[]"]
  by (simp add: getPodName_def)

lemma needToRemoveACR_answer:
  "getPodName acr = (ns, pod) \<Longrightarrow> kget (k_Pods k) ns pod s = Some (g, t) \<Longrightarrow>
   needToRemoveACR k acr s = Some (reservation_over g, t)"
  by (cases g) (auto simp: needToRemoveACR_def reservation_over_def)

lemma validate_loop_recorded:
  assumes "\<forall>a \<in> set acrs. m_Name (acr_Meta a) = acr_Namespace a @ ''-'' @ pod_of a"
  shows "\<exists>t css. validate_loop (recording k) acrs s = Some t \<and> appends s (concat css) t
    \<and> list_all2 (\<lambda>a cs. validates a (pod_of a) cs) acrs css"
  using assms
proof (induction acrs arbitrary: s)
  case Nil
  show ?case by (intro exI [of _ s] exI [of _ "[]"]) simp
next
  case (Cons acr acrs)
  let ?ns = "acr_Namespace acr" and ?key = "\<lambda>f. f (acr_Meta acr)"
  obtain g s1 where g: "kget (k_Pods (recording k)) ?ns (pod_of acr) s = Some (g, s1)"
    using calls_return_ex(1) by blast
  have need: "needToRemoveACR (recording k) acr s = Some (reservation_over g, s1)"
    by (rule needToRemoveACR_answer [OF getPodName_named g]) (use Cons.prems in simp)
  from kget_recorded [OF g [unfolded recording_clients]]
  have a1: "appends s [(R_Get K_Pod ?ns (pod_of acr), object_answer O_Pod g)] s1" .
  have "\<exists>u cs. appends s cs u \<and> validates acr (pod_of acr) cs \<and>
      validate_loop (recording k) (acr # acrs) s = validate_loop (recording k) acrs u"
  proof (cases "reservation_over g")
    case False
    with a1 need show ?thesis
      by (intro exI [of _ s1] exI [of _ "[(R_Get K_Pod ?ns (pod_of acr), object_answer O_Pod g)]"])
        (auto simp: validates_def)
  next
    case True
    obtain r u where d: "kdelete (k_ACRs (recording k)) K_ACR (?key m_Namespace) (?key m_Name) s1 = Some (r, u)"
      using calls_return_ex(5) by blast
    from appends_trans [OF a1 kdelete_recorded [OF d [unfolded recording_clients]]]
    have a2: "appends s [(R_Get K_Pod ?ns (pod_of acr), object_answer O_Pod g),
        (R_Delete K_ACR (?key m_Namespace) (?key m_Name), done_answer r)] u" by simp
    moreover have "validates acr (pod_of acr) [(R_Get K_Pod ?ns (pod_of acr), object_answer O_Pod g),
        (R_Delete K_ACR (?key m_Namespace) (?key m_Name), done_answer r)]"
      unfolding validates_def by (intro exI [of _ g]) (simp add: True)
    moreover have "validate_loop (recording k) (acr # acrs) s = validate_loop (recording k) acrs u"
      using need True d by (simp del: recording_clients)
    ultimately show ?thesis by blast
  qed
  then obtain u cs where u: "appends s cs u" "validates acr (pod_of acr) cs"
    "validate_loop (recording k) (acr # acrs) s = validate_loop (recording k) acrs u" by blast
  from Cons.IH [of u] Cons.prems obtain t css where
    "validate_loop (recording k) acrs u = Some t" "appends u (concat css) t"
    "list_all2 (\<lambda>a cs. validates a (pod_of a) cs) acrs css" by auto
  with u appends_trans [OF u(1)] show ?case
    by (intro exI [of _ t] exI [of _ "cs # css"]) simp
qed

text \<open>The name of a reservation is the name of its pod: the reservation that the scheduler
  extender names \<open>namespace-pod\<close> is taken back apart into exactly this namespace and pod,
  whatever dashes the two contain.\<close>

theorem getPodName_roundtrip:
  "getPodName \<lparr>acr_Meta = object_meta ns' (ns @ ''-'' @ pod) labels, acr_Namespace = ns\<rparr> = (ns, pod)"
  by (simp add: getPodName_named)

text \<open>C31. One pass of the validator, when the reservations can be listed and each is named after
  the namespace and the pod it is for: for each listed reservation, in order, it reads exactly
  this pod, and it asks for the deletion of the reservation exactly if the answer of this very
  read was that the pod is not found or that it is running. A reservation whose pod cannot
  be read is kept, a failed deletion does not stop the pass, and no other request is made.\<close>

theorem validateACRs_spec:
  assumes "klist (k_ACRs (recording k)) list_all_objects s = Some (Inr acrs, s1)"
    and "\<forall>a \<in> set acrs. m_Name (acr_Meta a) = acr_Namespace a @ ''-'' @ pod_of a"
  shows "\<exists>t css. validateACRs (recording k) s = Some t
    \<and> new_entries s t = (R_List K_ACR list_all_objects, A_Items (map O_ACR acrs)) # concat css
    \<and> list_all2 (\<lambda>a cs. validates a (pod_of a) cs) acrs css"
proof -
  from validate_loop_recorded [OF assms(2), of k s1] obtain t css where t:
    "validate_loop (recording k) acrs s1 = Some t" "appends s1 (concat css) t"
    "list_all2 (\<lambda>a cs. validates a (pod_of a) cs) acrs css" by blast
  have "validateACRs (recording k) s = Some t"
    using assms(1) t(1) by (simp add: validateACRs_def del: recording_clients)
  moreover have "appends s [(R_List K_ACR list_all_objects, A_Items (map O_ACR acrs))] s1"
    using klist_recorded [OF assms(1) [unfolded recording_clients]] by simp
  ultimately show ?thesis
    using t(3) appends_new [OF appends_trans [OF _ t(2)]] by fastforce
qed

section \<open>Witness\<close>

definition example_acr :: AvailableCapacityReservation where
  "example_acr = \<lparr>acr_Meta = object_meta [] ''ns-pod-0'' None, acr_Namespace = ''ns''\<rparr>"

definition acr_cluster :: "unit cluster" where
  "acr_cluster = quiet_cluster\<lparr>k_ACRs := canned [example_acr]\<rparr>"

theorem validateACRs_spec_witness:
  "\<exists>t a. validateACRs (recording acr_cluster) (start ((), [])) = Some t
     \<and> (R_Get K_Pod ''ns'' ''pod-0'', a) \<in> set (new_entries (start ((), [])) t)"
proof -
  let ?s = "start ((), []) :: (unit \<times> entry list) sys"
  let ?s1 = "record_entry (R_List K_ACR list_all_objects, A_Items [O_ACR example_acr]) ?s"
  have l: "klist (k_ACRs (recording acr_cluster)) list_all_objects ?s = Some (Inr [example_acr], ?s1)"
    by (simp add: acr_cluster_def)
  have "\<forall>a \<in> set [example_acr]. m_Name (acr_Meta a) = acr_Namespace a @ ''-'' @ (\<lambda>_. ''pod-0'') a"
    by (simp add: example_acr_def)
  from validateACRs_spec [OF l this] obtain t cs where
    t: "validateACRs (recording acr_cluster) ?s = Some t"
    "new_entries ?s t = (R_List K_ACR list_all_objects, A_Items [O_ACR example_acr]) # cs"
    "validates example_acr ''pod-0'' cs"
    by (auto simp: list_all2_Cons1)
  from t(3) obtain a where "(R_Get K_Pod ''ns'' ''pod-0'', a) \<in> set cs"
    by (auto simp: validates_def example_acr_def split: if_splits)
  with t show ?thesis by auto
qed

end
