(* ===== verification/Lifecycle.thy ===== *)
theory Lifecycle
  imports Reconciler AcrValidator
begin

text \<open>
  Many runs together: reconciliations of one custom resource, passes of the validator of
  reservations, restarts of the operator and what users do to the custom resource, in any
  order. The state is the patcher and the system; \<open>cr\<close> is the custom resource the API server
  holds. What the finalizer is there for is an invariant of the reachable states.
\<close>

section \<open>The custom resource in the API server\<close>

text \<open>What others do to it: create it, edit it, ask for its deletion. Without finalizers a deletion
  takes effect at once. Nobody but the operator adds or removes finalizers.\<close>

inductive user_change :: "Deployment option \<Rightarrow> Deployment option \<Rightarrow> bool" where
  create: "dep_Finalizers d = [] \<Longrightarrow> deletion_IsZero d \<Longrightarrow> user_change None (Some d)"
| edit: "dep_Finalizers d' = dep_Finalizers d \<Longrightarrow> deletion_IsZero d' = deletion_IsZero d \<Longrightarrow>
    user_change (Some d) (Some d')"
| mark: "dep_Finalizers d \<noteq> [] \<Longrightarrow> dep_Finalizers d' = dep_Finalizers d \<Longrightarrow> \<not> deletion_IsZero d' \<Longrightarrow>
    user_change (Some d) (Some d')"
| delete: "dep_Finalizers d = [] \<Longrightarrow> user_change (Some d) None"

abbreviation user_changes :: "Deployment option \<Rightarrow> Deployment option \<Rightarrow> bool" where
  "user_changes \<equiv> user_change\<^sup>*\<^sup>*"

text \<open>
  What the API server does with it, and what not. During any call users may act. A read
  answers with a resource of this key; it may be outdated, as the reads of the cached client of
  the manager can be, but like every version of the resource it carries no finalizer of
  others. An update is applied only to the current version, so when that differs from what is
  sent in the finalizers only; it stores what is sent, or drops a deleted resource without
  finalizers. An update that is answered with success was applied; one answered with an error
  was applied or not, since the answer may be lost. Calls of other clients leave the resource to
  the users.
\<close>

definition stored_after :: "Deployment \<Rightarrow> Deployment option" where
  "stored_after x = (if \<not> deletion_IsZero x \<and> dep_Finalizers x = [] then None else Some x)"

definition applied :: "Deployment \<Rightarrow> Deployment option \<Rightarrow> Deployment option \<Rightarrow> bool" where
  "applied x c c' \<longleftrightarrow>
     (\<exists>v. user_changes c (Some v) \<and> x = with_finalizers v (dep_Finalizers x)) \<and> user_changes (stored_after x) c'"

text \<open>The finalizer on the resource, and a resource on which it can only be the operator's.\<close>

definition held :: "Deployment option \<Rightarrow> bool" where
  "held c \<longleftrightarrow> (\<exists>d. c = Some d \<and> dep_Finalizers d = [csiFinalizer])"

definition only_ours :: "Deployment option \<Rightarrow> bool" where
  "only_ours c \<longleftrightarrow> (\<forall>d. c = Some d \<longrightarrow>
     dep_Finalizers d = [csiFinalizer] \<or> dep_Finalizers d = [] \<and> deletion_IsZero d)"

definition api_versions :: "'w cluster \<Rightarrow> string \<Rightarrow> string \<Rightarrow> ('w \<Rightarrow> Deployment option) \<Rightarrow> bool" where
  "api_versions k ns name cr \<longleftrightarrow>
     (\<forall>K s t. K_Deployment \<notin> K \<longrightarrow> one_call k K s t \<longrightarrow> user_changes (cr (world s)) (cr (world t))) \<and>
     (\<forall>s d t. kget (k_CsiDeployments k) ns name s = Some (Inr d, t) \<longrightarrow>
        only_ours (Some d) \<and> dep_Namespace d = ns \<and> dep_Name d = name) \<and>
     (\<forall>x s r t. dep_Namespace x = ns \<longrightarrow> dep_Name x = name \<longrightarrow>
        kupdate (k_CsiDeployments k) O_Deployment x s = Some (r, t) \<longrightarrow>
          err_of r \<noteq> None \<and> user_changes (cr (world s)) (cr (world t)) \<or> applied x (cr (world s)) (cr (world t)))"

lemma api_versions_calls:
  assumes "api_versions k ns name cr" "K_Deployment \<notin> K" "calls k K s t"
  shows "user_changes (cr (world s)) (cr (world t))"
  using assms(3)
proof (induction rule: rtranclp_induct)
  case (step t u)
  from assms(1,2) step.hyps(2) have "user_changes (cr (world t)) (cr (world u))"
    unfolding api_versions_def by blast
  with step.IH show ?case by (rule rtranclp_trans)
qed simp

lemma api_versions_get:
  assumes "api_versions k ns name cr" "kget (k_CsiDeployments k) ns name s = Some (r, t)"
  shows "user_changes (cr (world s)) (cr (world t))"
    "r = Inr d \<Longrightarrow> only_ours (Some d) \<and> dep_Namespace d = ns \<and> dep_Name d = name"
proof -
  have "flow2 k {} s (kget (k_CsiDeployments k) ns name s)" by (simp add: flow)
  with assms(2) have "calls k {} s t" by (auto simp: flow2_def)
  then show "user_changes (cr (world s)) (cr (world t))" by (rule api_versions_calls [OF assms(1), rotated]) simp
  show "r = Inr d \<Longrightarrow> only_ours (Some d) \<and> dep_Namespace d = ns \<and> dep_Name d = name"
    using assms unfolding api_versions_def by blast
qed

lemma api_versions_update:
  assumes "api_versions k ns name cr" "dep_Namespace x = ns" "dep_Name x = name"
    and "kupdate (k_CsiDeployments k) O_Deployment x s = Some (r, t)"
  obtains (unapplied) e where "r = Inl e" "user_changes (cr (world s)) (cr (world t))"
  | (stored) "applied x (cr (world s)) (cr (world t))"
proof -
  from assms have "err_of r \<noteq> None \<and> user_changes (cr (world s)) (cr (world t)) \<or> applied x (cr (world s)) (cr (world t))"
    unfolding api_versions_def by blast
  then show ?thesis using that by (cases r) (simp_all, blast+)
qed

section \<open>Runs\<close>

text \<open>Every run iterates over the maps of platforms in orders of its own.\<close>

definition with_orders ::
  "'v operator \<Rightarrow> (string \<times> 'v PlatformDescription) list \<Rightarrow> string list \<Rightarrow> 'v operator" where
  "with_orders op ps ds = op\<lparr>op_platformOrder := ps, op_deployOrder := ds\<rparr>"

lemma with_orders_same: "with_orders op (op_platformOrder op) (op_deployOrder op) = op"
  by (simp add: with_orders_def)

inductive between_runs :: "'w cluster \<Rightarrow> ('w \<Rightarrow> Deployment option) \<Rightarrow>
    SchedulerPatcher \<times> 'w sys \<Rightarrow> SchedulerPatcher \<times> 'w sys \<Rightarrow> bool"
  for k cr where
  validate: "validateACRs k s = Some t \<Longrightarrow> between_runs k cr (p, s) (p, t)"
| restart: "between_runs k cr (p, s) (new_patcher, s)"
| users: "user_changes (cr (world s)) (cr (world t)) \<Longrightarrow> trace t = trace s \<Longrightarrow> between_runs k cr (p, s) (p, t)"

inductive op_step :: "'w cluster \<Rightarrow> 'v operator \<Rightarrow> string \<Rightarrow> string \<Rightarrow> ('w \<Rightarrow> Deployment option) \<Rightarrow>
    SchedulerPatcher \<times> 'w sys \<Rightarrow> SchedulerPatcher \<times> 'w sys \<Rightarrow> bool"
  for k op ns name cr where
  reconcile: "Reconcile k (with_orders op ps ds) ns name p s = Some (res, q, t) \<Longrightarrow>
    op_step k op ns name cr (p, s) (q, t)"
| other: "between_runs k cr c c' \<Longrightarrow> op_step k op ns name cr c c'"

definition op_reachable :: "'w cluster \<Rightarrow> 'v operator \<Rightarrow> string \<Rightarrow> string \<Rightarrow> ('w \<Rightarrow> Deployment option) \<Rightarrow>
    SchedulerPatcher \<times> 'w sys \<Rightarrow> SchedulerPatcher \<times> 'w sys \<Rightarrow> bool" where
  "op_reachable k op ns name cr = (op_step k op ns name cr)\<^sup>*\<^sup>*"

section \<open>What the finalizer guarantees\<close>

text \<open>The request for the release, whatever is answered: an update that leaves no finalizers. What
  was written since.\<close>

definition release :: "event \<Rightarrow> bool" where
  "release e \<longleftrightarrow> (\<exists>x r. e = Updated (O_Deployment x) r \<and> dep_Finalizers x = [])"

definition driver_write :: "event \<Rightarrow> bool" where
  "driver_write e \<longleftrightarrow> (\<exists>kd \<in> deploy_kinds \<union> node_kinds. event_kind e = Some kd)"

definition since_release :: "event list \<Rightarrow> event list" where
  "since_release es = rev (takeWhile (\<lambda>e. \<not> release e) (rev es))"

definition clean :: "event list \<Rightarrow> bool" where
  "clean es \<longleftrightarrow> (\<forall>e \<in> set (since_release es). \<not> driver_write e)"

lemma clean_Nil [simp]: "clean []"
  by (simp add: clean_def since_release_def)

lemma clean_snoc: "clean (es @ [e]) \<longleftrightarrow> release e \<or> \<not> driver_write e \<and> clean es"
  by (auto simp: clean_def since_release_def)

lemma user_change_held: "user_changes c c' \<Longrightarrow> held c \<Longrightarrow> held c'"
proof (induction rule: rtranclp_induct)
  case (step c c')
  then have "held c" by blast
  with step.hyps(2) show ?case by (cases rule: user_change.cases) (simp_all add: held_def)
qed

lemma user_change_ours: "user_changes c c' \<Longrightarrow> only_ours c \<Longrightarrow> only_ours c'"
proof (induction rule: rtranclp_induct)
  case (step c c')
  then have "only_ours c" by blast
  with step.hyps(2) show ?case by (cases rule: user_change.cases) (auto simp: only_ours_def)
qed

lemma user_change_deleted:
  "user_changes c c' \<Longrightarrow> (\<exists>d. c = Some d \<and> dep_Finalizers d \<noteq> [] \<and> \<not> deletion_IsZero d) \<Longrightarrow>
   \<exists>d. c' = Some d \<and> dep_Finalizers d \<noteq> [] \<and> \<not> deletion_IsZero d"
proof (induction rule: rtranclp_induct)
  case (step c c')
  then obtain d where "c = Some d" "dep_Finalizers d \<noteq> []" "\<not> deletion_IsZero d" by blast
  with step.hyps(2) show ?case by (cases rule: user_change.cases) auto
qed blast

lemma containsFinalizer_ours:
  "only_ours (Some d) \<Longrightarrow> containsFinalizer d \<longleftrightarrow> held (Some d)"
  by (auto simp: only_ours_def held_def containsFinalizer_def any_contains_iff)

section \<open>The abstract life cycle\<close>

text \<open>The resource is absent, fresh (there, without the finalizer), managed or terminating; the flag
  tells whether the driver wrote something since the last request for the release. The
  parameter \<open>misled\<close> says whether some run was misled by an outdated read; then the flag may
  change in any phase, the phases still follow the cycle.\<close>

datatype phase = Absent | Fresh | Managed | Terminating

inductive life :: "bool \<Rightarrow> phase \<times> bool \<Rightarrow> phase \<times> bool \<Rightarrow> bool" for misled where
  created: "life misled (Absent, b) (Fresh, b)"
| deleted: "life misled (Fresh, b) (Absent, b)"
| adopted: "life misled (Fresh, b) (Managed, b)"
| marked: "life misled (Managed, b) (Terminating, b)"
| worked: "ph \<in> {Managed, Terminating} \<Longrightarrow> life misled (ph, b) (ph, True)"
| requested: "life misled (Terminating, b) (Terminating, False)"
| released: "life misled (Terminating, b) (Absent, False)"
| strayed: "misled \<Longrightarrow> life misled (ph, b) (ph, b')"

abbreviation lives :: "bool \<Rightarrow> phase \<times> bool \<Rightarrow> phase \<times> bool \<Rightarrow> bool" where
  "lives misled \<equiv> (life misled)\<^sup>*\<^sup>*"

definition phase_of :: "Deployment option \<Rightarrow> phase" where
  "phase_of c =
     (case c of
        None \<Rightarrow> Absent
      | Some d \<Rightarrow>
          if \<not> containsFinalizer d then Fresh
          else if deletion_IsZero d then Managed
          else Terminating)"

definition life_of :: "('w \<Rightarrow> Deployment option) \<Rightarrow> 'w sys \<Rightarrow> phase \<times> bool" where
  "life_of cr s = (phase_of (cr (world s)), \<not> clean (trace s))"

lemma lives_safe: "lives False x y \<Longrightarrow> (fst x \<in> {Absent, Fresh} \<longrightarrow> \<not> snd x) \<Longrightarrow> fst y \<in> {Absent, Fresh} \<Longrightarrow> \<not> snd y"
proof (induction rule: rtranclp_induct)
  case (step y z)
  from step.hyps(2) show ?case using step by cases auto
qed auto

lemma phase_simps:
  "only_ours (Some d) \<Longrightarrow> phase_of (Some d) =
     (if dep_Finalizers d = [] then Fresh else if deletion_IsZero d then Managed else Terminating)"
  "phase_of None = Absent"
  by (auto simp: phase_of_def only_ours_def containsFinalizer_def any_contains_iff)

lemma user_lives: "user_changes c c' \<Longrightarrow> only_ours c \<Longrightarrow> lives m (phase_of c, b) (phase_of c', b)"
proof (induction rule: rtranclp_induct)
  case (step c' c'')
  have o: "only_ours c'" "only_ours c''"
    using user_change_ours [OF step.hyps(1) step.prems] user_change_ours [of c' c''] step.hyps(2) by auto
  have "lives m (phase_of c', b) (phase_of c'', b)"
    using step.hyps(2)
  proof cases
    case (mark d d')
    then show ?thesis using o by (auto simp: phase_simps intro: life.marked)
  qed (use o in \<open>auto simp: phase_simps intro: life.created life.deleted\<close>)
  with step.IH [OF step.prems] show ?case by (rule rtranclp_trans)
qed simp

lemma held_phase: "held c \<Longrightarrow> phase_of c \<in> {Managed, Terminating}"
  by (auto simp: held_def phase_of_def containsFinalizer_def any_contains_iff split: if_splits)

text \<open>Events that change nothing of the flag, and work while the finalizer is there.\<close>

definition idle :: "event \<Rightarrow> bool" where
  "idle e \<longleftrightarrow> \<not> driver_write e \<and> \<not> release e"

lemma clean_idle: "\<forall>e \<in> set fs. idle e \<Longrightarrow> clean (es @ fs) \<longleftrightarrow> clean es"
  by (induction fs rule: rev_induct) (simp_all add: clean_snoc idle_def flip: append_assoc)

lemma unclean_append: "\<forall>e \<in> set fs. \<not> release e \<Longrightarrow> \<not> clean es \<Longrightarrow> \<not> clean (es @ fs)"
  by (induction fs rule: rev_induct) (simp_all add: clean_snoc flip: append_assoc)

lemma idle_lives:
  assumes "only_ours (cr (world s))" "user_changes (cr (world s)) (cr (world t))"
    and "trace t = trace s @ es" "\<forall>e \<in> set es. idle e"
  shows "only_ours (cr (world t)) \<and> lives m (life_of cr s) (life_of cr t)"
  using assms user_change_ours user_lives by (auto simp: life_of_def clean_idle)

lemma busy_lives:
  assumes "held c" "only_ours c" "user_changes c (cr (world t))"
    and "trace t = tr @ es" "\<forall>e \<in> set es. \<not> release e"
  shows "only_ours (cr (world t)) \<and> lives m (phase_of c, \<not> clean tr) (life_of cr t)"
proof -
  have "lives m (phase_of c, \<not> clean tr) (phase_of c, \<not> clean (trace t))"
  proof (cases "clean (trace t) = clean tr")
    case False
    with unclean_append [OF assms(5)] assms(4) have "\<not> clean (trace t)" by auto
    then show ?thesis using life.worked [OF held_phase [OF assms(1)]] by auto
  qed simp
  also have "lives m (phase_of c, \<not> clean (trace t)) (life_of cr t)"
    using user_lives [OF assms(3,2)] by (simp add: life_of_def)
  finally show ?thesis using user_change_ours [OF assms(3,2)] by blast
qed

section \<open>Outdated reads\<close>

text \<open>A read misleads the run that starts with it when it answers with a version that carries the
  finalizer, but the resource itself is not, or no longer, in the phase of that version: it is
  gone, not adopted, or, for a version that is being deleted, not being deleted. A live version
  of a resource that is being deleted does not mislead: the finalizer is still there.\<close>

definition outdated :: "'w cluster \<Rightarrow> string \<Rightarrow> string \<Rightarrow> ('w \<Rightarrow> Deployment option) \<Rightarrow> 'w sys \<Rightarrow> bool" where
  "outdated k ns name cr s \<longleftrightarrow>
     (\<exists>d t. kget (k_CsiDeployments k) ns name s = Some (Inr d, t) \<and> containsFinalizer d \<and>
        phase_of (cr (world t)) \<notin> (if deletion_IsZero d then {Managed, Terminating} else {Terminating}))"

text \<open>The histories of \<open>op_step\<close>, with the flag that says whether some run was misled.\<close>

inductive op_history :: "'w cluster \<Rightarrow> 'v operator \<Rightarrow> string \<Rightarrow> string \<Rightarrow> ('w \<Rightarrow> Deployment option) \<Rightarrow>
    SchedulerPatcher \<times> 'w sys \<Rightarrow> bool \<Rightarrow> SchedulerPatcher \<times> 'w sys \<Rightarrow> bool"
  for k op ns name cr c0 where
  start: "op_history k op ns name cr c0 False c0"
| run: "op_history k op ns name cr c0 misled (p, s) \<Longrightarrow>
    Reconcile k (with_orders op ps ds) ns name p s = Some (res, q, t) \<Longrightarrow>
    op_history k op ns name cr c0 (misled \<or> outdated k ns name cr s) (q, t)"
| between: "op_history k op ns name cr c0 misled c \<Longrightarrow> between_runs k cr c c' \<Longrightarrow>
    op_history k op ns name cr c0 misled c'"

section \<open>A run follows the life cycle\<close>

lemma lives_mono: "lives m x y \<Longrightarrow> (m \<Longrightarrow> m') \<Longrightarrow> lives m' x y"
proof (induction rule: rtranclp_induct)
  case (step y z)
  from step.hyps(2) step.prems have "life m' y z" by (induction rule: life.induct) (auto intro: life.intros)
  with step show ?case by (meson rtranclp.rtrancl_into_rtrancl)
qed simp

lemma stray_lives: "user_changes c c' \<Longrightarrow> only_ours c \<Longrightarrow> lives True (phase_of c, b) (phase_of c', b')"
  using user_lives [of c c' True b] life.strayed [of True "phase_of c'" b b']
  by (simp add: rtranclp.rtrancl_into_rtrancl)

lemma calls_no_release:
  assumes "calls k K s t" "K_Deployment \<notin> K"
  obtains es where "trace t = trace s @ es" "\<forall>e \<in> set es. \<not> release e"
proof -
  from calls_writes [OF assms(1)] obtain es where "trace t = trace s @ es" "\<forall>e \<in> set es. touches K e"
    by (auto simp: emits_set)
  moreover have "touches K e \<Longrightarrow> \<not> release e" for e using assms(2) by (auto simp: release_def)
  ultimately show ?thesis using that by blast
qed

text \<open>Work, on a resource that the finalizer holds or, misled, on any.\<close>

lemma work_lives:
  assumes api: "api_versions k ns name cr" and ours: "only_ours c" and c: "user_changes c (cr (world s))"
    and ok: "held c \<or> m" and run: "calls k K s t" "K_Deployment \<notin> K"
  shows "only_ours (cr (world t)) \<and> lives m (phase_of c, \<not> clean (trace s)) (life_of cr t)"
proof -
  from calls_no_release [OF run] obtain es where es: "trace t = trace s @ es" "\<forall>e \<in> set es. \<not> release e" .
  have u: "user_changes c (cr (world t))"
    using c api_versions_calls [OF api run(2,1)] by (rule rtranclp_trans)
  show ?thesis
  proof (cases "held c")
    case True
    from busy_lives [where cr = cr, OF True ours u es] show ?thesis .
  next
    case False
    with ok have m by blast
    with stray_lives [OF u ours] user_change_ours [OF u ours] show ?thesis
      by (simp add: life_of_def)
  qed
qed

lemma applied_live:
  assumes "applied x c c'" "only_ours c" "deletion_IsZero x" "dep_Finalizers x = [csiFinalizer]"
  shows "held (stored_after x)" "only_ours (stored_after x)" "user_changes (stored_after x) c'"
    "lives m (phase_of c, b) (phase_of (stored_after x), b)"
proof -
  show x: "held (stored_after x)" "only_ours (stored_after x)" using assms(3,4)
    by (simp_all add: stored_after_def held_def only_ours_def)
  from assms(1) obtain v where v: "user_changes c (Some v)" "x = with_finalizers v (dep_Finalizers x)"
    and "user_changes (stored_after x) c'" by (auto simp: applied_def)
  then show "user_changes (stored_after x) c'" by blast
  have "deletion_IsZero v"
    using arg_cong [OF v(2), of deletion_IsZero] assms(3) by (simp add: deletion_IsZero_def with_finalizers_def)
  moreover have "phase_of (stored_after x) = Managed"
    using x assms(3,4) by (simp add: stored_after_def phase_simps)
  ultimately have "lives m (phase_of (Some v), b) (phase_of (stored_after x), b)"
    using user_change_ours [OF v(1) assms(2)]
    by (cases "dep_Finalizers v = []") (simp_all add: phase_simps life.adopted r_into_rtranclp)
  with user_lives [OF v(1) assms(2)] show "lives m (phase_of c, b) (phase_of (stored_after x), b)"
    by (rule rtranclp_trans)
qed

lemma applied_release:
  assumes "applied x c c'" "only_ours c" "\<not> deletion_IsZero x" "dep_Finalizers x = []"
  shows "only_ours c' \<and> lives m (phase_of c, b) (phase_of c', False)"
proof -
  from assms obtain v where v: "user_changes c (Some v)" "x = with_finalizers v (dep_Finalizers x)"
    and u: "user_changes None c'" by (auto simp: applied_def stored_after_def)
  have "\<not> deletion_IsZero v"
    using arg_cong [OF v(2), of deletion_IsZero] assms(3) by (simp add: deletion_IsZero_def with_finalizers_def)
  with user_change_ours [OF v(1) assms(2)] have "phase_of (Some v) = Terminating"
    by (auto simp: phase_simps) (auto simp: only_ours_def)
  with user_lives [OF v(1) assms(2)] have "lives m (phase_of c, b) (Terminating, b)" by simp
  also have "lives m (Terminating, b) (Absent, False)" by (auto intro: life.released)
  also have "lives m (Absent, False) (phase_of c', False)"
    using user_lives [OF u, of m False] by (simp add: only_ours_def phase_simps(2))
  finally show ?thesis using user_change_ours [OF u] by (simp add: only_ours_def)
qed

lemma held_iff_phase: "only_ours c \<Longrightarrow> held c \<longleftrightarrow> phase_of c \<in> {Managed, Terminating}"
  by (cases c) (auto simp: held_def phase_simps only_ours_def)

lemma release_lives:
  assumes api: "api_versions k ns name cr" and ours: "only_ours (cr (world s))"
    and d: "only_ours (Some d)" "held (Some d)" "\<not> deletion_IsZero d" "dep_Namespace d = ns" "dep_Name d = name"
    and ok: "phase_of (cr (world s)) = Terminating \<or> m"
    and run: "kupdate (k_CsiDeployments k) O_Deployment (with_finalizers d (deleteFinalizer d)) s = Some (r, t)"
  shows "only_ours (cr (world t)) \<and> lives m (life_of cr s) (life_of cr t)"
proof -
  let ?x = "with_finalizers d (deleteFinalizer d)"
  have x: "\<not> deletion_IsZero ?x" "dep_Finalizers ?x = []" "dep_Namespace ?x = ns" "dep_Name ?x = name"
    using d by (simp_all add: held_def deleteFinalizer_def with_finalizers_def deletion_IsZero_def)
  have ct: "clean (trace t)" using kupdate_trace [OF run] x(2) by (simp add: clean_snoc release_def)
  from api x(3,4) run show ?thesis
  proof (cases rule: api_versions_update)
    case stored
    from applied_release [OF stored ours x(1,2)] ct show ?thesis by (simp add: life_of_def)
  next
    case (unapplied e)
    have o: "only_ours (cr (world t))" using user_change_ours [OF unapplied(2) ours] .
    from ok show ?thesis
    proof
      assume m
      with stray_lives [OF unapplied(2) ours] o show ?thesis by (simp add: life_of_def)
    next
      assume T: "phase_of (cr (world s)) = Terminating"
      with ours have "\<exists>d. cr (world s) = Some d \<and> dep_Finalizers d \<noteq> [] \<and> \<not> deletion_IsZero d"
        by (cases "cr (world s)") (auto simp: phase_simps split: if_splits)
      from user_change_deleted [OF unapplied(2) this] o have "phase_of (cr (world t)) = Terminating"
        by (auto simp: phase_simps)
      with T ct life.requested [of m "\<not> clean (trace s)"] o show ?thesis by (auto simp: life_of_def)
    qed
  qed
qed

lemma Reconcile_lives:
  assumes api: "api_versions k ns name cr" and ours: "only_ours (cr (world s))"
    and out: "outdated k ns name cr s \<Longrightarrow> m" and run: "Reconcile k op ns name p s = Some (res, q, t)"
  shows "only_ours (cr (world t)) \<and> lives m (life_of cr s) (life_of cr t)"
proof -
  obtain r s1 where get: "kget (k_CsiDeployments k) ns name s = Some (r, s1)"
    using calls_return_ex(1) by blast
  note u = api_versions_get [OF api get]
  have l1: "only_ours (cr (world s1))" "lives m (life_of cr s) (life_of cr s1)"
    using idle_lives [where cr = cr, OF ours u(1), of "[]"] kget_silent [OF get] by simp_all
  have "only_ours (cr (world t)) \<and> lives m (life_of cr s1) (life_of cr t)"
  proof (cases r)
    case (Inl e)
    with run get have "t = s1" by (auto simp: Reconcile_def split: if_splits)
    with l1(1) show ?thesis by simp
  next
    case (Inr d)
    from u(2) [OF Inr] have d: "only_ours (Some d)" "dep_Namespace d = ns" "dep_Name d = name" by blast+
    note h = containsFinalizer_ours [OF d(1)] and get' = get [unfolded Inr]
    show ?thesis
    proof (cases "containsFinalizer d")
      case False
      with h d(1) have live: "deletion_IsZero d" "dep_Finalizers d = []" by (auto simp: held_def only_ours_def)
      let ?x = "with_finalizers d (dep_Finalizers d @ [csiFinalizer])"
      have x: "deletion_IsZero ?x" "dep_Finalizers ?x = [csiFinalizer]" "dep_Namespace ?x = ns" "dep_Name ?x = name"
        using live d by (simp_all add: with_finalizers_def deletion_IsZero_def)
      have upd: "only_ours (cr (world s2)) \<and> lives m (life_of cr s1) (life_of cr s2) \<and>
          (r' = Inr d' \<longrightarrow> deploy_phase k op d' p s2 = Some (res, q, t) \<longrightarrow>
             only_ours (cr (world t)) \<and> lives m (life_of cr s1) (life_of cr t))"
        if w: "kupdate (k_CsiDeployments k) O_Deployment ?x s1 = Some (r', s2)" for r' s2 d'
      proof -
        have ev: "trace s2 = trace s1 @ [Updated (O_Deployment ?x) (err_of r')]" "idle (Updated (O_Deployment ?x) (err_of r'))"
          using kupdate_trace [OF w] x(2) by (auto simp: idle_def driver_write_def release_def)
        from api x(3,4) w show ?thesis
        proof (cases rule: api_versions_update)
          case (unapplied e)
          from idle_lives [where cr = cr, OF l1(1) unapplied(2) ev(1)] ev(2) unapplied(1) show ?thesis by simp
        next
          case stored
          note a = applied_live [OF stored l1(1) x(1,2)]
          have tr: "clean (trace s2) = clean (trace s1)" using ev by (simp add: clean_idle)
          have "lives m (life_of cr s1) (phase_of (stored_after ?x), \<not> clean (trace s2))"
            using a(4) tr by (simp add: life_of_def)
          moreover have "lives m (phase_of (stored_after ?x), \<not> clean (trace s2)) (life_of cr s2)"
            using user_lives [OF a(3,2)] by (simp add: life_of_def)
          moreover have "only_ours (cr (world t)) \<and> lives m (phase_of (stored_after ?x), \<not> clean (trace s2)) (life_of cr t)"
            if "deploy_phase k op d' p s2 = Some (res, q, t)"
            by (rule work_lives [OF api a(2,3) _ deploy_phase_calls [OF that]]) (use a(1) in simp_all)
          ultimately show ?thesis using user_change_ours [OF a(3,2)] by (meson rtranclp_trans)
        qed
      qed
      from get' live(1) False run show ?thesis
        by (cases rule: Reconcile_not_deleted_cases) (use upd in blast)+
    next
      case True
      with h have held: "held (Some d)" by simp
      have ok: "phase_of (cr (world s1)) \<in> (if deletion_IsZero d then {Managed, Terminating} else {Terminating}) \<or> m"
        using out get' True unfolding outdated_def by blast
      then have ok': "held (cr (world s1)) \<or> m" using held_iff_phase [OF l1(1)] by (auto split: if_splits)
      show ?thesis
      proof (cases "deletion_IsZero d")
        case live: True
        have "deploy_phase k op d p s1 = Some (res, q, t)"
          by (rule Reconcile_other_cases [OF get run]) (use Inr True live in auto)
        from work_lives [OF api l1(1) _ ok' deploy_phase_calls [OF this]] show ?thesis
          by (simp add: life_of_def)
      next
        case deleted: False
        from Reconcile_deleted_cases [OF get' deleted True run] obtain e s2 v where
          un: "csi_Uninstall k op d p s1 = Some (e, q, s2)" and
          w: "kupdate (k_CsiDeployments k) O_Deployment (with_finalizers d (deleteFinalizer d)) s2 = Some (v, t)" .
        note cl = csi_Uninstall_calls [OF un]
        have u2: "user_changes (cr (world s1)) (cr (world s2))" by (rule api_versions_calls [OF api _ cl]) simp
        have l2: "only_ours (cr (world s2))" "lives m (life_of cr s1) (life_of cr s2)"
          using work_lives [OF api l1(1) _ ok' cl] by (simp_all add: life_of_def)
        have "phase_of (cr (world s2)) = Terminating \<or> m"
        proof (cases m)
          case False
          with ok deleted have "phase_of (cr (world s1)) = Terminating" by simp
          with l1(1) have "\<exists>d. cr (world s1) = Some d \<and> dep_Finalizers d \<noteq> [] \<and> \<not> deletion_IsZero d"
            by (cases "cr (world s1)") (auto simp: phase_simps split: if_splits)
          from user_change_deleted [OF u2 this] l2(1) show ?thesis by (auto simp: phase_simps)
        qed simp
        from release_lives [OF api l2(1) d(1) held deleted d(2,3) this w] l2(2) show ?thesis
          by (meson rtranclp_trans)
      qed
    qed
  qed
  with l1(2) show ?thesis by (meson rtranclp_trans)
qed

lemma flow_validateACRs [flow]: "K_ACR \<in> K \<Longrightarrow> flow1 k K s (validateACRs k s)"
proof -
  assume K: "K_ACR \<in> K"
  have "flow1 k K s (validate_loop k acrs s)" for acrs s
    using K by (induction acrs arbitrary: s)
      (simp_all add: flow needToRemoveACR_def Let_def split: flow_splits)
  with K show ?thesis by (simp add: flow validateACRs_def split: flow_splits)
qed

lemma validateACRs_lives:
  assumes api: "api_versions k ns name cr" and ours: "only_ours (cr (world s))" and run: "validateACRs k s = Some t"
  shows "only_ours (cr (world t)) \<and> lives m (life_of cr s) (life_of cr t)"
proof -
  have "flow1 k {K_ACR} s (validateACRs k s)" by (rule flow_validateACRs) simp
  with run have c: "calls k {K_ACR} s t" by (rule flow_calls(1))
  from calls_writes [OF c] obtain es where es: "trace t = trace s @ es" "\<forall>e \<in> set es. touches {K_ACR} e"
    by (auto simp: emits_set)
  moreover have "touches {K_ACR} e \<Longrightarrow> idle e" for e
    by (auto simp: touches_def driver_write_def idle_def release_def)
  moreover have "user_changes (cr (world s)) (cr (world t))"
    by (rule api_versions_calls [OF api _ c]) simp
  ultimately show ?thesis using idle_lives [where cr = cr, OF ours] by blast
qed

lemma between_lives:
  assumes api: "api_versions k ns name cr" and ours: "only_ours (cr (world (snd c)))" and step: "between_runs k cr c c'"
  shows "only_ours (cr (world (snd c'))) \<and> lives m (life_of cr (snd c)) (life_of cr (snd c'))"
  using step
proof cases
  case (users s t p)
  with ours show ?thesis using idle_lives [of cr s t "[]"] by simp
qed (use ours in \<open>auto dest: validateACRs_lives [OF api, rotated]\<close>)

lemma history_lives:
  assumes api: "api_versions k ns name cr" and ours: "only_ours (cr (world (snd c0)))"
    and run: "op_history k op ns name cr c0 misled c"
  shows "only_ours (cr (world (snd c))) \<and> lives misled (life_of cr (snd c0)) (life_of cr (snd c))"
  using run
proof (induction rule: op_history.induct)
  case (run misled p s ps ds res q t)
  then have "lives misled (life_of cr (snd c0)) (life_of cr s)" "only_ours (cr (world s))" by simp_all
  moreover from this(2) have "only_ours (cr (world t))
      \<and> lives (misled \<or> outdated k ns name cr s) (life_of cr s) (life_of cr t)"
    by (rule Reconcile_lives [OF api _ _ run.hyps(2)]) simp
  ultimately show ?case by (auto intro: rtranclp_trans lives_mono)
next
  case (between misled c c')
  with between_lives [OF api _ between.hyps(2), of misled] show ?case by (auto intro: rtranclp_trans)
qed (simp add: ours)

text \<open>C2. The operator and its users together follow the life cycle. Any history of
  reconciliations, validator passes, restarts, failed requests and actions of users moves the
  resource along the steps of \<open>life\<close>: it is adopted before it is managed, and it goes from
  the managed phase to absence only through termination and a release; unless some run was
  misled by an outdated read, the operator writes something of the driver only on a managed or
  terminating resource, and the flag that says so is reset only by a request for the release.
  With a misled run the phases still follow the cycle, and only the flag is left open. This is for every API server of which
  \<open>api_versions\<close> holds: reads of the resource may be outdated, as those of the cached client are,
  and answers to its updates may be lost, but every version read has the key that was asked for
  and no finalizers but the operator's, an update is applied only to the version it was made
  from, one that is answered with success was applied, and only the operator adds or removes
  finalizers, also at the start of the history.\<close>

theorem runs_refine_lifecycle:
  assumes "api_versions k ns name cr" and "only_ours (cr (world s0))"
    and "op_history k op ns name cr (p0, s0) misled (p, s)"
  shows "(life misled)\<^sup>*\<^sup>* (phase_of (cr (world s0)), \<not> clean (trace s0)) (phase_of (cr (world s)), \<not> clean (trace s))"
  using history_lives [OF assms(1) _ assms(3)] assms(2) by (simp add: life_of_def)

text \<open>C3. The finalizer does its work, as long as no run is misled: over any history in which no
  reconciliation started with an outdated read that showed the finalizer on a resource that was
  by then gone, not adopted or not yet being deleted, whenever the custom resource is gone or
  not held by the finalizer, the operator has written nothing of the driver since the last
  request for the release; no custom resource disappears between a deployment and the
  release that follows the uninstallation. The conditions on the API server are those of
  \<open>api_versions\<close>: other reads may be outdated and answers may be lost, updates of the resource are
  applied only to the version they were made from, and nobody else adds or removes finalizers.\<close>

theorem finalizer_guards_lifecycle:
  assumes api: "api_versions k ns name cr" and ours: "only_ours (cr (world s0))"
    and run: "op_history k op ns name cr (p0, s0) False (p, s)" and init: "trace s0 = []"
    and free: "cr (world s) = None \<or> (\<exists>d. cr (world s) = Some d \<and> \<not> containsFinalizer d)"
  shows "\<forall>e \<in> set (since_release (trace s)). \<not> driver_write e"
proof -
  have "lives False (life_of cr s0) (life_of cr s)" using history_lives [OF api _ run] ours by simp
  from lives_safe [OF this] init free have "\<not> snd (life_of cr s)"
    by (auto simp: life_of_def phase_of_def)
  then show ?thesis by (simp add: life_of_def clean_def)
qed

section \<open>Witness\<close>

text \<open>A world that is the custom resource, an API server that keeps it and a cache that never learns
  of its release: the first run releases the resource, the second one is misled.\<close>

definition held_csi :: Deployment where
  "held_csi = (example_csi PlatformVanilla)\<lparr>dep_Meta :=
     (object_meta ''ns'' ''csi'' None)\<lparr>m_Finalizers := [csiFinalizer], m_DeletionTimestamp := Some 1\<rparr>\<rparr>"

definition cr_client :: "(Deployment, Deployment option) kclient" where
  "cr_client = (canned [])\<lparr>
     kc_get := (\<lambda>ns n w. (if ns = ''ns'' \<and> n = ''csi'' then Inr held_csi else Inl (True, ''not found''), w)),
     kc_update := (\<lambda>x w. (case w of
         Some d \<Rightarrow> if x = with_finalizers d (dep_Finalizers x) then (Inr x, stored_after x)
                   else (Inl (False, ''conflict''), w)
       | None \<Rightarrow> (Inl (True, ''not found''), w)))\<rparr>"

definition cr_cluster :: "Deployment option cluster" where
  "cr_cluster = quiet_cluster\<lparr>k_CsiDeployments := cr_client\<rparr>"

lemma cr_client_reads:
  "kget cr_client ns n s =
     Some (if ns = ''ns'' \<and> n = ''csi'' then Inr held_csi else Inl (ApiError True ''not found''), s)"
  "klist cr_client opts s = Some (Inr [], s)"
  by (simp_all add: kget_def klist_def in_world_def cr_client_def canned_def api_err_def)

lemma cr_client_update:
  "kupdate cr_client O_Deployment x s =
     (case world s of
        Some d \<Rightarrow>
          if x = with_finalizers d (dep_Finalizers x)
          then Some (Inr x, log_event (Updated (O_Deployment x) None) (s\<lparr>world := stored_after x\<rparr>))
          else Some (Inl (ApiError False ''conflict''), log_event (Updated (O_Deployment x) (Some (ApiError False ''conflict''))) s)
      | None \<Rightarrow> Some (Inl (ApiError True ''not found''), log_event (Updated (O_Deployment x) (Some (ApiError True ''not found''))) s))"
  by (auto simp: kupdate_def in_world_def cr_client_def api_err_def log_event_def split: option.splits)

lemma cr_cluster_one_call: "K_Deployment \<notin> K \<Longrightarrow> one_call cr_cluster K s t \<Longrightarrow> world t = world s"
proof -
  assume K: "K_Deployment \<notin> K" and c: "one_call cr_cluster K s t"
  have "client_call cr_client O_Deployment K_Deployment K s t \<Longrightarrow> world t = world s"
    using K by (auto simp: client_call_def cr_client_reads)
  moreover have "other_call cr_cluster s t \<Longrightarrow> world t = world s"
    by (erule quiet_other_call) (simp_all add: cr_cluster_def)
  ultimately show ?thesis
    using c by (auto simp: one_call_def cr_cluster_def dest: canned_client_call)
qed

lemma held_csi_facts:
  "only_ours (Some held_csi)" "dep_Namespace held_csi = ''ns''" "dep_Name held_csi = ''csi''"
  "\<not> deletion_IsZero held_csi" "containsFinalizer held_csi" "deleteFinalizer held_csi = []"
  "sp_Platform (dep_Spec held_csi) = PlatformVanilla" "stored_after (with_finalizers held_csi []) = None"
  "phase_of (Some held_csi) = Terminating"
  by (simp_all add: held_csi_def deletion_IsZero_def containsFinalizer_def deleteFinalizer_def only_ours_def phase_of_def
      example_csi_def strings_Contains_iff stored_after_def with_finalizers_def object_meta_def)

lemma cr_cluster_versions: "api_versions cr_cluster ''ns'' ''csi'' (\<lambda>w. w)"
proof -
  have c: "k_CsiDeployments cr_cluster = cr_client" by (simp add: cr_cluster_def)
  show ?thesis
    unfolding api_versions_def c
    by (auto simp: cr_client_reads cr_client_update held_csi_facts applied_def dest: cr_cluster_one_call
        split: option.splits if_splits)
qed

lemma held_csi_uninstall:
  "klist (k_Nodes k) list_all_objects s = Some (Inr [], t) \<Longrightarrow>
   csi_Uninstall k op held_csi p s = Some (None, p, t)"
proof -
  assume l: "klist (k_Nodes k) list_all_objects s = Some (Inr [], t)"
  have "IsPatchingEnabled held_csi \<noteq> None"
    by (simp add: IsPatchingEnabled_def spec_patcher_def held_csi_def example_csi_def example_scheduler_def)
  then obtain b where "IsPatchingEnabled held_csi = Some b" by blast
  with l show ?thesis
    by (simp add: csi_Uninstall_def patcher_Uninstall_def held_csi_facts node_Uninstall_def cleanNodeLabels_def
        join_errors_def)
qed

lemma held_csi_run:
  "Reconcile cr_cluster op ''ns'' ''csi'' p s =
     (case kupdate cr_client O_Deployment (with_finalizers held_csi []) s of
        Some (Inl e, t) \<Rightarrow> Some ((True, Some e), p, t)
      | Some (Inr d, t) \<Rightarrow> Some ((False, None), p, t)
      | None \<Rightarrow> None)"
proof -
  have c: "k_CsiDeployments cr_cluster = cr_client" by (simp add: cr_cluster_def)
  have "csi_Uninstall cr_cluster op held_csi p s = Some (None, p, s)"
    by (rule held_csi_uninstall) (simp add: cr_cluster_def)
  then show ?thesis
    by (simp add: Reconcile_def c cr_client_reads held_csi_facts split: Option.bind_splits sum.splits option.splits)
qed

abbreviation released_csi :: "Deployment option sys" where
  "released_csi \<equiv> log_event (Updated (O_Deployment (with_finalizers held_csi [])) None) (start None)"

lemma held_csi_history:
  "op_history cr_cluster example_op ''ns'' ''csi'' (\<lambda>w. w) (new_patcher, start (Some held_csi)) False
     (new_patcher, released_csi)"
proof -
  have "x = with_finalizers held_csi (dep_Finalizers x)" if "x = with_finalizers held_csi []" for x
    using that by (simp add: with_finalizers_def)
  then have "Reconcile cr_cluster (with_orders example_op [] []) ''ns'' ''csi'' new_patcher (start (Some held_csi))
      = Some ((False, None), new_patcher, released_csi)"
    by (simp add: held_csi_run cr_client_update held_csi_facts start_def log_event_def)
  from op_history.run [where cr = "\<lambda>w. w", OF op_history.start this] show ?thesis
    by (simp add: outdated_def cr_cluster_def cr_client_reads held_csi_facts)
qed

lemma misled_history:
  "\<exists>t. op_history cr_cluster example_op ''ns'' ''csi'' (\<lambda>w. w) (new_patcher, start (Some held_csi)) True
     (new_patcher, t) \<and> world t = None \<and> clean (trace t)"
proof -
  let ?e = "ApiError True ''not found''" and ?x = "with_finalizers held_csi []"
  let ?t = "log_event (Updated (O_Deployment ?x) (Some ?e)) released_csi"
  have "Reconcile cr_cluster (with_orders example_op [] []) ''ns'' ''csi'' new_patcher released_csi
      = Some ((True, Some ?e), new_patcher, ?t)"
    by (simp add: held_csi_run cr_client_update)
  from op_history.run [where cr = "\<lambda>w. w", OF held_csi_history this]
  have "op_history cr_cluster example_op ''ns'' ''csi'' (\<lambda>w. w) (new_patcher, start (Some held_csi)) True (new_patcher, ?t)"
    by (simp add: outdated_def cr_cluster_def cr_client_reads held_csi_facts phase_of_def)
  moreover have "clean (trace ?t)" by (simp add: clean_def since_release_def release_def with_finalizers_def)
  ultimately show ?thesis by (intro exI [of _ ?t]) simp
qed

lemma held_csi_ours: "only_ours (world (start (Some held_csi)))"
  by (simp add: held_csi_facts)

theorem runs_refine_lifecycle_witness:
  "\<exists>t. op_history cr_cluster example_op ''ns'' ''csi'' (\<lambda>w. w) (new_patcher, start (Some held_csi)) True
       (new_patcher, t)
     \<and> (life True)\<^sup>*\<^sup>* (Terminating, False) (Absent, \<not> clean (trace t))"
proof -
  from misled_history obtain t where
    h: "op_history cr_cluster example_op ''ns'' ''csi'' (\<lambda>w. w) (new_patcher, start (Some held_csi)) True (new_patcher, t)"
    and t: "world t = None" by blast
  from runs_refine_lifecycle [OF cr_cluster_versions held_csi_ours h] h t
  show ?thesis by (auto simp: phase_simps(2) held_csi_facts)
qed

theorem finalizer_guards_lifecycle_witness:
  "\<exists>t. op_history cr_cluster example_op ''ns'' ''csi'' (\<lambda>w. w) (new_patcher, start (Some held_csi)) False
       (new_patcher, t)
     \<and> world t = None \<and> list_all (\<lambda>e. \<not> driver_write e) (since_release (trace t))"
proof (intro exI conjI)
  show "list_all (\<lambda>e. \<not> driver_write e) (since_release (trace released_csi))"
    using finalizer_guards_lifecycle [OF cr_cluster_versions held_csi_ours held_csi_history]
    by (simp add: list_all_iff)
qed (simp_all add: held_csi_history)

end
