(* ===== verification/Convergence.thy ===== *)
theory Convergence
  imports CsiDeployment
begin

text \<open>
  The chain of updates run again and again. Each upsert converges on its own; here the chain
  does, because no other component writes the deployments and the two deployments have
  different names.
\<close>

section \<open>An API server that keeps kinds apart\<close>

text \<open>Calls of the clients of other kinds change nothing that is stored for the kind \<open>kd\<close>.\<close>

definition undisturbed :: "'w cluster \<Rightarrow> kind \<Rightarrow> ('w \<Rightarrow> 'l) \<Rightarrow> bool" where
  "undisturbed k kd look \<longleftrightarrow>
     (\<forall>K s t. kd \<notin> K \<longrightarrow> one_call k K s t \<longrightarrow> look (world t) = look (world s))"

lemma undisturbed_calls:
  assumes "undisturbed k kd look" "kd \<notin> K" "calls k K s t"
  shows "look (world t) = look (world s)"
  using assms(3)
proof (induction rule: rtranclp_induct)
  case (step t u)
  from assms(1,2) step.hyps(2) have "look (world u) = look (world t)"
    unfolding undisturbed_def by blast
  with step.IH show ?case by simp
qed simp

lemma calls_no_write: "calls k K s t \<Longrightarrow> kd \<notin> K \<Longrightarrow> \<forall>e \<in> set (new_events s t). event_kind e \<noteq> Some kd"
  by (drule calls_writes) (auto simp: touches_def dest!: emits_new_events)

section \<open>The deployments of a custom resource\<close>

definition expected_controller :: "'w cluster \<Rightarrow> Deployment \<Rightarrow> AppsDeployment option" where
  "expected_controller k csi = do {
     d \<leftarrow> createControllerDeployment csi;
     case set_owner k csi (ad_Meta d) of Inl _ \<Rightarrow> None | Inr m \<Rightarrow> Some (d\<lparr>ad_Meta := m\<rparr>)
   }"

definition expected_node_controller :: "'w cluster \<Rightarrow> Deployment \<Rightarrow> AppsDeployment option" where
  "expected_node_controller k csi = do {
     d \<leftarrow> createNodeControllerDeployment csi;
     case set_owner k csi (ad_Meta d) of Inl _ \<Rightarrow> None | Inr m \<Rightarrow> Some (d\<lparr>ad_Meta := m\<rparr>)
   }"

definition is_current :: "'w cluster \<Rightarrow> (string \<Rightarrow> string \<Rightarrow> AppsDeployment option) \<Rightarrow> AppsDeployment \<Rightarrow> bool" where
  "is_current k l x \<longleftrightarrow>
     (\<exists>z. l (m_Namespace (ad_Meta x)) (m_Name (ad_Meta x)) = Some z \<and> \<not> deploymentChanged k x z)"

text \<open>Both deployments are there and up to date.\<close>

definition deployments_current :: "'w cluster \<Rightarrow> Deployment \<Rightarrow> (string \<Rightarrow> string \<Rightarrow> AppsDeployment option) \<Rightarrow> bool" where
  "deployments_current k csi l \<longleftrightarrow>
     (\<exists>x y. expected_node_controller k csi = Some x \<and> expected_controller k csi = Some y
        \<and> is_current k l x \<and> is_current k l y)"

lemma update_expected:
  "expected_controller k csi = Some x \<Longrightarrow> controller_Update k csi s = UpdateDeployment k x s"
  "expected_node_controller k csi = Some x \<Longrightarrow> node_controller_Update k csi s = UpdateDeployment k x s"
  by (auto simp: expected_controller_def expected_node_controller_def controller_Update_def
      node_controller_Update_def split: Option.bind_splits sum.splits)

lemma expected_of_success:
  "controller_Update k csi s = Some (None, t) \<Longrightarrow> \<exists>x. expected_controller k csi = Some x"
  "node_controller_Update k csi s = Some (None, t) \<Longrightarrow> \<exists>x. expected_node_controller k csi = Some x"
  by (auto simp: expected_controller_def expected_node_controller_def controller_Update_def
      node_controller_Update_def split: Option.bind_splits sum.splits)

text \<open>Owner references leave the key of an object alone.\<close>

definition owner_keeps_key :: "'w cluster \<Rightarrow> Deployment \<Rightarrow> bool" where
  "owner_keeps_key k csi \<longleftrightarrow>
     (\<forall>m m'. set_owner k csi m = Inr m' \<longrightarrow> m_Namespace m' = m_Namespace m \<and> m_Name m' = m_Name m)"

lemma expected_keys:
  assumes "owner_keeps_key k csi"
  shows "expected_controller k csi = Some x \<Longrightarrow> m_Name (ad_Meta x) = controllerName"
    "expected_node_controller k csi = Some x \<Longrightarrow> m_Name (ad_Meta x) = nodeControllerName"
  using assms by (auto simp: owner_keeps_key_def expected_controller_def expected_node_controller_def
      createControllerDeployment_def createNodeControllerDeployment_def split: Option.bind_splits sum.splits)

lemma names_differ: "controllerName \<noteq> nodeControllerName"
  by (simp add: controllerName_def nodeControllerName_def controller_def nodeController_def)

section \<open>The chain\<close>

text \<open>The middle of the chain, and its end, leave the deployments alone.\<close>

lemma flow_middle [flow]:
  "{K_CoreNode, K_DaemonSet} \<subseteq> K \<Longrightarrow>
   flow2 k K s (node_Update k (node_psp k op) (node_scc k op) sv ps order csi s)"
  "K_DaemonSet \<in> K \<Longrightarrow> flow2 k K s (extender_Update k (extender_psp k op) (extender_scc k op) csi s)"
  "patcher_kinds \<subseteq> K \<Longrightarrow> flow3 k K s (patcher_Update k (patcher_psp k op) csi p s)"
  by (simp_all add: flow node_psp_def node_scc_def extender_psp_def extender_scc_def patcher_psp_def)

abbreviation other_kinds :: "kind set" where
  "other_kinds \<equiv> {K_CoreNode, K_DaemonSet, K_ConfigMap, K_OpenshiftScheduler, K_SecondaryScheduler}"

definition chain_end ::
  "'w cluster \<Rightarrow> 'v operator \<Rightarrow> Deployment \<Rightarrow> SchedulerPatcher \<Rightarrow> 'w sys \<Rightarrow>
   (goerr option \<times> SchedulerPatcher \<times> 'w sys) option" where
  "chain_end k op csi p s = do {
     (err, s) \<leftarrow> extender_Update k (extender_psp k op) (extender_scc k op) csi s;
     case err of
       Some err \<Rightarrow> Some (Some err, p, s)
     | None \<Rightarrow> patcher_Update k (patcher_psp k op) csi p s
   }"

lemma flow_chain_end [flow]: "other_kinds \<subseteq> K \<Longrightarrow> flow3 k K s (chain_end k op csi p s)"
  by (simp add: flow chain_end_def split: flow_splits)

lemma csi_Update_chain:
  "csi_Update k op csi p s = do {
     (err, s) \<leftarrow> node_controller_Update k csi s;
     case err of
       Some err \<Rightarrow> Some (Some err, p, s)
     | None \<Rightarrow> do {
         (err, s) \<leftarrow> node_Update k (node_psp k op) (node_scc k op) (op_semver op)
           (op_platformOrder op) (op_deployOrder op) csi s;
         case err of
           Some err \<Rightarrow> Some (Some err, p, s)
         | None \<Rightarrow> do {
             (err, s) \<leftarrow> controller_Update k csi s;
             case err of
               Some err \<Rightarrow> Some (Some err, p, s)
             | None \<Rightarrow> chain_end k op csi p s
           }
       }
   }"
  unfolding csi_Update_def chain_end_def ..

text \<open>Every run stops after the node controller, after the nodes or after the controller, or
  goes on to the end.\<close>

lemma csi_Update_cases:
  assumes run: "csi_Update k op csi p s = Some (err, q, t)"
  obtains (first) e where "node_controller_Update k csi s = Some (Some e, t)" "err = Some e"
  | (nodes) s1 e where "node_controller_Update k csi s = Some (None, s1)" "calls k other_kinds s1 t" "err = Some e"
  | (controller) s1 s2 e where "node_controller_Update k csi s = Some (None, s1)" "calls k other_kinds s1 s2"
      "controller_Update k csi s2 = Some (Some e, t)" "err = Some e"
  | (all) s1 s2 s3 where "node_controller_Update k csi s = Some (None, s1)" "calls k other_kinds s1 s2"
      "controller_Update k csi s2 = Some (None, s3)" "calls k other_kinds s3 t"
proof -
  from run obtain e1 s1 where 1: "node_controller_Update k csi s = Some (e1, s1)"
    by (auto simp: csi_Update_chain split: Option.bind_splits)
  show ?thesis
  proof (cases e1)
    case (Some e)
    with run 1 have "err = Some e" "t = s1" by (simp_all add: csi_Update_chain)
    with 1 Some first show ?thesis by simp
  next
    case None
    note 1 = 1 [unfolded None]
    from run 1 obtain e2 s2 where 2: "node_Update k (node_psp k op) (node_scc k op) (op_semver op)
           (op_platformOrder op) (op_deployOrder op) csi s1 = Some (e2, s2)"
      by (auto simp: csi_Update_chain split: Option.bind_splits)
    have c2: "calls k other_kinds s1 s2" by (rule flow_calls(2) [OF 2]) (simp add: flow)
    show ?thesis
    proof (cases e2)
      case (Some e)
      with run 1 2 have "err = Some e" "t = s2" by (simp_all add: csi_Update_chain)
      with 1 c2 nodes show ?thesis by simp
    next
      case None
      note 2 = 2 [unfolded None]
      from run 1 2 obtain e3 s3 where 3: "controller_Update k csi s2 = Some (e3, s3)"
        by (auto simp: csi_Update_chain split: Option.bind_splits)
      show ?thesis
      proof (cases e3)
        case (Some e)
        with run 1 2 3 have "err = Some e" "t = s3" by (simp_all add: csi_Update_chain)
        with 1 c2 3 Some controller show ?thesis by simp
      next
        case None
        note 3 = 3 [unfolded None]
        from run 1 2 3 have "chain_end k op csi p s3 = Some (err, q, t)" by (simp add: csi_Update_chain)
        from all [OF 1 c2 3 flow_calls(3) [OF this flow_chain_end [OF subset_refl]]] show ?thesis .
      qed
    qed
  qed
qed

section \<open>Convergence\<close>

lemma first_run_current:
  assumes store: "truthful (k_Deployments k) ad_Meta look (deploymentChanged k)"
    and iso: "isolated (k_Deployments k) ad_Meta look" and dist: "undisturbed k K_AppsDeployment look"
    and own: "owner_keeps_key k csi"
    and run: "csi_Update k op csi p s = Some (None, q, t)"
  shows "deployments_current k csi (look (world t))"
  using run
proof (cases rule: csi_Update_cases)
  case (all s1 s2 s3)
  from expected_of_success(2) [OF all(1)] obtain x where x: "expected_node_controller k csi = Some x" by blast
  from expected_of_success(1) [OF all(3)] obtain y where y: "expected_controller k csi = Some y" by blast
  have ux: "UpdateDeployment k x s = Some (None, s1)" using all(1) update_expected(2) [OF x] by simp
  have uy: "UpdateDeployment k y s2 = Some (None, s3)" using all(3) update_expected(1) [OF y] by simp
  have "is_current k (look (world s1)) x"
    using deps.converges [OF ux store] by (simp add: is_current_def)
  moreover have "look (world s2) = look (world s1)" "look (world t) = look (world s3)"
    by (rule undisturbed_calls [OF dist _ all(2)], simp) (rule undisturbed_calls [OF dist _ all(4)], simp)
  moreover have "look (world s3) ns (m_Name (ad_Meta x)) = look (world s2) ns (m_Name (ad_Meta x))" for ns
    using deps.keeps_other [OF store iso uy] expected_keys(1) [OF own y] expected_keys(2) [OF own x]
      names_differ by simp
  moreover have "is_current k (look (world s3)) y"
    using deps.converges [OF uy store] by (simp add: is_current_def)
  ultimately show ?thesis using x y by (simp add: deployments_current_def is_current_def)
qed simp_all

lemma later_run_silent:
  assumes store: "truthful (k_Deployments k) ad_Meta look (deploymentChanged k)"
    and dist: "undisturbed k K_AppsDeployment look"
    and cur: "deployments_current k csi (look (world s))"
    and run: "csi_Update k op csi p s = Some (err, q, t)"
  shows "look (world t) = look (world s) \<and> writes_in other_kinds s t"
proof -
  from cur obtain x y where x: "expected_node_controller k csi = Some x" and y: "expected_controller k csi = Some y"
    and c: "is_current k (look (world s)) x" "is_current k (look (world s)) y"
    by (auto simp: deployments_current_def)
  have quiet: "silent u v \<and> look (world v) = look (world u)"
    if "UpdateDeployment k z u = Some (e, v)" "is_current k (look (world u)) z" for z u e v
    using deps.current_no_write [OF store _ _ that(1)] that(2) by (auto simp: is_current_def)
  have chain: "look (world v) = look (world u) \<and> writes_in other_kinds u v" if "calls k other_kinds u v" for u v
    using undisturbed_calls [OF dist _ that] calls_writes [OF that] by simp
  note step = update_expected(2) [OF x] update_expected(1) [OF y]
  from run show ?thesis
  proof (cases rule: csi_Update_cases)
    case (first e)
    with quiet [of x s _ t] c(1) step show ?thesis by (auto intro: silent_emits)
  next
    case (nodes s1 e)
    with quiet [of x s _ s1] chain [of s1 t] c(1) step show ?thesis by (auto intro: silent_then_emits)
  next
    case (controller s1 s2 e)
    have 1: "silent s s1" "look (world s1) = look (world s)"
      using quiet [of x s _ s1] controller(1) c(1) step by auto
    note 2 = chain [OF controller(2)]
    have 3: "silent s2 t" "look (world t) = look (world s2)"
      using quiet [of y s2 _ t] controller(3) c(2) step 1 2 by auto
    have "writes_in other_kinds s2 t" using 3(1) by (rule silent_emits)
    with 2 have "writes_in other_kinds s1 t" by (blast intro: emits_trans)
    with 1 2 3 show ?thesis by (auto intro: silent_then_emits)
  next
    case (all s1 s2 s3)
    have 1: "silent s s1" "look (world s1) = look (world s)"
      using quiet [of x s _ s1] all(1) c(1) step by auto
    note 2 = chain [OF all(2)]
    have 3: "silent s2 s3" "look (world s3) = look (world s2)"
      using quiet [of y s2 _ s3] all(3) c(2) step 1 2 by auto
    note 4 = chain [OF all(4)]
    have "writes_in other_kinds s2 t" using 3(1) 4 by (auto intro: silent_then_emits)
    with 2 have "writes_in other_kinds s1 t" by (blast intro: emits_trans)
    with 1 2 3 4 show ?thesis by (auto intro: silent_then_emits)
  qed
qed

text \<open>Further runs for the same custom resource, whatever each of them returns.\<close>

inductive further_runs ::
  "'w cluster \<Rightarrow> 'v operator \<Rightarrow> Deployment \<Rightarrow> SchedulerPatcher \<times> 'w sys \<Rightarrow> SchedulerPatcher \<times> 'w sys \<Rightarrow> bool"
  for k op csi c where
  none: "further_runs k op csi c c"
| again: "further_runs k op csi c (p, s) \<Longrightarrow> csi_Update k op csi p s = Some (err, q, t) \<Longrightarrow>
    further_runs k op csi c (q, t)"

lemma further_runs_silent:
  assumes store: "truthful (k_Deployments k) ad_Meta look (deploymentChanged k)"
    and dist: "undisturbed k K_AppsDeployment look"
    and cur: "deployments_current k csi (look (world (snd c)))"
    and runs: "further_runs k op csi c d"
  shows "look (world (snd d)) = look (world (snd c)) \<and> writes_in other_kinds (snd c) (snd d)"
  using runs
proof induction
  case none
  show ?case by simp
next
  case (again p s err q t)
  with cur have "deployments_current k csi (look (world s))" by simp
  from later_run_silent [OF store dist this again.hyps(2)] again.IH show ?case
    by (auto intro: emits_trans)
qed

text \<open>C11. The whole chain converges in one successful run: against an API server that stores what it
  accepts and keeps kinds and keys apart, after one \<open>Update\<close> that reports success both
  deployments of the custom resource are up to date, and they stay so; any number of further
  runs for this resource, successful or not, writes no deployment at all.\<close>

theorem csi_Update_converges:
  assumes "truthful (k_Deployments k) ad_Meta look (deploymentChanged k)"
    and "isolated (k_Deployments k) ad_Meta look" and "undisturbed k K_AppsDeployment look"
    and "owner_keeps_key k csi"
    and "csi_Update k op csi p s = Some (None, q, t)"
    and "further_runs k op csi (q, t) (q', u)"
  shows "deployments_current k csi (look (world u))
    \<and> (\<forall>e \<in> set (new_events t u). event_kind e \<noteq> Some K_AppsDeployment)"
proof -
  note cur = first_run_current [OF assms(1-5)]
  from further_runs_silent [OF assms(1,3) _ assms(6)] cur
  have r: "look (world u) = look (world t)" "writes_in other_kinds t u" by simp_all
  from r(2) have "\<forall>e \<in> set (new_events t u). event_kind e \<noteq> Some K_AppsDeployment"
    by (auto simp: touches_def dest!: emits_new_events)
  with cur r(1) show ?thesis by simp
qed

section \<open>Witness\<close>

text \<open>Without patching, and with security policies nobody grants, two deployments are created. The
  custom resource is being deleted, kept by the finalizer of somebody else.\<close>

definition plain_scheduler :: Scheduler where
  "plain_scheduler = example_scheduler\<lparr>sch_Patcher := Some \<lparr>pat_Enable = False, pat_Image = None, pat_Interval = 60,
     pat_RestoreOnShutdown = False, pat_ConfigMapName = [], pat_ReadinessTimeout = 10, pat_Resources = None\<rparr>\<rparr>"

definition plain_csi :: Deployment where
  "plain_csi = (example_csi PlatformVanilla)\<lparr>dep_Meta := (object_meta ''ns'' ''csi'' None)
       \<lparr>m_Finalizers := [''foregroundDeletion''], m_DeletionTimestamp := Some 1\<rparr>,
     dep_Spec := (dep_Spec (example_csi PlatformVanilla))
     \<lparr>sp_Scheduler := Some plain_scheduler\<rparr>\<rparr>"

definition plain_cluster :: "(string \<times> string \<Rightarrow> AppsDeployment option) cluster" where
  "plain_cluster = ad_cluster\<lparr>k_CsiDeployments := holding plain_csi\<rparr>"

lemma holding_call: "client_call (holding x) mk kd K s t \<Longrightarrow> world t = world s"
  by (auto simp: client_call_def kget_def klist_def kcreate_def kupdate_def kdelete_def in_world_def holding_def
      canned_def log_event_def)

definition plain_op :: "(nat \<times> nat) operator" where
  "plain_op = \<lparr>op_semver = two_numbers, op_platformOrder = [], op_deployOrder = [],
     op_idLabel = [], op_Matcher = NewMatcher, op_SCCPolicies = [example_rule],
     op_PSPTemplate = example_rule\<rparr>"

lemma plain_cluster_laws:
  "truthful (k_Deployments plain_cluster) ad_Meta (stored ad_Meta) (deploymentChanged plain_cluster)"
  "isolated (k_Deployments plain_cluster) ad_Meta (stored ad_Meta)"
  "undisturbed plain_cluster K_AppsDeployment (stored ad_Meta)"
  "owner_keeps_key plain_cluster csi"
proof -
  show "truthful (k_Deployments plain_cluster) ad_Meta (stored ad_Meta) (deploymentChanged plain_cluster)"
    by (simp add: plain_cluster_def ad_cluster_def truthful_store deploymentChanged_def)
  show "isolated (k_Deployments plain_cluster) ad_Meta (stored ad_Meta)"
    by (simp add: plain_cluster_def ad_cluster_def isolated_store)
  have "world t = world s" if "client_call (store_client ad_Meta) O_AppsDeployment K_AppsDeployment K s t"
    "K_AppsDeployment \<notin> K" for K s t
    using that by (auto simp: client_call_def kget_def klist_def in_world_def store_client_def)
  moreover have "other_call plain_cluster s t \<Longrightarrow> world t = world s" for s t
    by (erule quiet_other_call) (simp_all add: plain_cluster_def ad_cluster_def)
  ultimately show "undisturbed plain_cluster K_AppsDeployment (stored ad_Meta)"
    unfolding undisturbed_def
    by (auto simp: one_call_def plain_cluster_def ad_cluster_def dest: canned_client_call holding_call)
  show "owner_keeps_key plain_cluster csi" by (simp add: owner_keeps_key_def plain_cluster_def ad_cluster_def set_owner_def)
qed

lemma plain_gate:
  "\<exists>t. security_gate (NewPodSecurityPolicyVerifier plain_cluster NewMatcher example_rule) plain_csi c a s = Some (Some None, t)"
  if "c = verifierNode \<or> c = verifierScheduler"
  using that
  by (auto simp: security_gate_def NewPodSecurityPolicyVerifier_def pspVerify_def pspHandleError_def
      ValidateRBAC_def ValidateServiceAccountIsBound_def bound_rules_def rbac_message_def NewMatcher_def
      MatchRoleBindingsSubjects_def verifierNode_def verifierScheduler_def plain_csi_def plain_scheduler_def example_csi_def
      example_spec_node_def example_scheduler_def plain_cluster_def ad_cluster_def eventf_def ServiceAccountIsRoleBound_def Let_def)

lemma ad_store_accepts: "\<exists>t. UpdateDeployment plain_cluster x s = Some (None, t)"
  by (cases "stored ad_Meta (world s) (m_Namespace (ad_Meta x)) (m_Name (ad_Meta x))")
    (auto simp: UpdateDeployment_def plain_cluster_def ad_cluster_def store_client_def kget_def kcreate_def kupdate_def
      in_world_def api_err_def Let_def)

lemma plain_csi_simps:
  "sp_Platform (dep_Spec plain_csi) = PlatformVanilla" "spec_node plain_csi = Some example_spec_node"
  "spec_controller plain_csi = Some example_controller"
  "sp_Scheduler (dep_Spec plain_csi) = Some plain_scheduler"
  "sp_NodeController (dep_Spec plain_csi) = Some example_node_controller"
  by (simp_all add: plain_csi_def example_csi_def spec_node_def spec_controller_def)

lemma plain_run: "\<exists>t. csi_Update plain_cluster plain_op plain_csi new_patcher s = Some (None, new_patcher, t)"
proof -
  have nc: "\<exists>t. node_controller_Update plain_cluster plain_csi s = Some (None, t)" for s
  proof -
    have "createNodeControllerDeployment plain_csi \<noteq> None"
      by (rule createNodeControllerDeployment_total [OF plain_csi_simps(5)])
        (simp_all add: example_node_controller_def example_image_def example_log_def)
    then obtain d where "createNodeControllerDeployment plain_csi = Some d" by blast
    then show ?thesis
      using ad_store_accepts [of "d\<lparr>ad_Meta := ad_Meta d\<rparr>" s]
      by (simp add: node_controller_Update_def set_owner_def plain_cluster_def ad_cluster_def)
  qed
  have c: "\<exists>t. controller_Update plain_cluster plain_csi s = Some (None, t)" for s
  proof -
    have "complete_controller example_controller"
      using complete_example [of PlatformVanilla] by (simp add: complete_def spec_controller_def example_csi_def)
    with plain_csi_simps(3) have "createControllerDeployment plain_csi \<noteq> None"
      by (rule createControllerDeployment_total)
    then obtain d where "createControllerDeployment plain_csi = Some d" by blast
    then show ?thesis
      using ad_store_accepts [of "d\<lparr>ad_Meta := ad_Meta d\<rparr>" s]
      by (simp add: controller_Update_def set_owner_def plain_cluster_def ad_cluster_def)
  qed
  have n: "\<exists>t. node_Update plain_cluster (node_psp plain_cluster plain_op) (node_scc plain_cluster plain_op) sv ps order
      plain_csi s = Some (None, t)" for sv ps order s
    using plain_gate [of verifierNode "nd_ServiceAccount example_spec_node" s]
    by (auto simp: node_Update_def plain_csi_simps node_psp_def plain_op_def example_spec_node_def)
  have e: "\<exists>t. extender_Update plain_cluster (extender_psp plain_cluster plain_op) (extender_scc plain_cluster plain_op)
      plain_csi s = Some (None, t)" for s
    using plain_gate [of verifierScheduler "sch_ServiceAccount example_scheduler" s]
    by (auto simp: extender_Update_def plain_csi_simps extender_psp_def plain_op_def plain_scheduler_def example_scheduler_def)
  have p: "patcher_Update plain_cluster v plain_csi new_patcher s = Some (None, new_patcher, s)" for v s
    by (simp add: patcher_Update_def IsPatchingEnabled_def plain_csi_simps spec_patcher_def plain_scheduler_def)
  obtain s1 where s1: "node_controller_Update plain_cluster plain_csi s = Some (None, s1)" using nc by blast
  obtain s2 where s2: "node_Update plain_cluster (node_psp plain_cluster plain_op) (node_scc plain_cluster plain_op)
      (op_semver plain_op) (op_platformOrder plain_op) (op_deployOrder plain_op) plain_csi s1 = Some (None, s2)"
    using n by blast
  obtain s3 where s3: "controller_Update plain_cluster plain_csi s2 = Some (None, s3)" using c by blast
  obtain s4 where s4: "extender_Update plain_cluster (extender_psp plain_cluster plain_op) (extender_scc plain_cluster plain_op)
      plain_csi s3 = Some (None, s4)" using e by blast
  from s1 s2 s3 s4 p show ?thesis by (simp add: csi_Update_def)
qed

theorem csi_Update_converges_witness:
  "\<exists>t u. csi_Update plain_cluster plain_op plain_csi new_patcher (start (\<lambda>_. None)) = Some (None, new_patcher, t)
     \<and> csi_Update plain_cluster plain_op plain_csi new_patcher t = Some (None, new_patcher, u)
     \<and> deployments_current plain_cluster plain_csi (stored ad_Meta (world u))
     \<and> list_all (\<lambda>e. event_kind e \<noteq> Some K_AppsDeployment) (new_events t u)"
proof -
  obtain t where t: "csi_Update plain_cluster plain_op plain_csi new_patcher (start (\<lambda>_. None)) = Some (None, new_patcher, t)"
    using plain_run by blast
  obtain u where u: "csi_Update plain_cluster plain_op plain_csi new_patcher t = Some (None, new_patcher, u)"
    using plain_run by blast
  have "further_runs plain_cluster plain_op plain_csi (new_patcher, t) (new_patcher, u)"
    using further_runs.again [OF further_runs.none u] .
  from csi_Update_converges [OF plain_cluster_laws t this] t u show ?thesis
    by (auto simp: list_all_iff)
qed

end
