(* ===== verification/PanicFree.thy ===== *)
theory PanicFree
  imports Reconciler
begin

text \<open>
  When a reconciliation cannot panic. \<open>returns m\<close> says that a computation ends with a result;
  the collection \<open>total\<close> holds what is needed of each operation. The conditions are on what
  the code dereferences without a check: the custom resource is complete, the nodes the API
  lists have a map of labels, and the CSI pods it lists have owners.
\<close>

named_theorems total "when an operation returns"

definition returns :: "'a option \<Rightarrow> bool" where
  "returns m \<longleftrightarrow> m \<noteq> None"

lemma returns_results [total]: "returns (Some x)" "\<not> returns None"
  by (simp_all add: returns_def)

lemma returns_seq [total]:
  "returns m \<Longrightarrow> (\<And>x. m = Some x \<Longrightarrow> returns (f x)) \<Longrightarrow> returns (m \<bind> f)"
  by (cases m) (simp_all add: returns_def)

lemma returns_calls [total]:
  "returns (kget c ns n s)" "returns (klist c opts s)" "returns (kcreate c mk x s)"
  "returns (kupdate c mk x s)" "returns (kdelete c kd ns n s)" "returns (now k s)"
  "returns (pause k d s)" "returns (eventf k csi reason a s)" "returns (GetSelectedNodes k sel s)"
  "returns (server_version k s)" "returns (http_get k url s)"
  by (simp_all add: returns_def server_version_def http_get_def split: prod.split sum.split)

lemma returns_upserts [total]:
  "returns (UpdateConfigMap k cm s)" "returns (UpdateDaemonSet k ds s)" "returns (UpdateDeployment k d s)"
  by (simp_all add: returns_def)

lemma returns_for_errors [total]:
  "(\<And>x s. x \<in> set xs \<Longrightarrow> returns (f x s)) \<Longrightarrow> returns (for_errors f xs s)"
  unfolding returns_def by (rule for_errors_total)

section \<open>Security gates\<close>

text \<open>The role asked for is never nil.\<close>

lemma returns_match_any_role [total]: "returns (match_any_role m (Some w) roles)"
  by (induction roles) (simp_all add: total)

lemma returns_ValidateRBAC [total]: "returns (ValidateRBAC k m (bound_rules csi a rules) s)"
  by (simp add: total ValidateRBAC_def ValidateServiceAccountIsBound_def bound_rules_def Let_def
      split: flow_splits rbac_data.split)

lemma returns_gates [total]:
  assumes "spec_node csi \<noteq> None" "sp_Scheduler (dep_Spec csi) \<noteq> None"
    and "c = verifierNode \<longrightarrow> (\<exists>nd p. spec_node csi = Some nd \<and> nd_PodSecurityPolicy nd = Some p)"
    and "c = verifierScheduler \<longrightarrow> (\<exists>sch p. sp_Scheduler (dep_Spec csi) = Some sch \<and> sch_PodSecurityPolicy sch = Some p)"
  shows "returns (security_gate (NewPodSecurityPolicyVerifier k m tmpl) csi c a s)"
  using assms
  by (auto simp: total security_gate_def NewPodSecurityPolicyVerifier_def pspVerify_def pspHandleError_def
      spec_node_def Let_def split: flow_splits Option.bind_splits)

lemma returns_scc_gate [total]:
  assumes "spec_node csi \<noteq> None" "sp_Scheduler (dep_Spec csi) \<noteq> None"
  shows "returns (security_gate (NewSecurityContextConstraintsVerifier k m pols) csi c a s)"
  using assms
  by (auto simp: total security_gate_def NewSecurityContextConstraintsVerifier_def sccVerify_def sccHandleError_def
      spec_node_def Let_def split: flow_splits Option.bind_splits)

section \<open>Complete custom resources\<close>

lemma completeE:
  assumes "complete csi"
  obtains nd sch pat nc where "spec_node csi = Some nd" "sp_Scheduler (dep_Spec csi) = Some sch"
    "sch_Patcher sch = Some pat" "spec_patcher csi = Some pat" "sp_NodeController (dep_Spec csi) = Some nc"
  using assms by (auto simp: complete_def complete_scheduler_def spec_patcher_def)

lemma returns_constructors [total]:
  assumes "complete csi"
  shows "returns (createControllerDeployment csi)" "returns (createNodeControllerDeployment csi)"
    "returns (createExtenderDaemonSet csi)" "returns (createNodeDaemonSet csi pd)"
    "returns (newPatcherConfiguration csi)"
    "newPatcherConfiguration csi = Some (Inr cfg) \<Longrightarrow> returns (createPatcherDaemonSet cfg)"
proof -
  from assms obtain c n sch nc where "spec_controller csi = Some c" "complete_controller c"
    "spec_node csi = Some n" "complete_node n" "sp_Scheduler (dep_Spec csi) = Some sch"
    "complete_scheduler sch" "sp_NodeController (dep_Spec csi) = Some nc" "nc_Image nc \<noteq> None" "nc_Log nc \<noteq> None"
    unfolding complete_def by blast
  then show "returns (createControllerDeployment csi)" "returns (createNodeControllerDeployment csi)"
    "returns (createExtenderDaemonSet csi)" "returns (createNodeDaemonSet csi pd)"
    "returns (newPatcherConfiguration csi)"
    "newPatcherConfiguration csi = Some (Inr cfg) \<Longrightarrow> returns (createPatcherDaemonSet cfg)"
    unfolding returns_def
    using createControllerDeployment_total createNodeDaemonSet_total createExtenderDaemonSet_total
      createNodeControllerDeployment_total createPatcherDaemonSet_total by blast+
qed

lemma returns_spec [total]:
  assumes "complete csi"
  shows "returns (spec_node csi)" "returns (sp_Scheduler (dep_Spec csi))" "returns (spec_patcher csi)"
    "returns (IsPatchingEnabled csi)" "returns (NewExtenderReadinessOptions csi use)"
    "returns (createVanillaConfig csi)"
proof -
  from assms obtain nd sch pat where eqs: "spec_node csi = Some nd" "sp_Scheduler (dep_Spec csi) = Some sch"
    "sch_Patcher sch = Some pat" "spec_patcher csi = Some pat"
    by (elim completeE)
  with returns_constructors(5) [OF assms] show "returns (createVanillaConfig csi)"
    by (simp add: total createVanillaConfig_def Let_def split: flow_splits)
  from eqs show "returns (spec_node csi)" "returns (sp_Scheduler (dep_Spec csi))"
    "returns (spec_patcher csi)" "returns (IsPatchingEnabled csi)"
    "returns (NewExtenderReadinessOptions csi use)"
    by (simp_all add: total IsPatchingEnabled_def NewExtenderReadinessOptions_def Let_def split: flow_splits)
qed

section \<open>The chain of updates\<close>

lemma returns_controllers [total]:
  assumes "complete csi"
  shows "returns (controller_Update k csi s)" "returns (node_controller_Update k csi s)"
  using assms by (simp_all add: total controller_Update_def node_controller_Update_def split: flow_splits)

text \<open>What the label loop needs: labels to write to, and platforms that exist.\<close>

definition nodes_labelled :: "'w cluster \<Rightarrow> bool" where
  "nodes_labelled k \<longleftrightarrow> (\<forall>opts s nodes t n. klist (k_Nodes k) opts s = Some (Inr nodes, t) \<longrightarrow>
     n \<in> set nodes \<longrightarrow> n_Labels n \<noteq> None)"

definition known_platforms :: "'v semver \<Rightarrow> Set \<Rightarrow> bool" where
  "known_platforms sv need \<longleftrightarrow> (\<forall>n. fmlookup need n = Some True \<longrightarrow> map_of (platforms sv) n \<noteq> None)"

lemma node_labels_loop_known:
  assumes "map_order (platforms sv) ps"
  shows "known_platforms sv need \<Longrightarrow> node_labels_loop k sv ps nodes need err s = Some (need', err', t) \<Longrightarrow>
    known_platforms sv need'"
proof (induction nodes arbitrary: need err s)
  case (Cons nd nodes)
  have "known_platforms sv (fmupd (findPlatform ps v) True need)" for v
    using Cons.prems(1) platform_tag [OF assms, of v] by (auto simp: known_platforms_def)
  with Cons.prems Cons.IH show ?case
    by (auto simp: Let_def split: sum.splits Option.bind_splits if_splits)
qed simp

lemma returns_node_labels_loop:
  assumes "map_order (platforms sv) ps"
  shows "\<forall>n \<in> set nodes. n_Labels n \<noteq> None \<Longrightarrow> returns (node_labels_loop k sv ps nodes need err s)"
  using node_labels_loop_spec [OF assms, of nodes] unfolding returns_def by (metis option.distinct(1))

lemma returns_deploy_loop [total]:
  assumes "complete csi" "known_platforms sv need"
  shows "returns (deploy_loop k sv csi need order err s)"
  using assms
proof (induction order arbitrary: err s)
  case (Cons name order)
  then have "fmlookup need name = Some True \<Longrightarrow> returns (map_of (platforms sv) name)"
    by (auto simp: known_platforms_def returns_def)
  with Cons show ?case by (simp add: total Let_def split: flow_splits)
qed (simp add: total)

lemma returns_node_deploy [total]:
  assumes "complete csi" "nodes_labelled k" "map_order (platforms sv) ps"
  shows "returns (node_deploy k sv ps order csi s)"
proof -
  obtain r s1 where g: "GetSelectedNodes k (sp_NodeSelector (dep_Spec csi)) s = Some (r, s1)"
    using GetSelectedNodes_returns by (metis option.exhaust prod.exhaust)
  show ?thesis
  proof (cases r)
    case (Inl e)
    with g show ?thesis by (simp add: total node_deploy_def updateNodeLabels_def)
  next
    case (Inr nodes)
    let ?loop = "node_labels_loop k sv ps nodes (createPlatformsSet sv) None s1"
    have "\<forall>n \<in> set nodes. n_Labels n \<noteq> None"
      using assms(2) g Inr unfolding nodes_labelled_def GetSelectedNodes_def Let_def by blast
    then have "returns ?loop" by (rule returns_node_labels_loop [OF assms(3)])
    then obtain need err t where l: "?loop = Some (need, err, t)" by (auto simp: returns_def)
    have "known_platforms sv (createPlatformsSet sv)"
      by (auto simp: known_platforms_def createPlatformsSet_def fmlookup_of_list platforms_def)
    from node_labels_loop_known [OF assms(3) this l] assms(1) g Inr l show ?thesis
      by (simp add: total node_deploy_def updateNodeLabels_def split: flow_splits)
  qed
qed

lemma returns_node_Update [total]:
  assumes "complete csi" "nodes_labelled k" "map_order (platforms sv) ps"
  shows "returns (node_Update k (NewPodSecurityPolicyVerifier k m tmpl)
     (NewSecurityContextConstraintsVerifier k m' pols) sv ps order csi s)"
proof -
  from assms(1) obtain nd sch where "spec_node csi = Some nd" "sp_Scheduler (dep_Spec csi) = Some sch"
    by (elim completeE)
  with assms show ?thesis
    by (simp add: total node_Update_def verifierNode_def verifierScheduler_def split: flow_splits)
qed

lemma returns_extender_Update [total]:
  assumes "complete csi"
  shows "returns (extender_Update k (NewPodSecurityPolicyVerifier k m tmpl)
     (NewSecurityContextConstraintsVerifier k m' pols) csi s)"
proof -
  from assms obtain nd sch where "spec_node csi = Some nd" "sp_Scheduler (dep_Spec csi) = Some sch"
    by (elim completeE)
  with assms show ?thesis
    by (simp add: total extender_Update_def extender_deploy_def verifierNode_def verifierScheduler_def
        split: flow_splits)
qed

section \<open>The patcher\<close>

lemma returns_useOpenshiftSecondaryScheduler [total]:
  "returns (useOpenshiftSecondaryScheduler k platform p s)"
  by (simp add: total useOpenshiftSecondaryScheduler_def Let_def split: flow_splits)

lemma returns_checkSchedulerExtender [total]: "returns (checkSchedulerExtender k ip extPort p s)"
  by (simp add: total checkSchedulerExtender_def Let_def split: flow_splits)

lemma returns_probe_pods [total]: "returns (probe_pods k csi extPort pods p s)"
  by (induction pods arbitrary: p s) (simp_all add: total Let_def split: flow_splits)

lemma returns_getSchedulerExtenderIP [total]: "complete csi \<Longrightarrow> returns (getSchedulerExtenderIP k csi p s)"
  by (simp add: total getSchedulerExtenderIP_def probe_remembered_def probe_listed_def Let_def split: flow_splits)

lemma returns_extender_attempts [total]: "complete csi \<Longrightarrow> returns (extender_attempts k csi iv n err p s)"
  by (induction n arbitrary: err p s) (simp_all add: total Let_def split: flow_splits)

lemma returns_schedulers [total]:
  "complete csi \<Longrightarrow> returns (patchSecondaryScheduler k csi s)" "returns (unpatchSecondaryScheduler k s)"
  "returns (patchScheduler k c s)" "returns (unpatchScheduler k c s)"
  by (simp_all add: total patchSecondaryScheduler_def unpatchSecondaryScheduler_def patchScheduler_def
      unpatchScheduler_def ConstructFullImageName_def Let_def split: flow_splits)

lemma returns_patchOpenShift [total]:
  "complete csi \<Longrightarrow> returns (patchOpenShift k csi use p s)" "returns (unPatchOpenShift k p s)"
  by (simp_all add: total patchOpenShift_def unPatchOpenShift_def createOpenshiftConfig_def Let_def
      split: flow_splits)

lemma returns_updateVanilla [total]:
  assumes "complete csi"
  shows "returns (updateVanilla k (NewPodSecurityPolicyVerifier k m tmpl) csi s)"
proof -
  from assms obtain nd sch where "spec_node csi = Some nd" "sp_Scheduler (dep_Spec csi) = Some sch"
    by (elim completeE)
  with assms show ?thesis
    by (simp add: total updateVanilla_def updateVanillaConfigMap_def updateVanillaDaemonset_def
        patcher_deploy_def verifierNode_def verifierScheduler_def split: flow_splits)
qed

lemma returns_retries [total]:
  "complete csi \<Longrightarrow> returns (retryPatchOpenshift k csi use p s)"
  "complete csi \<Longrightarrow> returns (retryPatchVanilla k (NewPodSecurityPolicyVerifier k m tmpl) csi s)"
  by (simp_all add: total retryPatchOpenshift_def retryPatchVanilla_def split: flow_splits)

lemma returns_statuses [total]:
  "returns (updateReadinessStatuses k lbl created s)" "returns (getConfigMapCreationTime k options s)"
  by (simp_all add: total updateReadinessStatuses_def getConfigMapCreationTime_def split: flow_splits)

lemma returns_poll_statuses [total]: "returns (poll_statuses k lbl created iv n statuses s)"
  by (induction n arbitrary: statuses s) (simp_all add: total split: flow_splits)

lemma returns_UpdateReadinessConfigMap [total]:
  "complete csi \<Longrightarrow>
   returns (UpdateReadinessConfigMap k (NewPodSecurityPolicyVerifier k m tmpl) csi use p s)"
  by (simp add: total UpdateReadinessConfigMap_def updateReadinessStatusesForOpenshiftSecondaryScheduler_def
      Let_def split: flow_splits)

lemma returns_patcher [total]:
  "complete csi \<Longrightarrow> returns (patcher_Update k (NewPodSecurityPolicyVerifier k m tmpl) csi p s)"
  "complete csi \<Longrightarrow> returns (patcher_Uninstall k csi p s)"
  by (simp_all add: total patcher_Update_def patcher_Uninstall_def Let_def split: flow_splits)

section \<open>Nodes\<close>

text \<open>The pods of the driver have owners.\<close>

definition pods_owned :: "'w cluster \<Rightarrow> bool" where
  "pods_owned k \<longleftrightarrow> (\<forall>opts s pods t pod. klist (k_Pods k) opts s = Some (Inr pods, t) \<longrightarrow>
     pod \<in> set pods \<longrightarrow> m_OwnerReferences (p_Meta pod) \<noteq> [])"

lemma returns_deleteObject [total]: "returns (deleteObject rs x patch s)"
  by (simp add: total deleteObject_def Let_def split: flow_splits)

lemma returns_removeNode [total]: "returns (removeNode k b s)"
  by (simp add: total removeNode_def checkDaemonsetPodRunning_def deleteCSIResources_def deleteDrives_def
      deleteACs_def deleteLVGs_def deleteVolumes_def Let_def split: flow_splits)

lemma returns_removal_loop [total]: "returns (removal_loop k tainted bs s)"
  by (induction bs arbitrary: s) (simp_all add: removal_loop.simps total Let_def split: flow_splits)

lemma returns_handleNodeRemoval [total]: "returns (handleNodeRemoval k bs nodes s)"
  by (simp add: total handleNodeRemoval_def removeNodes_def split: flow_splits)

lemma returns_deleteCSIPods [total]:
  assumes "pods_owned k"
  shows "returns (deleteCSIPods k host s)"
proof -
  have "returns (deleteCSIPod k pod u)" if "m_OwnerReferences (p_Meta pod) \<noteq> []" for pod u
    using that by (simp add: total deleteCSIPod_def split: flow_splits list.split)
  then have "returns (for_errors (deleteCSIPod k) pods t)"
    if "klist (k_Pods k) (csi_pod_opts host) s = Some (Inr pods, t)" for pods t
    using assms that unfolding pods_owned_def by (blast intro: returns_for_errors)
  then show ?thesis by (simp add: total deleteCSIPods_def split: flow_splits)
qed

lemma returns_node_ops_reconcile [total]: "pods_owned k \<Longrightarrow> returns (node_ops_reconcile k csi s)"
  by (simp add: total node_ops_reconcile_def handleNodeMaintenance_def Let_def split: flow_splits)

lemma returns_clean_labels [total]: "returns (clean_labels_loop k idLabel nodes s)"
  by (induction nodes arbitrary: s) (simp_all add: clean_labels_loop.simps total Let_def split: flow_splits)

section \<open>A whole reconciliation\<close>

lemma returns_deploy_phase [total]:
  assumes "complete csi" "nodes_labelled k" "pods_owned k" "map_order (platforms (op_semver op)) (op_platformOrder op)"
  shows "returns (deploy_phase k op csi p s)"
  using assms
  by (simp add: total deploy_phase_def csi_Update_def ReconcileNodes_def node_psp_def node_scc_def
      extender_psp_def extender_scc_def patcher_psp_def split: flow_splits)

lemma returns_csi_Uninstall [total]: "complete csi \<Longrightarrow> returns (csi_Uninstall k op csi p s)"
  by (simp add: total csi_Uninstall_def node_Uninstall_def cleanNodeLabels_def split: flow_splits)

text \<open>The API answers reads and updates with complete custom resources.\<close>

definition answers_complete :: "'w cluster \<Rightarrow> bool" where
  "answers_complete k \<longleftrightarrow>
     (\<forall>ns n s d t. kget (k_CsiDeployments k) ns n s = Some (Inr d, t) \<longrightarrow> complete d) \<and>
     (\<forall>x s d t. kupdate (k_CsiDeployments k) O_Deployment x s = Some (Inr d, t) \<longrightarrow> complete x \<longrightarrow> complete d)"

lemma answers_completeD:
  "kget (k_CsiDeployments k) ns n s = Some (Inr d, t) \<Longrightarrow> answers_complete k \<Longrightarrow> complete d"
  "kupdate (k_CsiDeployments k) O_Deployment x s = Some (Inr d, t) \<Longrightarrow> answers_complete k \<Longrightarrow> complete x \<Longrightarrow> complete d"
  unfolding answers_complete_def by blast+

lemma complete_with_finalizers [simp]: "complete (with_finalizers d fs) \<longleftrightarrow> complete d"
  by (simp add: complete_def with_finalizers_def spec_controller_def spec_node_def)

text \<open>C12. A reconciliation always ends with a result: whatever the API answers and however often
  requests fail, neither a panic nor a loop without end stops \<open>Reconcile\<close>, on any platform
  and in any phase of the custom resource, provided that the custom resources it reads are
  complete, listed nodes have a map of labels and listed pods an owner.\<close>

theorem Reconcile_returns:
  assumes "answers_complete k" "nodes_labelled k" "pods_owned k"
    and "map_order (platforms (op_semver op)) (op_platformOrder op)"
  shows "\<exists>requeue err q t. Reconcile k op ns name p s = Some ((requeue, err), q, t)"
proof -
  have "returns (Reconcile k op ns name p s)"
    unfolding Reconcile_def
    using assms
    by (auto simp: Let_def split: flow_splits intro!: total)
      (metis answers_completeD complete_with_finalizers)+
  then show ?thesis by (auto simp: returns_def)
qed

section \<open>Witness\<close>

text \<open>A labelled node, a pod of a daemonset on it and a complete custom resource.\<close>

definition busy_cluster :: "'w cluster" where
  "busy_cluster = (csi_cluster (example_csi PlatformVanilla))\<lparr>k_Nodes := canned [watched_node ''n1''],
     k_Pods := canned [example_pod ''DaemonSet'']\<rparr>"

theorem Reconcile_returns_witness:
  "\<exists>requeue err q t. Reconcile busy_cluster example_op ''ns'' ''csi'' new_patcher (start ()) =
     Some ((requeue, err), q, t)"
proof (rule Reconcile_returns)
  have "k_CsiDeployments (busy_cluster :: unit cluster) = holding (example_csi PlatformVanilla)"
    by (simp add: busy_cluster_def)
  then show "answers_complete (busy_cluster :: unit cluster)"
    by (simp add: answers_complete_def complete_example)
  show "nodes_labelled (busy_cluster :: unit cluster)"
    by (simp add: nodes_labelled_def busy_cluster_def watched_node_def object_meta_def)
  show "pods_owned (busy_cluster :: unit cluster)"
    by (simp add: pods_owned_def busy_cluster_def example_pod_def)
  show "map_order (platforms (op_semver example_op)) (op_platformOrder example_op)"
    by (simp add: example_op_def NewCSIDeployment_def platforms_order)
qed

end
