(* ===== verification/Startup.thy ===== *)
theory Startup
  imports Reconciler AcrValidator
begin

text \<open>
  \<open>main.go\<close>, \<open>PrepareScheme\<close> of \<open>pkg/common/common.go\<close> and \<open>SetupWithManager\<close> of
  \<open>controllers/deployment_controller.go\<close>: how the operator is put together before the first
  reconciliation. Schemes, managers and controllers are objects of the API machinery: their
  types \<open>'c\<close> and \<open>'m\<close> are arbitrary and their operations are the parameter \<open>machinery\<close>, each
  returning its error and the object after the call.
\<close>

section \<open>What the libraries offer\<close>

text \<open>The packages whose \<open>AddToScheme\<close> is called; \<open>CsiDeploymentV1\<close> is the operator's own.\<close>

datatype api_group =
    ClientGo | OpenshiftConfig | OpenshiftSecondaryScheduler | CsiDeploymentV1
  | CsibmNodeCrd | VolumeCrd | DriveCrd | LvgCrd | AcCrd | AcrCrd

text \<open>A group version, and the types of \<open>api/v1\<close> that are registered.\<close>

record group_version =
  gv_Group :: string
  gv_Version :: string

datatype api_type = DeploymentType | DeploymentListType

text \<open>Handlers of watch events; a map function may panic.\<close>

datatype 'w handler =
    EnqueueRequestForObject
  | EnqueueRequestForOwner kind bool
  | EnqueueRequestsFromMapFunc "obj \<Rightarrow> 'w sys \<Rightarrow> ((string \<times> string) list \<times> 'w sys) option"

record 'w watch =
  wt_Kind :: kind
  wt_Handler :: "'w handler"
  wt_Update :: "(obj \<Rightarrow> obj \<Rightarrow> bool) option"

datatype 'w registration =
    NewController string nat
  | Watch "'w watch"
  | IndexField kind string "obj \<Rightarrow> string list option"

record manager_options =
  mo_BindAddress :: string
  mo_Port :: int
  mo_LeaderElection :: bool
  mo_LeaderElectionID :: string

record ('c, 'm, 'w) machinery =
  lib_NewScheme :: 'c
  lib_AddToScheme :: "api_group \<Rightarrow> 'c \<Rightarrow> string option \<times> 'c"
  lib_Builder_AddToScheme :: "group_version \<Rightarrow> api_type list list \<Rightarrow> 'c \<Rightarrow> string option \<times> 'c"
  lib_Register :: "'w registration \<Rightarrow> 'm \<Rightarrow> string option \<times> 'm"
  lib_ParseLevel :: "string \<Rightarrow> string option"
  lib_GetConfig :: bool
  lib_NewForConfig :: "string option"
  lib_NewManager :: "manager_options \<Rightarrow> 'c \<Rightarrow> string + 'm"
  lib_Start :: "'m \<Rightarrow> string option"

section \<open>The scheme builder of \<open>api/v1\<close>\<close>

definition GroupVersion :: group_version where
  "GroupVersion = \<lparr>gv_Group = ''csi-baremetal.dell.com'', gv_Version = ''v1''\<rparr>"

text \<open>\<open>SchemeBuilder\<close> is what the library is given: its group version and the calls of
  \<open>Register\<close>, none before the package is initialised.\<close>

record Builder =
  bld_GroupVersion :: group_version
  bld_registered :: "api_type list list"

definition SchemeBuilder :: Builder where
  "SchemeBuilder = \<lparr>bld_GroupVersion = GroupVersion, bld_registered = []\<rparr>"

text \<open>\<open>init\<close> of \<open>deployment_types.go\<close>.\<close>

definition init_types :: "Builder \<Rightarrow> Builder" where
  "init_types b = b\<lparr>bld_registered := bld_registered b @ [[DeploymentType, DeploymentListType]]\<rparr>"

definition AddToScheme :: "('c, 'm, 'w) machinery \<Rightarrow> 'c \<Rightarrow> string option \<times> 'c" where
  "AddToScheme lb =
     (let b = init_types SchemeBuilder
      in lib_Builder_AddToScheme lb (bld_GroupVersion b) (bld_registered b))"

section \<open>\<open>PrepareScheme\<close>\<close>

definition package_AddToScheme :: "('c, 'm, 'w) machinery \<Rightarrow> api_group \<Rightarrow> 'c \<Rightarrow> string option \<times> 'c" where
  "package_AddToScheme lb g = (if g = CsiDeploymentV1 then AddToScheme lb else lib_AddToScheme lb g)"

fun add_to_scheme :: "('c, 'm, 'w) machinery \<Rightarrow> api_group list \<Rightarrow> 'c \<Rightarrow> goerr + 'c" where
  "add_to_scheme lb [] scheme = Inr scheme"
| "add_to_scheme lb (g # gs) scheme =
     (case package_AddToScheme lb g scheme of
        (Some err, _) \<Rightarrow> Inl (LibError err)
      | (None, scheme) \<Rightarrow> add_to_scheme lb gs scheme)"

definition PrepareScheme :: "('c, 'm, 'w) machinery \<Rightarrow> goerr + 'c" where
  "PrepareScheme lb =
     (let scheme = lib_NewScheme lb
      in add_to_scheme lb
        [ClientGo, OpenshiftConfig, OpenshiftSecondaryScheduler,
         CsiDeploymentV1,
         CsibmNodeCrd, VolumeCrd, DriveCrd, LvgCrd, AcCrd, AcrCrd] scheme)"

section \<open>\<open>SetupWithManager\<close>\<close>

fun register_all :: "('c, 'm, 'w) machinery \<Rightarrow> 'w registration list \<Rightarrow> 'm \<Rightarrow> goerr option \<times> 'm" where
  "register_all lb [] mgr = (None, mgr)"
| "register_all lb (r # rs) mgr =
     (case lib_Register lb r mgr of
        (Some err, mgr) \<Rightarrow> (Some (LibError err), mgr)
      | (None, mgr) \<Rightarrow> register_all lb rs mgr)"

definition plain_watch :: "kind \<Rightarrow> 'w handler \<Rightarrow> 'w watch" where
  "plain_watch kd h = \<lparr>wt_Kind = kd, wt_Handler = h, wt_Update = None\<rparr>"

text \<open>The key under which pods are indexed; the type assertion panics for anything else.\<close>

definition pod_node_index :: "obj \<Rightarrow> string list option" where
  "pod_node_index rawObj = (case rawObj of O_Pod pod \<Rightarrow> Some [p_NodeName pod] | _ \<Rightarrow> None)"

definition setup_steps :: "'w cluster \<Rightarrow> Matcher \<Rightarrow> PolicyRule list \<Rightarrow> 'w registration list" where
  "setup_steps k matcher sccPolicies =
     [NewController ''csi-controller'' 1,
      Watch (plain_watch K_Deployment EnqueueRequestForObject),
      Watch (plain_watch K_AppsDeployment (EnqueueRequestForOwner K_Deployment True)),
      Watch (plain_watch K_DaemonSet (EnqueueRequestForOwner K_Deployment True)),
      Watch (plain_watch K_ConfigMap (EnqueueRequestForOwner K_Deployment True)),
      Watch (plain_watch K_Pod (EnqueueRequestsFromMapFunc (map_pod k))),
      Watch \<lparr>wt_Kind = K_CoreNode, wt_Handler = EnqueueRequestsFromMapFunc (map_node k),
        wt_Update = Some isNodeChanged\<rparr>,
      Watch (plain_watch K_Role (EnqueueRequestsFromMapFunc (watchRole k matcher sccPolicies))),
      Watch (plain_watch K_RoleBinding (EnqueueRequestsFromMapFunc (watchRoleBinding k matcher))),
      IndexField K_Pod ''spec.nodeName'' pod_node_index]"

definition SetupWithManager ::
  "('c, 'm, 'w) machinery \<Rightarrow> 'w cluster \<Rightarrow> Matcher \<Rightarrow> PolicyRule list \<Rightarrow> 'm \<Rightarrow> goerr option \<times> 'm" where
  "SetupWithManager lb k matcher sccPolicies mgr =
     register_all lb (setup_steps k matcher sccPolicies) mgr"

section \<open>\<open>main\<close>\<close>

definition InitLogger :: "('c, 'm, 'w) machinery \<Rightarrow> string \<Rightarrow> string" where
  "InitLogger lb logLevel =
     (case lib_ParseLevel lb logLevel of None \<Rightarrow> InfoLevel | Some level \<Rightarrow> level)"

record flags =
  fl_metricsAddr :: string
  fl_enableLeaderElection :: bool
  fl_logLevel :: string

definition default_flags :: flags where
  "default_flags = \<lparr>fl_metricsAddr = '':8080'', fl_enableLeaderElection = False, fl_logLevel = ''info''\<rparr>"

text \<open>What has been set up, in order, and how \<open>main\<close> ends. \<open>GetConfigOrDie\<close> ends the program
  itself. The test of \<open>err\<close> after \<open>recorder.New\<close> looks at the error of \<open>NewManager\<close>, which is
  nil there.\<close>

datatype boot_step =
    ClientSet | SchemeReady | ManagerCreated manager_options | AcrValidationLaunched
  | RecorderCreated string string | ControllerReady | ManagerStarted

datatype outcome = Exit nat | Returned

definition main_options :: "flags \<Rightarrow> manager_options" where
  "main_options fl = \<lparr>mo_BindAddress = fl_metricsAddr fl, mo_Port = 9443,
     mo_LeaderElection = fl_enableLeaderElection fl, mo_LeaderElectionID = ''7db7c6a0.dell.com''\<rparr>"

definition main :: "('c, 'm, 'w) machinery \<Rightarrow> 'w cluster \<Rightarrow> flags \<Rightarrow> outcome \<times> boot_step list" where
  "main lb k fl =
     (if \<not> lib_GetConfig lb then (Exit 1, [])
      else case lib_NewForConfig lb of
        Some err \<Rightarrow> (Exit 1, [])
      | None \<Rightarrow> (case PrepareScheme lb of
          Inl err \<Rightarrow> (Exit 1, [ClientSet])
        | Inr scheme \<Rightarrow> (case lib_NewManager lb (main_options fl) scheme of
            Inl err \<Rightarrow> (Exit 1, [ClientSet, SchemeReady])
          | Inr mgr \<Rightarrow>
              (let steps = [ClientSet, SchemeReady, ManagerCreated (main_options fl)] @ [AcrValidationLaunched];
                   steps = steps @ [RecorderCreated ComponentName (InitLogger lb (fl_logLevel fl))];
                   matcher = NewMatcher
               in case SetupWithManager lb k matcher matchSecurityContextConstraintsPolicies mgr of
                    (Some err, mgr) \<Rightarrow> (Exit 1, steps)
                  | (None, mgr) \<Rightarrow>
                      (let steps = steps @ [ControllerReady]
                       in case lib_Start lb mgr of
                            Some err \<Rightarrow> (Exit 1, steps @ [ManagerStarted])
                          | None \<Rightarrow> (Returned, steps @ [ManagerStarted]))))))"

section \<open>What the scheme knows\<close>

text \<open>The package that declares each kind the operator reads or writes.\<close>

fun declared_by :: "kind \<Rightarrow> api_group" where
  "declared_by K_OpenshiftScheduler = OpenshiftConfig"
| "declared_by K_SecondaryScheduler = OpenshiftSecondaryScheduler"
| "declared_by K_Deployment = CsiDeploymentV1"
| "declared_by K_CsibmNode = CsibmNodeCrd"
| "declared_by K_CsiVolume = VolumeCrd"
| "declared_by K_Drive = DriveCrd"
| "declared_by K_LogicalVolumeGroup = LvgCrd"
| "declared_by K_AvailableCapacity = AcCrd"
| "declared_by K_ACR = AcrCrd"
| "declared_by _ = ClientGo"

text \<open>The kinds the registration of a type makes known: \<open>Deployment\<close> is known when its type is
  registered under its group version.\<close>

fun registers :: "group_version \<Rightarrow> api_type list list \<Rightarrow> kind \<Rightarrow> bool" where
  "registers gv objs K_Deployment \<longleftrightarrow>
     gv = \<lparr>gv_Group = ''csi-baremetal.dell.com'', gv_Version = ''v1''\<rparr> \<and> DeploymentType \<in> set (concat objs)"
| "registers gv objs _ \<longleftrightarrow> False"

text \<open>\<open>AddToScheme\<close> of a library makes the kinds of its package known and that of a builder the
  registered ones; none forgets any.\<close>

definition adds_kinds :: "('c, 'm, 'w) machinery \<Rightarrow> ('c \<Rightarrow> kind \<Rightarrow> bool) \<Rightarrow> bool" where
  "adds_kinds lb known \<longleftrightarrow>
     (\<forall>g c c' kd. g \<noteq> CsiDeploymentV1 \<longrightarrow> lib_AddToScheme lb g c = (None, c') \<longrightarrow>
        known c kd \<or> declared_by kd = g \<longrightarrow> known c' kd) \<and>
     (\<forall>gv objs c c' kd. lib_Builder_AddToScheme lb gv objs c = (None, c') \<longrightarrow>
        known c kd \<or> registers gv objs kd \<longrightarrow> known c' kd)"

lemma own_kinds: "declared_by kd = CsiDeploymentV1 \<Longrightarrow>
    registers (bld_GroupVersion (init_types SchemeBuilder)) (bld_registered (init_types SchemeBuilder)) kd"
  by (cases kd) (simp_all add: init_types_def SchemeBuilder_def GroupVersion_def)

lemma package_AddToScheme_knows:
  assumes "adds_kinds lb known" "package_AddToScheme lb g c = (None, c')" "known c kd \<or> declared_by kd = g"
  shows "known c' kd"
  using assms own_kinds [of kd]
  by (cases "g = CsiDeploymentV1") (auto simp: adds_kinds_def package_AddToScheme_def AddToScheme_def Let_def)

lemma add_to_scheme_knows:
  assumes "adds_kinds lb known"
  shows "add_to_scheme lb gs c = Inr c' \<Longrightarrow> known c kd \<or> declared_by kd \<in> set gs \<Longrightarrow> known c' kd"
proof (induction gs arbitrary: c)
  case (Cons g gs)
  then obtain c1 where g: "package_AddToScheme lb g c = (None, c1)" and r: "add_to_scheme lb gs c1 = Inr c'"
    by (auto split: prod.splits option.splits)
  from package_AddToScheme_knows [OF assms g, of kd] Cons.prems(2)
  have "known c1 kd \<or> declared_by kd \<in> set gs" by auto
  then show ?case by (rule Cons.IH [OF r])
qed simp

text \<open>The scheme fits the clients: when \<open>PrepareScheme\<close> returns a scheme, it knows every kind
  of object the operator reads or writes.\<close>

theorem scheme_covers_clients:
  assumes "adds_kinds lb known" and "PrepareScheme lb = Inr scheme"
  shows "known scheme kd"
proof (rule add_to_scheme_knows [OF assms(1)])
  show "add_to_scheme lb
        [ClientGo, OpenshiftConfig, OpenshiftSecondaryScheduler, CsiDeploymentV1,
         CsibmNodeCrd, VolumeCrd, DriveCrd, LvgCrd, AcCrd, AcrCrd] (lib_NewScheme lb) = Inr scheme"
    using assms(2) by (simp only: PrepareScheme_def Let_def)
  show "known (lib_NewScheme lb) kd \<or> declared_by kd \<in> set
        [ClientGo, OpenshiftConfig, OpenshiftSecondaryScheduler, CsiDeploymentV1,
         CsibmNodeCrd, VolumeCrd, DriveCrd, LvgCrd, AcCrd, AcrCrd]"
    by (cases kd) simp_all
qed

section \<open>What the controller watches\<close>

text \<open>\<open>registered lb rs m m'\<close>: the manager \<open>m\<close> accepted the registrations \<open>rs\<close>, one after the
  other, and is \<open>m'\<close> then.\<close>

fun registered :: "('c, 'm, 'w) machinery \<Rightarrow> 'w registration list \<Rightarrow> 'm \<Rightarrow> 'm \<Rightarrow> bool" where
  "registered lb [] m m' \<longleftrightarrow> m' = m"
| "registered lb (r # rs) m m' \<longleftrightarrow> (\<exists>m1. lib_Register lb r m = (None, m1) \<and> registered lb rs m1 m')"

lemma register_all_spec:
  "register_all lb rs m = (err, m') \<Longrightarrow>
   case err of
     None \<Rightarrow> registered lb rs m m'
   | Some e \<Rightarrow> (\<exists>before r after m1 x. rs = before @ r # after \<and> registered lb before m m1
       \<and> lib_Register lb r m1 = (Some x, m') \<and> e = LibError x)"
proof (induction rs arbitrary: m)
  case (Cons r rs)
  obtain e m1 where r: "lib_Register lb r m = (e, m1)" by fastforce
  show ?case
  proof (cases e)
    case (Some x)
    with Cons.prems r have "err = Some (LibError x)" "m' = m1" by auto
    with r Some show ?thesis by simp (metis append_Nil registered.simps(1))
  next
    case None
    with Cons.prems r have "register_all lb rs m1 = (err, m')" by simp
    note IH = Cons.IH [OF this]
    show ?thesis
    proof (cases err)
      case err: None
      with IH r None show ?thesis by auto
    next
      case (Some e)
      with IH obtain before q after m2 x where "rs = before @ q # after" "registered lb before m1 m2"
        "lib_Register lb q m2 = (Some x, m')" "e = LibError x" by auto
      with r None have "r # rs = (r # before) @ q # after \<and> registered lb (r # before) m m2
          \<and> lib_Register lb q m2 = (Some x, m') \<and> e = LibError x" by simp
      then show ?thesis unfolding Some option.case by blast
    qed
  qed
qed simp

definition watched_kinds :: "'w registration list \<Rightarrow> kind set" where
  "watched_kinds rs = set (concat (map (\<lambda>r. case r of Watch w \<Rightarrow> [wt_Kind w] | _ \<Rightarrow> []) rs))"

lemma setup_watched: "watched_kinds (setup_steps k m pols) =
    {K_Deployment, K_AppsDeployment, K_DaemonSet, K_ConfigMap, K_Pod, K_CoreNode, K_Role, K_RoleBinding}"
  by (auto simp: watched_kinds_def setup_steps_def plain_watch_def)

text \<open>C36. Setting up the controller is all or nothing for its caller. Without an error the
  manager has accepted all registrations, in the order of the code: one controller with one
  worker, and watches on the custom resource and on everything a deployment reads and writes,
  except the two scheduler resources of OpenShift, whose changes are only seen when something
  else leads to a reconciliation. Otherwise there is a first registration that the manager
  refused after accepting all before it; nothing is registered after it, and its error is
  the one that is returned.\<close>

theorem SetupWithManager_spec:
  assumes "SetupWithManager lb k matcher sccPolicies mgr = (err, mgr')"
  shows "case err of
      None \<Rightarrow> registered lb (setup_steps k matcher sccPolicies) mgr mgr'
        \<and> filter (\<lambda>r. \<exists>name n. r = NewController name n) (setup_steps k matcher sccPolicies)
            = [NewController ''csi-controller'' 1]
        \<and> (deploy_kinds \<union> {K_Deployment, K_Role, K_RoleBinding, K_Pod})
              - watched_kinds (setup_steps k matcher sccPolicies)
            = {K_OpenshiftScheduler, K_SecondaryScheduler}
    | Some e \<Rightarrow> \<exists>before r after m x. setup_steps k matcher sccPolicies = before @ r # after
        \<and> registered lb before mgr m \<and> lib_Register lb r m = (Some x, mgr') \<and> e = LibError x"
proof -
  let ?rs = "setup_steps k matcher sccPolicies"
  note r = register_all_spec [OF assms [unfolded SetupWithManager_def]]
  have "filter (\<lambda>r. \<exists>name n. r = NewController name n) ?rs = [NewController ''csi-controller'' 1]"
    by (simp add: setup_steps_def)
  moreover have "(deploy_kinds \<union> {K_Deployment, K_Role, K_RoleBinding, K_Pod}) - watched_kinds ?rs
      = {K_OpenshiftScheduler, K_SecondaryScheduler}"
    by (auto simp: setup_watched)
  ultimately show ?thesis using r by (cases err) simp_all
qed

section \<open>When the manager starts\<close>

text \<open>The program starts the manager only when everything before it has succeeded: the
  scheme, the manager and every registration; the steps are always made in the same order,
  and any failure ends the program with exit code 1. The validator of reservations runs as
  soon as there is a manager, so also in a process that then fails to set up the controller.\<close>

theorem main_starts_last:
  "case main lb k fl of (out, steps) \<Rightarrow>
     prefix steps [ClientSet, SchemeReady, ManagerCreated (main_options fl), AcrValidationLaunched,
       RecorderCreated ComponentName (InitLogger lb (fl_logLevel fl)), ControllerReady, ManagerStarted]
   \<and> (ManagerStarted \<in> set steps \<longleftrightarrow>
       lib_GetConfig lb \<and> lib_NewForConfig lb = None \<and>
       (\<exists>scheme mgr mgr'. PrepareScheme lb = Inr scheme \<and>
         lib_NewManager lb (main_options fl) scheme = Inr mgr \<and>
         SetupWithManager lb k NewMatcher matchSecurityContextConstraintsPolicies mgr = (None, mgr')))
   \<and> (if out = Returned then ManagerStarted \<in> set steps else out = Exit 1)
   \<and> (AcrValidationLaunched \<in> set steps \<longleftrightarrow> ManagerCreated (main_options fl) \<in> set steps)"
  by (auto simp: main_def Let_def split: if_splits option.splits sum.splits prod.splits)

section \<open>Witnesses\<close>

text \<open>A machinery whose scheme and manager are the lists of what they were given.\<close>

definition list_machinery :: "(api_group list, 'w registration list, 'w) machinery" where
  "list_machinery = \<lparr>lib_NewScheme = [], lib_AddToScheme = (\<lambda>g c. (None, g # c)),
     lib_Builder_AddToScheme = (\<lambda>gv objs c. (None, if registers gv objs K_Deployment then CsiDeploymentV1 # c else c)),
     lib_Register = (\<lambda>r m. (None, m @ [r])), lib_ParseLevel = (\<lambda>_. None), lib_GetConfig = True,
     lib_NewForConfig = None, lib_NewManager = (\<lambda>_ _. Inr []), lib_Start = (\<lambda>_. None)\<rparr>"

theorem scheme_covers_clients_witness:
  "\<exists>scheme. PrepareScheme (list_machinery :: (api_group list, nat registration list, nat) machinery) = Inr scheme
     \<and> declared_by K_ACR \<in> set scheme"
proof -
  let ?lb = "list_machinery :: (api_group list, nat registration list, nat) machinery"
  have a: "adds_kinds ?lb (\<lambda>c kd. declared_by kd \<in> set c)" by (auto simp: adds_kinds_def list_machinery_def elim!: registers.elims)
  obtain scheme where s: "PrepareScheme ?lb = Inr scheme" 
    by (simp add: PrepareScheme_def list_machinery_def package_AddToScheme_def AddToScheme_def
        Let_def init_types_def SchemeBuilder_def GroupVersion_def)
  from scheme_covers_clients [OF a s, of K_ACR] s show ?thesis by blast
qed

text \<open>A manager that refuses the watch on roles.\<close>

definition choosy_machinery :: "(api_group list, nat registration list, nat) machinery" where
  "choosy_machinery = list_machinery\<lparr>lib_Register := (\<lambda>r m.
     case r of Watch w \<Rightarrow> if wt_Kind w = K_Role then (Some ''no roles'', m) else (None, m @ [r])
     | _ \<Rightarrow> (None, m @ [r]))\<rparr>"

theorem SetupWithManager_spec_witness:
  "\<exists>e mgr before r m. SetupWithManager choosy_machinery quiet_cluster NewMatcher [] [] = (Some e, mgr)
     \<and> registered choosy_machinery before [] m \<and> lib_Register choosy_machinery r m = (Some ''no roles'', mgr)
     \<and> e = LibError ''no roles''"
proof -
  have run: "\<exists>mgr. SetupWithManager choosy_machinery quiet_cluster NewMatcher [] [] =
      (Some (LibError ''no roles''), mgr)"
    by (simp add: SetupWithManager_def setup_steps_def choosy_machinery_def plain_watch_def)
  then obtain mgr where m: "SetupWithManager choosy_machinery quiet_cluster NewMatcher [] [] =
      (Some (LibError ''no roles''), mgr)" ..
  from SetupWithManager_spec [OF m] m show ?thesis by auto
qed

end
