(* ===== verification/DeepCopy.thy ===== *)
theory DeepCopy
  imports Reconciler
begin

text \<open>
  \<open>api/v1/deployment_types.go\<close> and \<open>api/v1/zz_generated.deepcopy.go\<close>: copying the custom
  resource. Here pointers matter, so a \<open>Deployment\<close> is the Go struct with its pointers, maps and
  slices as addresses into an explicit heap, and \<open>view\<close> reads off the value the rest of the
  development works with. \<open>ObjectMeta.DeepCopyInto\<close> is code of the API machinery: it is the
  parameter \<open>mc\<close>, with its documented behaviour as the hypothesis \<open>copies_meta\<close>.
\<close>

section \<open>Structs and heap\<close>

type_synonym addr = nat

record slice =
  sl_Array :: addr
  sl_Len :: nat

record GoMeta =
  gm_Name :: string
  gm_Namespace :: string
  gm_Labels :: "addr option"
  gm_Finalizers :: "slice option"
  gm_CreationTimestamp :: time
  gm_DeletionTimestamp :: "addr option"
  gm_OwnerReferences :: "slice option"

record GoSpec =
  gs_Driver :: "addr option"
  gs_NodeController :: "addr option"
  gs_Scheduler :: "addr option"
  gs_GlobalRegistry :: string
  gs_RegistrySecret :: string
  gs_PullPolicy :: string
  gs_NodeSelector :: "addr option"
  gs_NodeIDAnnotation :: bool
  gs_SequentialLVGReservation :: bool
  gs_Platform :: string

type_synonym TypeMeta = "string \<times> string"

datatype DeploymentStatus = DeploymentStatus

record GoDeployment =
  gd_TypeMeta :: TypeMeta
  gd_Meta :: GoMeta
  gd_Spec :: GoSpec
  gd_Status :: DeploymentStatus

record ListMeta =
  lm_ResourceVersion :: string
  lm_Continue :: string

record DeploymentList =
  gl_TypeMeta :: TypeMeta
  gl_ListMeta :: ListMeta
  gl_Items :: "addr option"

datatype cell =
    C_Driver Driver
  | C_NodeController NodeController
  | C_Scheduler Scheduler
  | C_NodeSelector NodeSelector
  | C_Labels "(string, string) fmap"
  | C_Strings "string list"
  | C_Owners "OwnerReference list"
  | C_Time time
  | C_Deployment GoDeployment
  | C_Deployments "GoDeployment list"
  | C_List DeploymentList
  | C_Status DeploymentStatus

record heap =
  h_next :: addr
  h_cell :: "addr \<Rightarrow> cell option"

definition alloc :: "cell \<Rightarrow> heap \<Rightarrow> addr \<times> heap" where
  "alloc c h = (h_next h, \<lparr>h_next = Suc (h_next h), h_cell = (h_cell h)(h_next h \<mapsto> c)\<rparr>)"

definition poke :: "addr \<Rightarrow> cell \<Rightarrow> heap \<Rightarrow> heap" where
  "poke a c h = h\<lparr>h_cell := (h_cell h)(a \<mapsto> c)\<rparr>"

definition heap_ok :: "heap \<Rightarrow> bool" where
  "heap_ok h \<longleftrightarrow> (\<forall>a c. h_cell h a = Some c \<longrightarrow> a < h_next h)"

fun as_Driver where "as_Driver (C_Driver x) = Some x" | "as_Driver _ = None"
fun as_NodeController where "as_NodeController (C_NodeController x) = Some x" | "as_NodeController _ = None"
fun as_Scheduler where "as_Scheduler (C_Scheduler x) = Some x" | "as_Scheduler _ = None"
fun as_NodeSelector where "as_NodeSelector (C_NodeSelector x) = Some x" | "as_NodeSelector _ = None"
fun as_Labels where "as_Labels (C_Labels x) = Some x" | "as_Labels _ = None"
fun as_Strings where "as_Strings (C_Strings x) = Some x" | "as_Strings _ = None"
fun as_Owners where "as_Owners (C_Owners x) = Some x" | "as_Owners _ = None"
fun as_Time where "as_Time (C_Time x) = Some x" | "as_Time _ = None"
fun as_Deployment where "as_Deployment (C_Deployment x) = Some x" | "as_Deployment _ = None"
fun as_Deployments where "as_Deployments (C_Deployments x) = Some x" | "as_Deployments _ = None"
fun as_List where "as_List (C_List x) = Some x" | "as_List _ = None"
fun as_Status where "as_Status (C_Status x) = Some x" | "as_Status _ = None"

definition load :: "(cell \<Rightarrow> 'a option) \<Rightarrow> heap \<Rightarrow> addr \<Rightarrow> 'a option" where
  "load sel h a = do { c \<leftarrow> h_cell h a; sel c }"

text \<open>The value behind a pointer, \<open>Some None\<close> for nil, and the elements of a slice.\<close>

definition deref :: "(cell \<Rightarrow> 'a option) \<Rightarrow> heap \<Rightarrow> addr option \<Rightarrow> 'a option option" where
  "deref sel h p = (case p of None \<Rightarrow> Some None | Some a \<Rightarrow> do { x \<leftarrow> load sel h a; Some (Some x) })"

definition elements :: "(cell \<Rightarrow> 'a list option) \<Rightarrow> heap \<Rightarrow> slice option \<Rightarrow> 'a list option" where
  "elements sel h p =
     (case p of
        None \<Rightarrow> Some []
      | Some sl \<Rightarrow> do {
          xs \<leftarrow> load sel h (sl_Array sl);
          if sl_Len sl \<le> length xs then Some (take (sl_Len sl) xs) else None
        })"

definition view_meta :: "heap \<Rightarrow> GoMeta \<Rightarrow> ObjectMeta option" where
  "view_meta h m = do {
     ls \<leftarrow> deref as_Labels h (gm_Labels m);
     fs \<leftarrow> elements as_Strings h (gm_Finalizers m);
     dt \<leftarrow> deref as_Time h (gm_DeletionTimestamp m);
     os \<leftarrow> elements as_Owners h (gm_OwnerReferences m);
     Some \<lparr>m_Name = gm_Name m, m_Namespace = gm_Namespace m, m_Labels = ls, m_Finalizers = fs,
       m_CreationTimestamp = gm_CreationTimestamp m, m_DeletionTimestamp = dt, m_OwnerReferences = os\<rparr>
   }"

definition view_spec :: "heap \<Rightarrow> GoSpec \<Rightarrow> DeploymentSpec option" where
  "view_spec h sp = do {
     dr \<leftarrow> deref as_Driver h (gs_Driver sp);
     nc \<leftarrow> deref as_NodeController h (gs_NodeController sp);
     sch \<leftarrow> deref as_Scheduler h (gs_Scheduler sp);
     sel \<leftarrow> deref as_NodeSelector h (gs_NodeSelector sp);
     Some \<lparr>sp_Driver = dr, sp_NodeController = nc, sp_Scheduler = sch,
       sp_GlobalRegistry = gs_GlobalRegistry sp, sp_RegistrySecret = gs_RegistrySecret sp,
       sp_PullPolicy = gs_PullPolicy sp, sp_NodeSelector = sel,
       sp_NodeIDAnnotation = gs_NodeIDAnnotation sp,
       sp_SequentialLVGReservation = gs_SequentialLVGReservation sp, sp_Platform = gs_Platform sp\<rparr>
   }"

definition view :: "heap \<Rightarrow> GoDeployment \<Rightarrow> Deployment option" where
  "view h d = do {
     m \<leftarrow> view_meta h (gd_Meta d);
     sp \<leftarrow> view_spec h (gd_Spec d);
     Some \<lparr>dep_Meta = m, dep_Spec = sp\<rparr>
   }"

text \<open>The addresses a struct refers to.\<close>

definition refs_meta :: "GoMeta \<Rightarrow> addr set" where
  "refs_meta m = set_option (gm_Labels m) \<union> set_option (gm_DeletionTimestamp m)
     \<union> sl_Array ` (set_option (gm_Finalizers m) \<union> set_option (gm_OwnerReferences m))"

definition refs_spec :: "GoSpec \<Rightarrow> addr set" where
  "refs_spec sp = set_option (gs_Driver sp) \<union> set_option (gs_NodeController sp)
     \<union> set_option (gs_Scheduler sp) \<union> set_option (gs_NodeSelector sp)"

section \<open>The copy functions\<close>

type_synonym meta_copier = "GoMeta \<Rightarrow> heap \<Rightarrow> GoMeta \<times> heap"

text \<open>\<open>DeepCopyInto\<close> on the struct \<open>*in\<close>, giving the struct written to \<open>*out\<close>.\<close>

definition DeepCopyInto :: "meta_copier \<Rightarrow> GoDeployment \<Rightarrow> heap \<Rightarrow> GoDeployment \<times> heap" where
  "DeepCopyInto mc din h =
     (let out = din;
          out = out\<lparr>gd_TypeMeta := gd_TypeMeta din\<rparr>;
          (m, h) = mc (gd_Meta din) h;
          out = out\<lparr>gd_Meta := m\<rparr>;
          out = out\<lparr>gd_Spec := gd_Spec din\<rparr>
      in (out, h))"

text \<open>\<open>new(Deployment)\<close>.\<close>

definition zero_deployment :: GoDeployment where
  "zero_deployment = \<lparr>gd_TypeMeta = ([], []),
     gd_Meta = \<lparr>gm_Name = [], gm_Namespace = [], gm_Labels = None, gm_Finalizers = None,
       gm_CreationTimestamp = 0, gm_DeletionTimestamp = None, gm_OwnerReferences = None\<rparr>,
     gd_Spec = \<lparr>gs_Driver = None, gs_NodeController = None, gs_Scheduler = None,
       gs_GlobalRegistry = [], gs_RegistrySecret = [], gs_PullPolicy = [], gs_NodeSelector = None,
       gs_NodeIDAnnotation = False, gs_SequentialLVGReservation = False, gs_Platform = []\<rparr>,
     gd_Status = DeploymentStatus\<rparr>"

text \<open>A nil pointer gives nil; \<open>None\<close> is a pointer to no object of this type.\<close>

definition DeepCopy :: "meta_copier \<Rightarrow> addr option \<Rightarrow> heap \<Rightarrow> (addr option \<times> heap) option" where
  "DeepCopy mc pin h =
     (case pin of
        None \<Rightarrow> Some (None, h)
      | Some a \<Rightarrow> do {
          din \<leftarrow> load as_Deployment h a;
          let (out, h) = alloc (C_Deployment zero_deployment) h;
          let (d, h) = DeepCopyInto mc din h;
          Some (Some out, poke out (C_Deployment d) h)
        })"

definition DeepCopyObject :: "meta_copier \<Rightarrow> addr option \<Rightarrow> heap \<Rightarrow> (addr option \<times> heap) option" where
  "DeepCopyObject mc pin h = do {
     (c, h) \<leftarrow> DeepCopy mc pin h;
     Some (if c \<noteq> None then c else None, h)
   }"

fun copy_items :: "meta_copier \<Rightarrow> GoDeployment list \<Rightarrow> heap \<Rightarrow> GoDeployment list \<times> heap" where
  "copy_items mc [] h = ([], h)"
| "copy_items mc (d # ds) h =
     (let (d', h) = DeepCopyInto mc d h;
          (ds', h) = copy_items mc ds h
      in (d' # ds', h))"

text \<open>The fields of \<open>ListMeta\<close> that are read hold no pointers.\<close>

definition List_DeepCopyInto :: "meta_copier \<Rightarrow> DeploymentList \<Rightarrow> heap \<Rightarrow> (DeploymentList \<times> heap) option" where
  "List_DeepCopyInto mc lin h = do {
     let out = lin\<lparr>gl_TypeMeta := gl_TypeMeta lin, gl_ListMeta := gl_ListMeta lin\<rparr>;
     case gl_Items lin of
       None \<Rightarrow> Some (out, h)
     | Some a \<Rightarrow> do {
         items \<leftarrow> load as_Deployments h a;
         let (ds, h) = copy_items mc items h;
         let (b, h) = alloc (C_Deployments ds) h;
         Some (out\<lparr>gl_Items := Some b\<rparr>, h)
       }
   }"

definition List_DeepCopy :: "meta_copier \<Rightarrow> addr option \<Rightarrow> heap \<Rightarrow> (addr option \<times> heap) option" where
  "List_DeepCopy mc pin h =
     (case pin of
        None \<Rightarrow> Some (None, h)
      | Some a \<Rightarrow> do {
          lin \<leftarrow> load as_List h a;
          (l, h) \<leftarrow> List_DeepCopyInto mc lin h;
          let (out, h) = alloc (C_List l) h;
          Some (Some out, h)
        })"

definition List_DeepCopyObject :: "meta_copier \<Rightarrow> addr option \<Rightarrow> heap \<Rightarrow> (addr option \<times> heap) option" where
  "List_DeepCopyObject mc pin h = do {
     (c, h) \<leftarrow> List_DeepCopy mc pin h;
     Some (if c \<noteq> None then c else None, h)
   }"

definition Status_DeepCopyInto :: "DeploymentStatus \<Rightarrow> DeploymentStatus" where
  "Status_DeepCopyInto sin = sin"

definition Status_DeepCopy :: "addr option \<Rightarrow> heap \<Rightarrow> (addr option \<times> heap) option" where
  "Status_DeepCopy pin h =
     (case pin of
        None \<Rightarrow> Some (None, h)
      | Some a \<Rightarrow> do {
          sin \<leftarrow> load as_Status h a;
          let (out, h) = alloc (C_Status (Status_DeepCopyInto sin)) h;
          Some (Some out, h)
        })"

text \<open>Go's \<open>append\<close> on a slice of strings: in place when the array has room after the slice, else
  into a new array. \<open>append_finalizer\<close> is the assignment of \<open>Reconcile\<close> on the custom resource
  it read.\<close>

definition append_string :: "slice option \<Rightarrow> string \<Rightarrow> heap \<Rightarrow> (slice option \<times> heap) option" where
  "append_string p x h =
     (case p of
        None \<Rightarrow> (let (a, h) = alloc (C_Strings [x]) h in Some (Some \<lparr>sl_Array = a, sl_Len = 1\<rparr>, h))
      | Some sl \<Rightarrow> do {
          xs \<leftarrow> load as_Strings h (sl_Array sl);
          if sl_Len sl < length xs
          then Some (Some (sl\<lparr>sl_Len := Suc (sl_Len sl)\<rparr>),
                 poke (sl_Array sl) (C_Strings (xs[sl_Len sl := x])) h)
          else (let (a, h) = alloc (C_Strings (take (sl_Len sl) xs @ [x])) h
                in Some (Some \<lparr>sl_Array = a, sl_Len = Suc (sl_Len sl)\<rparr>, h))
        })"

definition append_finalizer :: "addr \<Rightarrow> heap \<Rightarrow> heap option" where
  "append_finalizer a h = do {
     d \<leftarrow> load as_Deployment h a;
     (fs, h) \<leftarrow> append_string (gm_Finalizers (gd_Meta d)) csiFinalizer h;
     Some (poke a (C_Deployment (d\<lparr>gd_Meta := (gd_Meta d)\<lparr>gm_Finalizers := fs\<rparr>\<rparr>)) h)
   }"

section \<open>Reasoning about the heap\<close>

definition extends :: "heap \<Rightarrow> heap \<Rightarrow> bool" where
  "extends h h' \<longleftrightarrow> h_next h \<le> h_next h' \<and> (\<forall>a < h_next h. h_cell h' a = h_cell h a)"

definition copies_meta :: "meta_copier \<Rightarrow> bool" where
  "copies_meta mc \<longleftrightarrow>
     (\<forall>m h v m' h'. heap_ok h \<and> view_meta h m = Some v \<and> mc m h = (m', h') \<longrightarrow>
        heap_ok h' \<and> extends h h' \<and> view_meta h' m' = Some v \<and> (\<forall>a \<in> refs_meta m'. h_next h \<le> a))"

lemma extends_refl [simp]: "extends h h"
  by (simp add: extends_def)

lemma extends_trans [trans]: "extends h1 h2 \<Longrightarrow> extends h2 h3 \<Longrightarrow> extends h1 h3"
  by (force simp: extends_def)

lemma alloc_simps:
  "alloc c h = (a, h') \<Longrightarrow> heap_ok h \<Longrightarrow> heap_ok h'"
  "alloc c h = (a, h') \<Longrightarrow> extends h h'"
  "alloc c h = (a, h') \<Longrightarrow> a = h_next h"
  "alloc c h = (a, h') \<Longrightarrow> h_next h' = Suc (h_next h)"
  "alloc c h = (a, h') \<Longrightarrow> load sel h' a = sel c"
  by (auto simp: alloc_def heap_ok_def extends_def load_def less_SucI split: if_splits)

lemma load_extends: "heap_ok h \<Longrightarrow> extends h h' \<Longrightarrow> load sel h a = Some x \<Longrightarrow> load sel h' a = Some x"
  by (auto simp: load_def heap_ok_def extends_def split: Option.bind_splits)

lemma load_bound: "heap_ok h \<Longrightarrow> load sel h a = Some x \<Longrightarrow> a < h_next h"
  by (auto simp: load_def heap_ok_def split: Option.bind_splits)

lemma load_poke: "load sel (poke a c h) b = (if b = a then sel c else load sel h b)"
  by (simp add: load_def poke_def)

lemma cell_poke: "h_cell (poke a c h) b = (if b = a then Some c else h_cell h b)"
  by (simp add: poke_def)

lemma poke_simps [simp]: "h_next (poke a c h) = h_next h" "a < h_next h \<Longrightarrow> heap_ok h \<Longrightarrow> heap_ok (poke a c h)"
  by (auto simp: poke_def heap_ok_def)

lemma poke_extends: "extends h h' \<Longrightarrow> h_next h \<le> a \<Longrightarrow> extends h (poke a c h')"
  by (auto simp: extends_def poke_def)

text \<open>Reading only depends on the cells referred to.\<close>

lemma deref_cong: "(\<And>a. a \<in> set_option p \<Longrightarrow> load sel h' a = load sel h a) \<Longrightarrow> deref sel h' p = deref sel h p"
  by (cases p) (auto simp: deref_def)

lemma elements_cong:
  "(\<And>sl. sl \<in> set_option p \<Longrightarrow> load sel h' (sl_Array sl) = load sel h (sl_Array sl)) \<Longrightarrow>
   elements sel h' p = elements sel h p"
  by (cases p) (auto simp: elements_def)

lemma view_meta_cong:
  assumes "\<And>a. a \<in> refs_meta m \<Longrightarrow> h_cell h' a = h_cell h a"
  shows "view_meta h' m = view_meta h m"
proof -
  have "load sel h' a = load sel h a" if "a \<in> refs_meta m" for sel a
    using assms [OF that] by (simp add: load_def)
  then have "deref as_Labels h' (gm_Labels m) = deref as_Labels h (gm_Labels m)"
    "elements as_Strings h' (gm_Finalizers m) = elements as_Strings h (gm_Finalizers m)"
    "deref as_Time h' (gm_DeletionTimestamp m) = deref as_Time h (gm_DeletionTimestamp m)"
    "elements as_Owners h' (gm_OwnerReferences m) = elements as_Owners h (gm_OwnerReferences m)"
    by (auto intro!: deref_cong elements_cong simp: refs_meta_def)
  then show ?thesis by (simp add: view_meta_def)
qed

lemma view_spec_cong:
  assumes "\<And>a. a \<in> refs_spec sp \<Longrightarrow> h_cell h' a = h_cell h a"
  shows "view_spec h' sp = view_spec h sp"
proof -
  have "load sel h' a = load sel h a" if "a \<in> refs_spec sp" for sel a
    using assms [OF that] by (simp add: load_def)
  then have "deref as_Driver h' (gs_Driver sp) = deref as_Driver h (gs_Driver sp)"
    "deref as_NodeController h' (gs_NodeController sp) = deref as_NodeController h (gs_NodeController sp)"
    "deref as_Scheduler h' (gs_Scheduler sp) = deref as_Scheduler h (gs_Scheduler sp)"
    "deref as_NodeSelector h' (gs_NodeSelector sp) = deref as_NodeSelector h (gs_NodeSelector sp)"
    by (auto intro!: deref_cong simp: refs_spec_def)
  then show ?thesis by (simp add: view_spec_def)
qed

lemma reads_bound:
  "heap_ok h \<Longrightarrow> deref sel h p = Some x \<Longrightarrow> a \<in> set_option p \<Longrightarrow> a < h_next h"
  "heap_ok h \<Longrightarrow> elements sel' h q = Some xs \<Longrightarrow> sl \<in> set_option q \<Longrightarrow> sl_Array sl < h_next h"
  by (auto simp: deref_def elements_def split: Option.bind_splits option.splits dest: load_bound load_bound [OF _ sym])

lemma refs_meta_bound:
  assumes "heap_ok h" "view_meta h m = Some v" "a \<in> refs_meta m"
  shows "a < h_next h"
proof -
  from assms(2) have
    "deref as_Labels h (gm_Labels m) \<noteq> None" "elements as_Strings h (gm_Finalizers m) \<noteq> None"
    "deref as_Time h (gm_DeletionTimestamp m) \<noteq> None" "elements as_Owners h (gm_OwnerReferences m) \<noteq> None"
    by (auto simp: view_meta_def split: Option.bind_splits)
  with assms(1,3) show ?thesis by (auto simp: refs_meta_def dest: reads_bound)
qed

lemma refs_spec_bound:
  assumes "heap_ok h" "view_spec h sp = Some w" "a \<in> refs_spec sp"
  shows "a < h_next h"
proof -
  from assms(2) have
    "deref as_Driver h (gs_Driver sp) \<noteq> None" "deref as_NodeController h (gs_NodeController sp) \<noteq> None"
    "deref as_Scheduler h (gs_Scheduler sp) \<noteq> None" "deref as_NodeSelector h (gs_NodeSelector sp) \<noteq> None"
    by (auto simp: view_spec_def split: Option.bind_splits)
  with assms(1,3) show ?thesis by (auto simp: refs_spec_def dest: reads_bound)
qed

lemmas refs_bounds = refs_meta_bound refs_spec_bound

lemma view_parts: "view h d = Some v \<longleftrightarrow>
    view_meta h (gd_Meta d) = Some (dep_Meta v) \<and> view_spec h (gd_Spec d) = Some (dep_Spec v)"
  by (cases v) (auto simp: view_def split: Option.bind_splits)

lemma view_kept:
  assumes "heap_ok h" "view h d = Some v" "\<forall>x < h_next h. h_cell h' x = h_cell h x"
  shows "view h' d = Some v"
proof -
  from assms(2) have v: "view_meta h (gd_Meta d) = Some (dep_Meta v)" "view_spec h (gd_Spec d) = Some (dep_Spec v)"
    by (simp_all add: view_parts)
  have "view_meta h' (gd_Meta d) = view_meta h (gd_Meta d)"
    by (rule view_meta_cong) (use refs_bounds(1) [OF assms(1) v(1)] assms(3) in simp)
  moreover have "view_spec h' (gd_Spec d) = view_spec h (gd_Spec d)"
    by (rule view_spec_cong) (use refs_bounds(2) [OF assms(1) v(2)] assms(3) in simp)
  ultimately show ?thesis using v by (simp add: view_parts)
qed

lemma view_extends: "heap_ok h \<Longrightarrow> extends h h' \<Longrightarrow> view h d = Some v \<Longrightarrow> view h' d = Some v"
  by (erule (1) view_kept) (simp add: extends_def)

lemma view_poke:
  assumes "a \<notin> refs_meta (gd_Meta d)" "a \<notin> refs_spec (gd_Spec d)"
  shows "view (poke a c h) d = view h d"
proof -
  have "view_meta (poke a c h) (gd_Meta d) = view_meta h (gd_Meta d)"
    by (rule view_meta_cong) (use assms(1) in \<open>auto simp: poke_def\<close>)
  moreover have "view_spec (poke a c h) (gd_Spec d) = view_spec h (gd_Spec d)"
    by (rule view_spec_cong) (use assms(2) in \<open>auto simp: poke_def\<close>)
  ultimately show ?thesis by (simp add: view_def)
qed

section \<open>What a copy shares\<close>

lemma DeepCopyInto_spec:
  assumes mc: "copies_meta mc" and ok: "heap_ok h" and v: "view h d = Some v"
    and run: "DeepCopyInto mc d h = (d', h')"
  shows "heap_ok h'" "extends h h'" "view h' d' = Some v" "gd_Spec d' = gd_Spec d"
    "gd_TypeMeta d' = gd_TypeMeta d" "\<forall>a \<in> refs_meta (gd_Meta d'). h_next h \<le> a"
proof -
  from run have m: "mc (gd_Meta d) h = (gd_Meta d', h')" and s: "gd_Spec d' = gd_Spec d"
    and t: "gd_TypeMeta d' = gd_TypeMeta d"
    by (auto simp: DeepCopyInto_def Let_def split: prod.splits)
  from v have vm: "view_meta h (gd_Meta d) = Some (dep_Meta v)" by (simp add: view_parts)
  from mc ok vm m have c: "heap_ok h'" "extends h h'" "view_meta h' (gd_Meta d') = Some (dep_Meta v)"
    "\<forall>a \<in> refs_meta (gd_Meta d'). h_next h \<le> a"
    unfolding copies_meta_def by blast+
  with view_extends [OF ok c(2) v] s show "heap_ok h'" "extends h h'" "view h' d' = Some v"
    "gd_Spec d' = gd_Spec d" "gd_TypeMeta d' = gd_TypeMeta d" "\<forall>a \<in> refs_meta (gd_Meta d'). h_next h \<le> a"
    by (simp_all add: view_parts t)
qed

lemma DeepCopy_cases:
  assumes mc: "copies_meta mc" and ok: "heap_ok h" and at: "load as_Deployment h a = Some d"
    and v: "view h d = Some v"
  obtains b d' h' where "DeepCopy mc (Some a) h = Some (Some b, h')" "heap_ok h'" "extends h h'"
    "h_next h \<le> b" "load as_Deployment h' b = Some d'" "view h' d' = Some v"
    "gd_Spec d' = gd_Spec d" "\<forall>x \<in> refs_meta (gd_Meta d'). h_next h \<le> x \<and> x \<noteq> b"
    "b < h_next h'"
proof -
  obtain b h1 where al: "alloc (C_Deployment zero_deployment) h = (b, h1)" by fastforce
  obtain d' h2 where cp: "DeepCopyInto mc d h1 = (d', h2)" by fastforce
  have h1: "heap_ok h1" "extends h h1" "b = h_next h" "h_next h1 = Suc b"
    using alloc_simps [OF al] ok by simp_all
  note v1 = view_extends [OF ok h1(2) v]
  note c = DeepCopyInto_spec [OF mc h1(1) v1 cp]
  have b: "b < h_next h2" using c(2) h1(4) by (simp add: extends_def)
  have r: "\<forall>x \<in> refs_meta (gd_Meta d'). h_next h \<le> x \<and> x \<noteq> b"
    using c(6) unfolding h1(4) h1(3) by (auto simp: Suc_le_eq)
  have "b \<notin> refs_spec (gd_Spec d')"
  proof
    assume "b \<in> refs_spec (gd_Spec d')"
    with c(4) v have "b < h_next h" using refs_bounds(2) [OF ok, of "gd_Spec d"] by (auto simp: view_parts)
    with h1(3) show False by simp
  qed
  then have "view (poke b (C_Deployment d') h2) d' = Some v"
    using view_poke [of b d'] r c(3) by auto
  moreover have "DeepCopy mc (Some a) h = Some (Some b, poke b (C_Deployment d') h2)"
    using at al cp by (simp add: DeepCopy_def)
  moreover have "extends h (poke b (C_Deployment d') h2)"
    using h1 c(2) extends_trans by (blast intro: poke_extends)
  ultimately show ?thesis
    using that [of b "poke b (C_Deployment d') h2" d'] r c(1,4) b h1(3) by (simp add: load_poke)
qed

text \<open>A pointer that reads as one type reads as no other.\<close>

lemma load_types:
  "load as_Scheduler h a = Some x \<Longrightarrow> load as_Driver h a = None"
  "load as_Scheduler h a = Some x \<Longrightarrow> load as_NodeController h a = None"
  "load as_Scheduler h a = Some x \<Longrightarrow> load as_NodeSelector h a = None"
  "load as_Scheduler h a = Some x \<Longrightarrow> load as_Labels h a = None"
  "load as_Scheduler h a = Some x \<Longrightarrow> load as_Strings h a = None"
  "load as_Scheduler h a = Some x \<Longrightarrow> load as_Time h a = None"
  "load as_Scheduler h a = Some x \<Longrightarrow> load as_Owners h a = None"
  by (auto simp: load_def split: Option.bind_splits elim!: as_Scheduler.elims)

lemma load_not_strings:
  "load as_Driver h a = Some x1 \<Longrightarrow> load as_Strings h a = None"
  "load as_NodeController h a = Some x2 \<Longrightarrow> load as_Strings h a = None"
  "load as_Scheduler h a = Some x3 \<Longrightarrow> load as_Strings h a = None"
  "load as_NodeSelector h a = Some x4 \<Longrightarrow> load as_Strings h a = None"
  "load as_Labels h a = Some x5 \<Longrightarrow> load as_Strings h a = None"
  "load as_Time h a = Some x6 \<Longrightarrow> load as_Strings h a = None"
  "load as_Owners h a = Some x7 \<Longrightarrow> load as_Strings h a = None"
  by (auto simp: load_def split: Option.bind_splits elim!: as_Driver.elims as_NodeController.elims
      as_Scheduler.elims as_NodeSelector.elims as_Labels.elims as_Time.elims as_Owners.elims)

lemma reads_mono:
  "(\<And>a x. load sel h a = Some x \<Longrightarrow> load sel h' a = Some x) \<Longrightarrow> deref sel h p = Some y \<Longrightarrow> deref sel h' p = Some y"
  "(\<And>a x. load sel' h a = Some x \<Longrightarrow> load sel' h' a = Some x) \<Longrightarrow> elements sel' h q = Some ys \<Longrightarrow> elements sel' h' q = Some ys"
  by (auto simp: deref_def elements_def bind_eq_Some_conv split: option.splits if_splits)

lemma view_meta_iff: "view_meta h m = Some w \<longleftrightarrow>
    deref as_Labels h (gm_Labels m) = Some (m_Labels w) \<and>
    elements as_Strings h (gm_Finalizers m) = Some (m_Finalizers w) \<and>
    deref as_Time h (gm_DeletionTimestamp m) = Some (m_DeletionTimestamp w) \<and>
    elements as_Owners h (gm_OwnerReferences m) = Some (m_OwnerReferences w) \<and>
    m_Name w = gm_Name m \<and> m_Namespace w = gm_Namespace m \<and> m_CreationTimestamp w = gm_CreationTimestamp m"
  by (cases w) (auto simp: view_meta_def bind_eq_Some_conv)

lemma view_spec_iff: "view_spec h sp = Some w \<longleftrightarrow>
    deref as_Driver h (gs_Driver sp) = Some (sp_Driver w) \<and>
    deref as_NodeController h (gs_NodeController sp) = Some (sp_NodeController w) \<and>
    deref as_Scheduler h (gs_Scheduler sp) = Some (sp_Scheduler w) \<and>
    deref as_NodeSelector h (gs_NodeSelector sp) = Some (sp_NodeSelector w) \<and>
    sp_GlobalRegistry w = gs_GlobalRegistry sp \<and> sp_RegistrySecret w = gs_RegistrySecret sp \<and>
    sp_PullPolicy w = gs_PullPolicy sp \<and> sp_NodeIDAnnotation w = gs_NodeIDAnnotation sp \<and>
    sp_SequentialLVGReservation w = gs_SequentialLVGReservation sp \<and> sp_Platform w = gs_Platform sp"
  by (cases w) (auto simp: view_spec_def bind_eq_Some_conv)

lemma deref_poke:
  "deref sel h p = Some y \<Longrightarrow> load sel h a = None \<Longrightarrow> deref sel (poke a c h) p = Some y"
  by (auto simp: deref_def load_poke split: option.splits Option.bind_splits)

lemma elements_poke:
  "elements sel h p = Some y \<Longrightarrow> load sel h a = None \<Longrightarrow> elements sel (poke a c h) p = Some y"
  by (auto simp: elements_def load_poke split: option.splits Option.bind_splits if_splits)

lemma view_poke_Scheduler:
  assumes "view h d = Some v" "gs_Scheduler (gd_Spec d) = Some x" "load as_Scheduler h x = Some sch"
  shows "view (poke x (C_Scheduler sch') h) d =
    Some (v\<lparr>dep_Spec := (dep_Spec v)\<lparr>sp_Scheduler := Some sch'\<rparr>\<rparr>)"
proof -
  have "view_meta (poke x (C_Scheduler sch') h) (gd_Meta d) = Some (dep_Meta v)"
    using assms(1) load_types [OF assms(3)]
    by (simp add: view_parts view_meta_iff deref_poke elements_poke)
  moreover have "deref as_Scheduler (poke x (C_Scheduler sch') h) (Some x) = Some (Some sch')"
    by (simp add: deref_def load_poke)
  with assms(1,2) load_types [OF assms(3)]
  have "view_spec (poke x (C_Scheduler sch') h) (gd_Spec d) = Some ((dep_Spec v)\<lparr>sp_Scheduler := Some sch'\<rparr>)"
    by (simp add: view_parts view_spec_iff deref_poke)
  ultimately show ?thesis by (simp add: view_parts)
qed

text \<open>Appending to a slice: what it reads as afterwards, and which cells it may write.\<close>

lemma append_string_spec:
  assumes ok: "heap_ok h" and e: "elements as_Strings h p = Some xs"
  obtains q h' where "append_string p x h = Some (q, h')" "elements as_Strings h' q = Some (xs @ [x])"
    "\<forall>a. a < h_next h \<longrightarrow> a \<notin> sl_Array ` set_option p \<longrightarrow> h_cell h' a = h_cell h a"
    "\<forall>a. load as_Strings h a = None \<longrightarrow> h_cell h a \<noteq> None \<longrightarrow> h_cell h' a = h_cell h a"
    "sl_Array ` set_option q \<subseteq> sl_Array ` set_option p \<union> {h_next h}"
proof (cases p)
  case None
  obtain a h1 where al: "alloc (C_Strings [x]) h = (a, h1)" by fastforce
  note ext = alloc_simps(2) [OF al]
  show ?thesis
    by (rule that [of "Some \<lparr>sl_Array = a, sl_Len = 1\<rparr>" h1])
      (use None e al alloc_simps(1-4) [OF al] alloc_simps(5) [OF al, of as_Strings] ok ext in
        \<open>auto simp: append_string_def elements_def extends_def heap_ok_def\<close>)
next
  case (Some sl)
  with e obtain ys where ys: "load as_Strings h (sl_Array sl) = Some ys" "sl_Len sl \<le> length ys"
    "xs = take (sl_Len sl) ys"
    by (auto simp: elements_def split: Option.bind_splits if_splits)
  show ?thesis
  proof (cases "sl_Len sl < length ys")
    case True
    show ?thesis
      by (rule that [of "Some (sl\<lparr>sl_Len := Suc (sl_Len sl)\<rparr>)"
            "poke (sl_Array sl) (C_Strings (ys[sl_Len sl := x])) h"])
        (use Some True ys ok load_bound [OF ok ys(1)] in
          \<open>auto simp: append_string_def elements_def load_poke cell_poke take_Suc_conv_app_nth\<close>)
  next
    case False
    obtain a h1 where al: "alloc (C_Strings (take (sl_Len sl) ys @ [x])) h = (a, h1)" by fastforce
    note ext = alloc_simps(2) [OF al]
    show ?thesis
      by (rule that [of "Some \<lparr>sl_Array = a, sl_Len = Suc (sl_Len sl)\<rparr>" h1])
        (use Some False ys al alloc_simps(1-4) [OF al] alloc_simps(5) [OF al, of as_Strings] ok ext in
          \<open>auto simp: append_string_def elements_def extends_def heap_ok_def\<close>)
  qed
qed

lemma append_finalizer_spec:
  assumes ok: "heap_ok h" and at: "load as_Deployment h b = Some d" and v: "view h d = Some v"
    and own: "b \<notin> refs_meta (gd_Meta d)" "b \<notin> refs_spec (gd_Spec d)"
  obtains d' h' where "append_finalizer b h = Some h'" "load as_Deployment h' b = Some d'"
    "view h' d' = Some (with_finalizers v (dep_Finalizers v @ [csiFinalizer]))"
    "\<forall>a. a < h_next h \<longrightarrow> a \<noteq> b \<longrightarrow> a \<notin> refs_meta (gd_Meta d) \<longrightarrow> h_cell h' a = h_cell h a"
    "refs_meta (gd_Meta d') \<subseteq> insert (h_next h) (refs_meta (gd_Meta d))"
proof -
  let ?fs = "gm_Finalizers (gd_Meta d)"
  from v have m: "view_meta h (gd_Meta d) = Some (dep_Meta v)" and sp: "view_spec h (gd_Spec d) = Some (dep_Spec v)"
    by (simp_all add: view_parts)
  from m have e: "elements as_Strings h ?fs = Some (dep_Finalizers v)"
    by (simp add: view_meta_iff)
  obtain q h1 where
    ap: "append_string ?fs csiFinalizer h = Some (q, h1)" and
    e1: "elements as_Strings h1 q = Some (dep_Finalizers v @ [csiFinalizer])" and
    keep: "\<forall>a. a < h_next h \<longrightarrow> a \<notin> sl_Array ` set_option ?fs \<longrightarrow> h_cell h1 a = h_cell h a" and
    rest: "\<forall>a. load as_Strings h a = None \<longrightarrow> h_cell h a \<noteq> None \<longrightarrow> h_cell h1 a = h_cell h a" and
    q: "sl_Array ` set_option q \<subseteq> sl_Array ` set_option ?fs \<union> {h_next h}"
    by (rule append_string_spec [OF ok e, of csiFinalizer])
  let ?d = "d\<lparr>gd_Meta := (gd_Meta d)\<lparr>gm_Finalizers := q\<rparr>\<rparr>"
  let ?v = "with_finalizers v (dep_Finalizers v @ [csiFinalizer])"
  have others: "load sel h1 a = Some y" if "load as_Strings h a = None" "load sel h a = Some y" for sel a y
    using that rest by (auto simp: load_def bind_eq_Some_conv)
  have moved: "load as_Driver h a = Some x0 \<Longrightarrow> load as_Driver h1 a = Some x0"
    "load as_NodeController h a = Some x1 \<Longrightarrow> load as_NodeController h1 a = Some x1"
    "load as_Scheduler h a = Some x2 \<Longrightarrow> load as_Scheduler h1 a = Some x2"
    "load as_NodeSelector h a = Some x3 \<Longrightarrow> load as_NodeSelector h1 a = Some x3"
    "load as_Labels h a = Some x4 \<Longrightarrow> load as_Labels h1 a = Some x4"
    "load as_Time h a = Some x5 \<Longrightarrow> load as_Time h1 a = Some x5"
    "load as_Owners h a = Some x6 \<Longrightarrow> load as_Owners h1 a = Some x6"
    for a x0 x1 x2 x3 x4 x5 x6
    by (simp_all add: others load_not_strings)
  note kept = reads_mono(1) [of as_Driver h h1, OF moved(1)]
    reads_mono(1) [of as_NodeController h h1, OF moved(2)]
    reads_mono(1) [of as_Scheduler h h1, OF moved(3)]
    reads_mono(1) [of as_NodeSelector h h1, OF moved(4)]
    reads_mono(1) [of as_Labels h h1, OF moved(5)]
    reads_mono(1) [of as_Time h h1, OF moved(6)]
    reads_mono(2) [of as_Owners h h1, OF moved(7)]
  have "view_meta h1 (gd_Meta ?d) = Some (dep_Meta ?v)"
    using m e1 by (simp add: view_meta_iff with_finalizers_def kept)
  moreover have "view_spec h1 (gd_Spec ?d) = Some (dep_Spec ?v)"
    using sp by (simp add: view_spec_iff with_finalizers_def kept)
  ultimately have w: "view h1 ?d = Some ?v" by (simp add: view_parts)
  have b: "b < h_next h" using load_bound [OF ok at] .
  have "view (poke b (C_Deployment ?d) h1) ?d = Some ?v"
    unfolding w [symmetric] by (rule view_poke) (use own q b in \<open>auto simp: refs_meta_def\<close>)
  moreover have "append_finalizer b h = Some (poke b (C_Deployment ?d) h1)"
    by (simp add: append_finalizer_def at ap)
  moreover have "h_cell (poke b (C_Deployment ?d) h1) a = h_cell h a"
    if "a < h_next h" "a \<noteq> b" "a \<notin> refs_meta (gd_Meta d)" for a
    using that keep by (auto simp: cell_poke refs_meta_def)
  moreover have "refs_meta (gd_Meta ?d) \<subseteq> insert (h_next h) (refs_meta (gd_Meta d))"
    using q by (auto simp: refs_meta_def)
  ultimately show ?thesis by (intro that [of "poke b (C_Deployment ?d) h1" ?d]) (auto simp: load_poke)
qed

lemma copy_items_spec:
  assumes mc: "copies_meta mc"
  shows "heap_ok h \<Longrightarrow> list_all2 (\<lambda>d v. view h d = Some v) ds vs \<Longrightarrow> copy_items mc ds h = (ds', h') \<Longrightarrow>
    heap_ok h' \<and> extends h h' \<and> list_all2 (\<lambda>d v. view h' d = Some v) ds' vs \<and> map gd_Spec ds' = map gd_Spec ds"
proof (induction ds arbitrary: h vs ds' h')
  case (Cons d ds)
  from Cons.prems(2) obtain v us where vs: "vs = v # us" "view h d = Some v"
    "list_all2 (\<lambda>d v. view h d = Some v) ds us" by (auto simp: list_all2_Cons1)
  obtain d1 h1 where cp: "DeepCopyInto mc d h = (d1, h1)" by fastforce
  with Cons.prems(3) obtain es where r: "copy_items mc ds h1 = (es, h')" "ds' = d1 # es"
    by (auto split: prod.splits)
  note c = DeepCopyInto_spec [OF mc Cons.prems(1) vs(2) cp]
  have "list_all2 (\<lambda>d v. view h1 d = Some v) ds us"
    using vs(3) by (rule list_all2_mono) (rule view_extends [OF Cons.prems(1) c(2)])
  from Cons.IH [OF c(1) this r(1)]
  have i: "heap_ok h'" "extends h1 h'" "list_all2 (\<lambda>d v. view h' d = Some v) es us" "map gd_Spec es = map gd_Spec ds"
    by blast+
  from extends_trans [OF c(2) i(2)] i vs(1) r(2) c(4) view_extends [OF c(1) i(2) c(3)]
  show ?case by simp
qed simp

section \<open>Properties\<close>

text \<open>A deep copy of the custom resource reads as the same value, lives in cells of its own with
  metadata of its own, and leaves the original as it was; the pointers of the specification,
  however, are those of the original.\<close>

theorem DeepCopy_view:
  assumes "copies_meta mc" "heap_ok h" "load as_Deployment h a = Some d" "view h d = Some v"
  shows "\<exists>b d' h'. DeepCopy mc (Some a) h = Some (Some b, h') \<and> b \<noteq> a
    \<and> load as_Deployment h' a = Some d \<and> view h' d = Some v
    \<and> load as_Deployment h' b = Some d' \<and> view h' d' = Some v
    \<and> refs_meta (gd_Meta d') \<inter> (refs_meta (gd_Meta d) \<union> refs_spec (gd_Spec d)) = {}
    \<and> refs_spec (gd_Spec d') = refs_spec (gd_Spec d)"
proof -
  obtain b d' h' where c: "DeepCopy mc (Some a) h = Some (Some b, h')" "heap_ok h'" "extends h h'"
    "h_next h \<le> b" "load as_Deployment h' b = Some d'" "view h' d' = Some v"
    "gd_Spec d' = gd_Spec d" "\<forall>x \<in> refs_meta (gd_Meta d'). h_next h \<le> x \<and> x \<noteq> b" "b < h_next h'"
    by (rule DeepCopy_cases [OF assms])
  from assms(4) have v: "view_meta h (gd_Meta d) = Some (dep_Meta v)" "view_spec h (gd_Spec d) = Some (dep_Spec v)"
    by (simp_all add: view_parts)
  have "\<forall>x \<in> refs_meta (gd_Meta d) \<union> refs_spec (gd_Spec d). x < h_next h"
    using refs_bounds(1) [OF assms(2) v(1)] refs_bounds(2) [OF assms(2) v(2)] by blast
  with c(8) have "refs_meta (gd_Meta d') \<inter> (refs_meta (gd_Meta d) \<union> refs_spec (gd_Spec d)) = {}"
    by (meson disjoint_iff leD)
  moreover have "b \<noteq> a" using c(4) load_bound [OF assms(2,3)] by simp
  ultimately show ?thesis
    using load_extends [OF assms(2) c(3) assms(3)] view_extends [OF assms(2) c(3) assms(4)] c(1,5,6)
    by (intro exI [of _ b] exI [of _ d'] exI [of _ h'] conjI) (simp_all add: c(7))
qed

text \<open>C38. The copy is not deep: a write through the copy's pointer to the scheduler settings changes
  what the original reads as (and so what the cache of the client holds), just as it changes
  the copy.\<close>

theorem shallow_copy_shares_spec:
  assumes "copies_meta mc" "heap_ok h" "load as_Deployment h a = Some d" "view h d = Some v"
    and "gs_Scheduler (gd_Spec d) = Some x"
  shows "\<exists>b d' h'. DeepCopy mc (Some a) h = Some (Some b, h') \<and> load as_Deployment h' b = Some d'
    \<and> gs_Scheduler (gd_Spec d') = Some x
    \<and> view (poke x (C_Scheduler sch) h') d = Some (v\<lparr>dep_Spec := (dep_Spec v)\<lparr>sp_Scheduler := Some sch\<rparr>\<rparr>)
    \<and> view (poke x (C_Scheduler sch) h') d' = Some (v\<lparr>dep_Spec := (dep_Spec v)\<lparr>sp_Scheduler := Some sch\<rparr>\<rparr>)"
proof -
  obtain b d' h' where c: "DeepCopy mc (Some a) h = Some (Some b, h')" "heap_ok h'" "extends h h'"
    "h_next h \<le> b" "load as_Deployment h' b = Some d'" "view h' d' = Some v"
    "gd_Spec d' = gd_Spec d" "\<forall>x \<in> refs_meta (gd_Meta d'). h_next h \<le> x \<and> x \<noteq> b" "b < h_next h'"
    by (rule DeepCopy_cases [OF assms(1-4)])
  from view_extends [OF assms(2) c(3) assms(4)] have v: "view h' d = Some v" .
  with assms(5) obtain old where old: "load as_Scheduler h' x = Some old"
    by (auto simp: view_parts view_spec_iff deref_def bind_eq_Some_conv)
  from view_poke_Scheduler [OF v assms(5) old] view_poke_Scheduler [OF c(6) _ old] c assms(5)
  show ?thesis by auto
qed

text \<open>C37. Adding the finalizer to a copy, in place or into a new array, leaves the original as it
  was; the copy then reads as the original with the finalizer at the end. The two share no
  metadata: whatever is written later to the copy itself, or to anything its metadata refers
  to, the array of finalizers among them, the original keeps reading as it did.\<close>

theorem finalizer_append_isolated:
  assumes "copies_meta mc" "heap_ok h" "load as_Deployment h a = Some d" "view h d = Some v"
  shows "\<exists>b d' h1 h2. DeepCopy mc (Some a) h = Some (Some b, h1) \<and> append_finalizer b h1 = Some h2
    \<and> load as_Deployment h2 a = Some d \<and> view h2 d = Some v
    \<and> load as_Deployment h2 b = Some d'
    \<and> view h2 d' = Some (with_finalizers v (dep_Finalizers v @ [csiFinalizer]))
    \<and> (\<forall>x \<in> insert b (refs_meta (gd_Meta d')). \<forall>c. view (poke x c h2) d = Some v)"
proof -
  obtain b d1 h1 where c: "DeepCopy mc (Some a) h = Some (Some b, h1)" "heap_ok h1" "extends h h1"
    "h_next h \<le> b" "load as_Deployment h1 b = Some d1" "view h1 d1 = Some v"
    "gd_Spec d1 = gd_Spec d" "\<forall>x \<in> refs_meta (gd_Meta d1). h_next h \<le> x \<and> x \<noteq> b" "b < h_next h1"
    by (rule DeepCopy_cases [OF assms])
  from assms(4) have "view_spec h (gd_Spec d) = Some (dep_Spec v)" by (simp add: view_parts)
  then have "b \<notin> refs_spec (gd_Spec d1)" using refs_bounds(2) [OF assms(2)] c(4,7) by fastforce
  moreover have "b \<notin> refs_meta (gd_Meta d1)" using c(8) by blast
  ultimately obtain d2 h2 where f: "append_finalizer b h1 = Some h2" "load as_Deployment h2 b = Some d2"
    "view h2 d2 = Some (with_finalizers v (dep_Finalizers v @ [csiFinalizer]))"
    and keep: "\<forall>x. x < h_next h1 \<longrightarrow> x \<noteq> b \<longrightarrow> x \<notin> refs_meta (gd_Meta d1) \<longrightarrow> h_cell h2 x = h_cell h1 x"
    and refs: "refs_meta (gd_Meta d2) \<subseteq> insert (h_next h1) (refs_meta (gd_Meta d1))"
    using append_finalizer_spec [OF c(2,5,6)] by metis
  have old: "h_cell h2 x = h_cell h x" if "x < h_next h" for x
  proof -
    have "x < h_next h1" "h_cell h1 x = h_cell h x" using that c(3) by (auto simp: extends_def)
    moreover have "x \<noteq> b" "x \<notin> refs_meta (gd_Meta d1)" using that c(4,8) by auto
    ultimately show ?thesis using keep by simp
  qed
  have "view h2 d = Some v" by (rule view_kept [OF assms(2,4)]) (simp add: old)
  moreover have "load as_Deployment h2 a = Some d"
    using assms(3) old [OF load_bound [OF assms(2,3)]] by (simp add: load_def)
  moreover have "view (poke x c h2) d = Some v" if "x \<in> insert b (refs_meta (gd_Meta d2))" for x c
  proof (rule view_kept [OF assms(2,4)])
    have "h_next h \<le> x" using that refs c(3,4,8) by (auto simp: extends_def)
    then show "\<forall>y < h_next h. h_cell (poke x c h2) y = h_cell h y" by (auto simp: poke_def old)
  qed
  ultimately show ?thesis using c(1) f by blast
qed

section \<open>Witnesses\<close>

text \<open>A copier of metadata that allocates whatever the metadata refers to.\<close>

definition copy_ptr :: "(cell \<Rightarrow> 'a option) \<Rightarrow> ('a \<Rightarrow> cell) \<Rightarrow> addr option \<Rightarrow> heap \<Rightarrow> addr option \<times> heap" where
  "copy_ptr sel mk p h =
     (case deref sel h p of
        Some (Some x) \<Rightarrow> (let (b, h) = alloc (mk x) h in (Some b, h))
      | _ \<Rightarrow> (None, h))"

definition copy_slice :: "(cell \<Rightarrow> 'a list option) \<Rightarrow> ('a list \<Rightarrow> cell) \<Rightarrow> slice option \<Rightarrow> heap \<Rightarrow> slice option \<times> heap" where
  "copy_slice sel mk p h =
     (case elements sel h p of
        None \<Rightarrow> (None, h)
      | Some xs \<Rightarrow> (let (b, h) = alloc (mk xs) h in (Some \<lparr>sl_Array = b, sl_Len = length xs\<rparr>, h)))"

definition copy_meta :: meta_copier where
  "copy_meta m h =
     (let (ls, h) = copy_ptr as_Labels C_Labels (gm_Labels m) h;
          (fs, h) = copy_slice as_Strings C_Strings (gm_Finalizers m) h;
          (dt, h) = copy_ptr as_Time C_Time (gm_DeletionTimestamp m) h;
          (os, h) = copy_slice as_Owners C_Owners (gm_OwnerReferences m) h
      in (m\<lparr>gm_Labels := ls, gm_Finalizers := fs, gm_DeletionTimestamp := dt, gm_OwnerReferences := os\<rparr>, h))"

lemma copy_ptr_spec:
  assumes "copy_ptr sel mk p h = (q, h')" "heap_ok h" "deref sel h p = Some y" "\<And>x. sel (mk x) = Some x"
  shows "heap_ok h' \<and> extends h h' \<and> deref sel h' q = Some y \<and> (\<forall>a \<in> set_option q. h_next h \<le> a)"
proof (cases y)
  case None
  with assms show ?thesis by (simp add: copy_ptr_def deref_def)
next
  case (Some x)
  with assms(1,3) have al: "alloc (mk x) h = (h_next h, h')" and q: "q = Some (h_next h)"
    by (auto simp: copy_ptr_def alloc_def)
  note s = alloc_simps(1) [OF al assms(2)] alloc_simps(2,5) [OF al]
  show ?thesis using s(1,2) by (simp add: deref_def q Some s(3) assms(4))
qed

lemma copy_slice_spec:
  assumes "copy_slice sel mk p h = (q, h')" "heap_ok h" "elements sel h p = Some xs" "\<And>x. sel (mk x) = Some x"
  shows "heap_ok h' \<and> extends h h' \<and> elements sel h' q = Some xs \<and> (\<forall>a \<in> sl_Array ` set_option q. h_next h \<le> a)"
proof -
  from assms(1,3) have al: "alloc (mk xs) h = (h_next h, h')"
    and q: "q = Some \<lparr>sl_Array = h_next h, sl_Len = length xs\<rparr>"
    by (auto simp: copy_slice_def alloc_def)
  note s = alloc_simps(1) [OF al assms(2)] alloc_simps(2,5) [OF al]
  show ?thesis using s(1,2) by (simp add: elements_def q s(3) assms(4))
qed

lemma reads_extends:
  assumes "heap_ok h" "extends h h'"
  shows "deref sel h p = Some y \<Longrightarrow> deref sel h' p = Some y"
    "elements sel' h q = Some ys \<Longrightarrow> elements sel' h' q = Some ys"
  by (erule reads_mono [rotated], erule load_extends [OF assms])+

lemma copies_meta_copy_meta: "copies_meta copy_meta"
  unfolding copies_meta_def
proof (intro allI impI)
  fix m h0 v m' h4
  assume a: "heap_ok h0 \<and> view_meta h0 m = Some v \<and> copy_meta m h0 = (m', h4)"
  then have v: "deref as_Labels h0 (gm_Labels m) = Some (m_Labels v)"
    "elements as_Strings h0 (gm_Finalizers m) = Some (m_Finalizers v)"
    "deref as_Time h0 (gm_DeletionTimestamp m) = Some (m_DeletionTimestamp v)"
    "elements as_Owners h0 (gm_OwnerReferences m) = Some (m_OwnerReferences v)" by (simp_all add: view_meta_iff)
  from a obtain ls h1 fs h2 dt h3 os where
    1: "copy_ptr as_Labels C_Labels (gm_Labels m) h0 = (ls, h1)" and
    2: "copy_slice as_Strings C_Strings (gm_Finalizers m) h1 = (fs, h2)" and
    3: "copy_ptr as_Time C_Time (gm_DeletionTimestamp m) h2 = (dt, h3)" and
    4: "copy_slice as_Owners C_Owners (gm_OwnerReferences m) h3 = (os, h4)" and
    m': "m' = m\<lparr>gm_Labels := ls, gm_Finalizers := fs, gm_DeletionTimestamp := dt, gm_OwnerReferences := os\<rparr>"
    by (auto simp: copy_meta_def Let_def split: prod.splits)
  from a have ok: "heap_ok h0" by blast
  have l1: "heap_ok h1" "extends h0 h1" "deref as_Labels h1 ls = Some (m_Labels v)" "\<forall>a \<in> set_option ls. h_next h0 \<le> a"
    using copy_ptr_spec [OF 1 ok v(1)] by simp_all
  have l2: "heap_ok h2" "extends h1 h2" "elements as_Strings h2 fs = Some (m_Finalizers v)"
    "\<forall>a \<in> sl_Array ` set_option fs. h_next h1 \<le> a"
    using copy_slice_spec [OF 2 l1(1) reads_extends(2) [OF ok l1(2) v(2)]] by simp_all
  have e2: "extends h0 h2" using l1(2) l2(2) by (rule extends_trans)
  have l3: "heap_ok h3" "extends h2 h3" "deref as_Time h3 dt = Some (m_DeletionTimestamp v)"
    "\<forall>a \<in> set_option dt. h_next h2 \<le> a"
    using copy_ptr_spec [OF 3 l2(1) reads_extends(1) [OF ok e2 v(3)]] by simp_all
  have e3: "extends h0 h3" using e2 l3(2) by (rule extends_trans)
  have l4: "heap_ok h4" "extends h3 h4" "elements as_Owners h4 os = Some (m_OwnerReferences v)"
    "\<forall>a \<in> sl_Array ` set_option os. h_next h3 \<le> a"
    using copy_slice_spec [OF 4 l3(1) reads_extends(2) [OF ok e3 v(4)]] by simp_all
  have e4: "extends h0 h4" using e3 l4(2) by (rule extends_trans)
  have e24: "extends h2 h4" using l3(2) l4(2) by (rule extends_trans)
  have e14: "extends h1 h4" using l2(2) e24 by (rule extends_trans)
  have "view_meta h4 m' = Some v"
    using a reads_extends(1) [OF l1(1) e14 l1(3)] reads_extends(2) [OF l2(1) e24 l2(3)]
      reads_extends(1) [OF l3(1) l4(2) l3(3)] l4(3)
    by (simp add: m' view_meta_iff)
  moreover have "\<forall>a \<in> refs_meta m'. h_next h0 \<le> a"
    using l1(2,4) l2(4) e2 l3(4) e3 l4(4) by (fastforce simp: m' refs_meta_def extends_def)
  ultimately show "heap_ok h4 \<and> extends h0 h4 \<and> view_meta h4 m' = Some v \<and> (\<forall>a \<in> refs_meta m'. h_next h0 \<le> a)"
    using l4(1) e4 by blast
qed

text \<open>A custom resource whose array of finalizers has room for one more.\<close>

definition example_go :: GoDeployment where
  "example_go = zero_deployment\<lparr>
     gd_Meta := (gd_Meta zero_deployment)\<lparr>gm_Name := ''csi'', gm_Namespace := ''ns'',
       gm_Finalizers := Some \<lparr>sl_Array = 2, sl_Len = 1\<rparr>\<rparr>,
     gd_Spec := (gd_Spec zero_deployment)\<lparr>gs_Scheduler := Some 1, gs_Platform := PlatformVanilla\<rparr>\<rparr>"

definition example_heap :: heap where
  "example_heap = \<lparr>h_next = 3, h_cell =
     [0 \<mapsto> C_Deployment example_go, 1 \<mapsto> C_Scheduler example_scheduler,
      2 \<mapsto> C_Strings [''foregroundDeletion'', [] ]]\<rparr>"

definition example_value :: Deployment where
  "example_value = \<lparr>
     dep_Meta = (object_meta ''ns'' ''csi'' None)\<lparr>m_Finalizers := [''foregroundDeletion'']\<rparr>,
     dep_Spec = \<lparr>sp_Driver = None, sp_NodeController = None, sp_Scheduler = Some example_scheduler,
       sp_GlobalRegistry = [], sp_RegistrySecret = [], sp_PullPolicy = [], sp_NodeSelector = None,
       sp_NodeIDAnnotation = False, sp_SequentialLVGReservation = False, sp_Platform = PlatformVanilla\<rparr>\<rparr>"

lemma example_heap_facts:
  "heap_ok example_heap" "load as_Deployment example_heap 0 = Some example_go"
  "view example_heap example_go = Some example_value" "gs_Scheduler (gd_Spec example_go) = Some 1"
proof -
  show "heap_ok example_heap" by (simp add: heap_ok_def example_heap_def)
  show "load as_Deployment example_heap 0 = Some example_go" by (simp add: load_def example_heap_def)
  show "view example_heap example_go = Some example_value"
    by (simp add: view_parts view_meta_iff view_spec_iff example_go_def zero_deployment_def example_value_def
        object_meta_def deref_def elements_def load_def example_heap_def)
qed (simp add: example_go_def)

theorem DeepCopy_view_witness:
  "\<exists>b d' h'. DeepCopy copy_meta (Some 0) example_heap = Some (Some b, h') \<and> b \<noteq> 0
    \<and> load as_Deployment h' b = Some d' \<and> view h' d' = Some example_value \<and> 1 \<in> refs_spec (gd_Spec d')"
proof -
  from DeepCopy_view [OF copies_meta_copy_meta example_heap_facts(1-3)] obtain b d' h' where
    c: "DeepCopy copy_meta (Some 0) example_heap = Some (Some b, h')" "b \<noteq> 0"
      "load as_Deployment h' b = Some d'" "view h' d' = Some example_value"
      "refs_spec (gd_Spec d') = refs_spec (gd_Spec example_go)" by blast
  have "1 \<in> refs_spec (gd_Spec d')" unfolding c(5) by (simp add: refs_spec_def example_heap_facts(4))
  with c(1-4) show ?thesis by blast
qed

theorem shallow_copy_shares_spec_witness:
  "\<exists>b h'. DeepCopy copy_meta (Some 0) example_heap = Some (Some b, h')
    \<and> view (poke 1 (C_Scheduler (example_scheduler\<lparr>sch_Enable := False\<rparr>)) h') example_go =
      Some (example_value\<lparr>dep_Spec := (dep_Spec example_value)\<lparr>
        sp_Scheduler := Some (example_scheduler\<lparr>sch_Enable := False\<rparr>)\<rparr>\<rparr>)"
  using shallow_copy_shares_spec [OF copies_meta_copy_meta example_heap_facts,
      of "example_scheduler\<lparr>sch_Enable := False\<rparr>"] by blast

theorem finalizer_append_isolated_witness:
  "\<exists>b d' h1 h2. DeepCopy copy_meta (Some 0) example_heap = Some (Some b, h1) \<and> append_finalizer b h1 = Some h2
    \<and> view h2 example_go = Some example_value \<and> view h2 d' =
      Some (with_finalizers example_value [''foregroundDeletion'', csiFinalizer])
    \<and> view (poke b (C_Deployment zero_deployment) h2) example_go = Some example_value"
proof -
  have f: "dep_Finalizers example_value @ [csiFinalizer] = [''foregroundDeletion'', csiFinalizer]"
    by (simp add: example_value_def)
  show ?thesis
    using finalizer_append_isolated [OF copies_meta_copy_meta example_heap_facts(1-3)] unfolding f by blast
qed

end
