(* ===== verification/NodeCoverage.thy ===== *)
theory NodeCoverage
  imports Convergence
begin

text \<open>
  What labelling and deploying achieve together: after a successful \<open>Update\<close> of the node
  component every selected node of the cluster carries the label of the platform its kernel
  needs, the daemonset of that platform is in the cluster and up to date, and of all node
  daemonsets its node selector, and no other, picks that node.
\<close>

section \<open>Lists of nodes\<close>

text \<open>The requirements of a label selector, and an API that answers a list request over all
  namespaces with exactly the stored objects that meet them.\<close>

definition labels_match :: "(string \<times> string option) list \<Rightarrow> gomap \<Rightarrow> bool" where
  "labels_match reqs m \<longleftrightarrow>
     (\<forall>(key, v) \<in> set reqs. case v of None \<Rightarrow> map_get m key \<noteq> None | Some x \<Rightarrow> map_get m key = Some x)"

definition lists_all ::
  "('o, 'w) kclient \<Rightarrow> ('o \<Rightarrow> ObjectMeta) \<Rightarrow> ('w \<Rightarrow> string \<Rightarrow> string \<Rightarrow> 'o option) \<Rightarrow> bool" where
  "lists_all c meta look \<longleftrightarrow>
     (\<forall>w ns n x. look w ns n = Some x \<longrightarrow> m_Namespace (meta x) = ns \<and> m_Name (meta x) = n) \<and>
     (\<forall>opts w xs w'. kc_list c opts w = (Inr xs, w') \<longrightarrow> lo_Namespace opts = [] \<longrightarrow> lo_NodeName opts = None \<longrightarrow>
        look w' = look w \<and> distinct (map (\<lambda>x. (m_Namespace (meta x), m_Name (meta x))) xs) \<and>
        set xs = {x. look w (m_Namespace (meta x)) (m_Name (meta x)) = Some x
          \<and> labels_match (lo_Labels opts) (m_Labels (meta x))})"

abbreviation node_key :: "CoreNode \<Rightarrow> string \<times> string" where
  "node_key n \<equiv> (m_Namespace (n_Meta n), m_Name (n_Meta n))"

text \<open>What a stored node keeps of an update: the labels, and the kernel version, which only the
  node itself reports.\<close>

definition node_changed :: "CoreNode \<Rightarrow> CoreNode \<Rightarrow> bool" where
  "node_changed x z \<longleftrightarrow> n_Labels z \<noteq> n_Labels x \<or> n_KernelVersion z \<noteq> n_KernelVersion x"

definition selected :: "Deployment \<Rightarrow> CoreNode \<Rightarrow> bool" where
  "selected csi n \<longleftrightarrow>
     (case sp_NodeSelector (dep_Spec csi) of
        None \<Rightarrow> True
      | Some sel \<Rightarrow> map_get (n_Labels n) (ns_Key sel) = Some (ns_Value sel))"

lemma GetSelectedNodes_lists:
  assumes "lists_all (k_Nodes k) n_Meta look"
    and "GetSelectedNodes k (sp_NodeSelector (dep_Spec csi)) s = Some (Inr nodes, t)"
  shows "look (world t) = look (world s)" "distinct (map node_key nodes)"
    "n \<in> set nodes \<longleftrightarrow> look (world s) (m_Namespace (n_Meta n)) (m_Name (n_Meta n)) = Some n \<and> selected csi n"
proof -
  obtain opts where g: "klist (k_Nodes k) opts s = Some (Inr nodes, t)"
    and o: "lo_Namespace opts = []" "lo_NodeName opts = None"
    and m: "labels_match (lo_Labels opts) (n_Labels n) \<longleftrightarrow> selected csi n" for n
    using assms(2) unfolding GetSelectedNodes_def Let_def
    by (cases "sp_NodeSelector (dep_Spec csi)")
      (auto simp: list_all_objects_def labels_match_def selected_def)
  from g have "kc_list (k_Nodes k) opts (world s) = (Inr nodes, world t)"
    by (auto simp: klist_def in_world_def api_res_def split: prod.splits sum.splits)
  with assms(1) o have l: "look (world t) = look (world s)" "distinct (map node_key nodes)"
    "set nodes = {x. look (world s) (m_Namespace (n_Meta x)) (m_Name (n_Meta x)) = Some x
      \<and> labels_match (lo_Labels opts) (n_Labels x)}"
    unfolding lists_all_def by blast+
  then show "look (world t) = look (world s)" "distinct (map node_key nodes)" by blast+
  from l(3) m show "n \<in> set nodes \<longleftrightarrow>
      look (world s) (m_Namespace (n_Meta n)) (m_Name (n_Meta n)) = Some n \<and> selected csi n"
    by simp
qed

section \<open>The label loop on a store\<close>

text \<open>\<open>labelled_for sv ps n z\<close>: \<open>z\<close> is \<open>n\<close> with the label of its platform.\<close>

definition labelled_for ::
  "'v semver \<Rightarrow> (string \<times> 'v PlatformDescription) list \<Rightarrow> CoreNode \<Rightarrow> CoreNode \<Rightarrow> bool" where
  "labelled_for sv ps n z \<longleftrightarrow>
     (\<exists>p. platform_of sv ps n = Some p \<and> platform_of sv ps z = Some p \<and>
        (\<forall>key. map_get (n_Labels z) key = (if key = platformLabel then Some p else map_get (n_Labels n) key)))"

lemma node_labels_loop_error:
  "node_labels_loop k sv ps nodes need (Some e) s = Some (need', err, t) \<Longrightarrow> err \<noteq> None"
proof (induction nodes arbitrary: need e s)
  case (Cons n nodes)
  from Cons.prems show ?case
    by (auto simp: Let_def split: sum.splits Option.bind_splits if_splits option.splits dest: Cons.IH)
qed auto

lemma platform_of_same: "n_KernelVersion z = n_KernelVersion n \<Longrightarrow> platform_of sv ps z = platform_of sv ps n"
  by (simp add: platform_of_def GetNodeKernelVersion_def)

lemma node_labels_loop_store:
  assumes order: "map_order (platforms sv) ps"
    and store: "truthful (k_Nodes k) n_Meta look node_changed" and iso: "isolated (k_Nodes k) n_Meta look"
  shows "node_labels_loop k sv ps nodes need None s = Some (need', None, t) \<Longrightarrow>
    distinct (map node_key nodes) \<Longrightarrow>
    \<forall>n \<in> set nodes. look (world s) (m_Namespace (n_Meta n)) (m_Name (n_Meta n)) = Some n \<Longrightarrow>
    (\<forall>n \<in> set nodes. \<exists>z. look (world t) (m_Namespace (n_Meta n)) (m_Name (n_Meta n)) = Some z
        \<and> labelled_for sv ps n z \<and> (\<forall>p. platform_of sv ps n = Some p \<longrightarrow> fmlookup need' p = Some True))
    \<and> (\<forall>ns n. (ns, n) \<notin> node_key ` set nodes \<longrightarrow> look (world t) ns n = look (world s) ns n)
    \<and> (\<forall>p. fmlookup need p = Some True \<longrightarrow> fmlookup need' p = Some True)"
proof (induction nodes arbitrary: need s)
  case (Cons n nodes)
  obtain v where v: "GetNodeKernelVersion sv n = Inr v"
    using Cons.prems(1) by (auto split: sum.splits dest: node_labels_loop_error)
  let ?p = "findPlatform ps v"
  from platform_tag [OF order, of v] obtain pd where
    pd: "map_of (platforms sv) ?p = Some pd" "pd_labeltag pd = ?p" by blast
  have p: "platform_of sv ps n = Some ?p" using v by (simp add: platform_of_def)
  have "\<exists>s1. node_labels_loop k sv ps nodes (fmupd ?p True need) None s1 = Some (need', None, t)
      \<and> (\<exists>z. look (world s1) (m_Namespace (n_Meta n)) (m_Name (n_Meta n)) = Some z \<and> labelled_for sv ps n z)
      \<and> (\<forall>ns m. (ns, m) \<noteq> node_key n \<longrightarrow> look (world s1) ns m = look (world s) ns m)"
  proof (cases "map_get (n_Labels n) platformLabel = Some ?p")
    case True
    have "node_labels_loop k sv ps nodes (fmupd ?p True need) None s = Some (need', None, t)"
      using Cons.prems(1) v pd True by (simp add: Let_def)
    moreover have "labelled_for sv ps n n" using p True by (simp add: labelled_for_def)
    ultimately show ?thesis using Cons.prems(3) by auto
  next
    case False
    from Cons.prems(1) v pd False obtain ls u s1 where
      ls: "map_set (n_Labels n) platformLabel ?p = Some ls" and
      u: "kupdate (k_Nodes k) O_CoreNode (with_labels n ls) s = Some (u, s1)" and
      r: "node_labels_loop k sv ps nodes (fmupd ?p True need) (err_of u) s1 = Some (need', None, t)"
      by (auto simp: Let_def split: Option.bind_splits option.splits)
    have ok: "err_of u = None" using r by (cases "err_of u") (auto dest: node_labels_loop_error)
    have key: "m_Namespace (n_Meta (with_labels n ls)) = m_Namespace (n_Meta n)"
      "m_Name (n_Meta (with_labels n ls)) = m_Name (n_Meta n)"
      by (simp_all add: with_labels_def)
    from truthful_stored [OF store _ ok] u key obtain z where
      z: "look (world s1) (m_Namespace (n_Meta n)) (m_Name (n_Meta n)) = Some z" "\<not> node_changed (with_labels n ls) z"
      by metis
    then have l: "n_Labels z = ls" "n_KernelVersion z = n_KernelVersion n"
      by (simp_all add: node_changed_def with_labels_def)
    have "labelled_for sv ps n z"
      using p map_get_set [OF ls] platform_of_same [OF l(2), of sv ps] by (simp add: labelled_for_def l(1))
    moreover have "(ns, m) \<noteq> node_key n \<Longrightarrow> look (world s1) ns m = look (world s) ns m" for ns m
      using isolated_calls(2) [OF iso u, unfolded key, of ns m] by auto
    moreover note r [unfolded ok] z(1)
    ultimately show ?thesis by (intro exI [of _ s1] conjI exI [of _ z] allI impI)
  qed
  then obtain s1 z where r: "node_labels_loop k sv ps nodes (fmupd ?p True need) None s1 = Some (need', None, t)"
    and z: "look (world s1) (m_Namespace (n_Meta n)) (m_Name (n_Meta n)) = Some z" "labelled_for sv ps n z"
    and o: "(ns, m) \<noteq> node_key n \<Longrightarrow> look (world s1) ns m = look (world s) ns m" for ns m
    by blast
  have "\<forall>m \<in> set nodes. look (world s1) (m_Namespace (n_Meta m)) (m_Name (n_Meta m)) = Some m"
    using Cons.prems(2,3) o by (force simp: image_iff)
  from Cons.IH [OF r _ this] Cons.prems(2) have IH:
    "\<forall>m \<in> set nodes. \<exists>z. look (world t) (m_Namespace (n_Meta m)) (m_Name (n_Meta m)) = Some z
        \<and> labelled_for sv ps m z \<and> (\<forall>p. platform_of sv ps m = Some p \<longrightarrow> fmlookup need' p = Some True)"
    "\<forall>ns m. (ns, m) \<notin> node_key ` set nodes \<longrightarrow> look (world t) ns m = look (world s1) ns m"
    "\<forall>p. fmlookup (fmupd ?p True need) p = Some True \<longrightarrow> fmlookup need' p = Some True"
    by simp_all
  have "node_key n \<notin> node_key ` set nodes" using Cons.prems(2) by auto
  with IH(2) z(1) have "look (world t) (m_Namespace (n_Meta n)) (m_Name (n_Meta n)) = Some z" by auto
  moreover have "fmlookup need' ?p = Some True" using IH(3) by simp
  ultimately show ?case using IH z(2) o p by auto
qed simp

section \<open>The daemonsets\<close>

definition expected_node_daemonset ::
  "'w cluster \<Rightarrow> Deployment \<Rightarrow> 'v semver \<Rightarrow> string \<Rightarrow> DaemonSet option" where
  "expected_node_daemonset k csi sv p = do {
     platform \<leftarrow> map_of (platforms sv) p;
     d \<leftarrow> createNodeDaemonSet csi platform;
     case set_owner k csi (ds_Meta d) of Inl _ \<Rightarrow> None | Inr m \<Rightarrow> Some (d\<lparr>ds_Meta := m\<rparr>)
   }"

definition daemonset_current ::
  "'w cluster \<Rightarrow> (string \<Rightarrow> string \<Rightarrow> DaemonSet option) \<Rightarrow> DaemonSet \<Rightarrow> bool" where
  "daemonset_current k l x \<longleftrightarrow>
     (\<exists>z. l (m_Namespace (ds_Meta x)) (m_Name (ds_Meta x)) = Some z \<and> \<not> daemonsetChanged k x z)"

text \<open>Setting the owner of an object of the same namespace that has none succeeds and leaves its
  key alone; what \<open>SetControllerReference\<close> refuses are other owners and other namespaces.\<close>

definition takes_ownership :: "'w cluster \<Rightarrow> Deployment \<Rightarrow> bool" where
  "takes_ownership k csi \<longleftrightarrow>
     (\<forall>m. m_OwnerReferences m = [] \<longrightarrow> m_Namespace m = dep_Namespace csi \<longrightarrow>
        (\<exists>m'. set_owner k csi m = Inr m')) \<and> owner_keeps_key k csi"

lemma platform_names:
  assumes "map_of (platforms sv) p = Some pd"
  shows "p \<in> {''default'', ''kernel-5.4''}" "pd_labeltag pd = p"
    "DaemonsetName pd b = (if p = ''default'' then b else b @ ''-'' @ p)"
proof -
  from assms have "(p, pd) \<in> set (platforms sv)" by (rule map_of_SomeD)
  then consider "p = ''default''" "pd_tag pd = []" "pd_labeltag pd = ''default''"
    | "p = ''kernel-5.4''" "pd_tag pd = ''kernel-5.4''" "pd_labeltag pd = ''kernel-5.4''"
    by (auto simp: platforms_def defaultPlatform_def)
  then show "p \<in> {''default'', ''kernel-5.4''}" "pd_labeltag pd = p"
    "DaemonsetName pd b = (if p = ''default'' then b else b @ ''-'' @ p)"
    by (cases; simp add: DaemonsetName_def createNameWithTag_def)+
qed

lemma expected_node_daemonset_key:
  assumes "takes_ownership k csi" and "expected_node_daemonset k csi sv p = Some d"
  shows "m_Namespace (ds_Meta d) = dep_Namespace csi
    \<and> m_Name (ds_Meta d) = (if p = ''default'' then nodeName else nodeName @ ''-'' @ p)
    \<and> p \<in> {''default'', ''kernel-5.4''}"
proof -
  from assms(2) obtain pd d0 m where d: "map_of (platforms sv) p = Some pd" "createNodeDaemonSet csi pd = Some d0"
      "set_owner k csi (ds_Meta d0) = Inr m" "d = d0\<lparr>ds_Meta := m\<rparr>"
    by (auto simp: expected_node_daemonset_def split: Option.bind_splits sum.splits)
  have "ds_Meta d0 = object_meta (dep_Namespace csi) (DaemonsetName pd nodeName) app_labels"
    using d(2) by (rule createNodeDaemonSet_cases)
  moreover have "m_Namespace m = m_Namespace (ds_Meta d0)" "m_Name m = m_Name (ds_Meta d0)"
    using assms(1) d(3) unfolding takes_ownership_def owner_keeps_key_def by blast+
  ultimately show ?thesis using d(4) platform_names [OF d(1)] by (simp add: object_meta_def)
qed

lemma expected_node_daemonset_inj:
  assumes "takes_ownership k csi" "expected_node_daemonset k csi sv p = Some d"
    "expected_node_daemonset k csi sv q = Some e" "m_Name (ds_Meta d) = m_Name (ds_Meta e)"
  shows "p = q"
proof -
  let ?f = "\<lambda>p. if p = ''default'' then nodeName else nodeName @ ''-'' @ p"
  have "p \<in> {''default'', ''kernel-5.4''}" "q \<in> {''default'', ''kernel-5.4''}"
    using expected_node_daemonset_key [OF assms(1,2)] expected_node_daemonset_key [OF assms(1,3)] by blast+
  moreover have "?f p = ?f q"
    using expected_node_daemonset_key [OF assms(1,2)] expected_node_daemonset_key [OF assms(1,3)] assms(4)
    by metis
  ultimately show ?thesis by auto
qed

lemma deploy_loop_error:
  "deploy_loop k sv csi need order (Some e) s = Some (err, t) \<Longrightarrow> err \<noteq> None"
proof (induction order arbitrary: e s)
  case (Cons p order)
  from Cons.prems show ?case
    by (auto simp: Let_def split: sum.splits Option.bind_splits if_splits option.splits dest: Cons.IH)
qed auto

text \<open>When the owner of a daemonset cannot be set, the daemonset is not written and the loop still
  reports success.\<close>

lemma owner_error_lost:
  assumes "map_of (platforms sv) p = Some pd" "createNodeDaemonSet csi pd = Some d"
    and "set_owner k csi (ds_Meta d) = Inl e"
  shows "deploy_loop k sv csi need [p] None s = Some (None, s)"
  using assms by simp

lemma deploy_loop_store:
  assumes own: "takes_ownership k csi"
    and store: "truthful (k_DaemonSets k) ds_Meta look (daemonsetChanged k)"
    and iso: "isolated (k_DaemonSets k) ds_Meta look"
  shows "deploy_loop k sv csi need order None s = Some (None, t) \<Longrightarrow>
    (\<forall>p \<in> set order. fmlookup need p = Some True \<longrightarrow>
       (\<exists>d. expected_node_daemonset k csi sv p = Some d \<and> daemonset_current k (look (world t)) d))
    \<and> (\<forall>ns n. (\<forall>p \<in> set order. \<forall>d. expected_node_daemonset k csi sv p = Some d \<longrightarrow> m_Name (ds_Meta d) \<noteq> n) \<longrightarrow>
       look (world t) ns n = look (world s) ns n)"
proof (induction order arbitrary: s)
  case (Cons p order)
  show ?case
  proof (cases "fmlookup need p = Some True")
    case False
    with Cons.prems have "deploy_loop k sv csi need order None s = Some (None, t)" by simp
    from Cons.IH [OF this] False show ?thesis by auto
  next
    case True
    with Cons.prems obtain pd d0 where pd: "map_of (platforms sv) p = Some pd" and
      d0: "createNodeDaemonSet csi pd = Some d0"
      by (auto split: Option.bind_splits)
    have "m_OwnerReferences (ds_Meta d0) = []" "m_Namespace (ds_Meta d0) = dep_Namespace csi"
      using d0 by (rule createNodeDaemonSet_cases; simp add: object_meta_def)+
    with own obtain m where m: "set_owner k csi (ds_Meta d0) = Inr m"
      unfolding takes_ownership_def by blast
    let ?d = "d0\<lparr>ds_Meta := m\<rparr>"
    have e: "expected_node_daemonset k csi sv p = Some ?d" using pd d0 m by (simp add: expected_node_daemonset_def)
    from Cons.prems True pd d0 m obtain err s1 where u: "UpdateDaemonSet k ?d s = Some (err, s1)"
      and r: "deploy_loop k sv csi need order err s1 = Some (None, t)"
      by (auto simp: Let_def split: Option.bind_splits option.splits)
    have ok: "err = None" using r by (cases err) (auto dest: deploy_loop_error)
    note IH = Cons.IH [OF r [unfolded ok]]
    have cur: "daemonset_current k (look (world s1)) ?d"
      using dss.converges [OF u [unfolded ok] store] by (simp add: daemonset_current_def)
    have "daemonset_current k (look (world t)) ?d"
    proof (cases "p \<in> set order")
      case True
      with IH \<open>fmlookup need p = Some True\<close> e show ?thesis by auto
    next
      case False
      have "\<forall>q \<in> set order. \<forall>d'. expected_node_daemonset k csi sv q = Some d' \<longrightarrow> m_Name (ds_Meta d') \<noteq> m_Name (ds_Meta ?d)"
        using expected_node_daemonset_inj [OF own _ e] False by metis
      with IH have "look (world t) ns (m_Name (ds_Meta ?d)) = look (world s1) ns (m_Name (ds_Meta ?d))" for ns
        by blast
      with cur show ?thesis by (simp add: daemonset_current_def)
    qed
    moreover have "look (world t) ns n = look (world s) ns n"
      if "\<forall>q \<in> set (p # order). \<forall>d. expected_node_daemonset k csi sv q = Some d \<longrightarrow> m_Name (ds_Meta d) \<noteq> n" for ns n
    proof -
      have "m_Name (ds_Meta ?d) \<noteq> n" using that e by auto
      then have "look (world s1) ns n = look (world s) ns n"
        using dss.keeps_other [OF store iso u, of ns n] by simp
      with IH that show ?thesis by simp
    qed
    ultimately show ?thesis using IH e by auto
  qed
qed simp

section \<open>Every selected node is served\<close>

text \<open>The scheduler places a pod on the nodes that carry the labels of its node selector.\<close>

definition runs_on :: "DaemonSet \<Rightarrow> CoreNode \<Rightarrow> bool" where
  "runs_on d n \<longleftrightarrow>
     (\<forall>key v. map_get (ps_NodeSelector (pt_Spec (dss_Template (ds_Spec d)))) key = Some v \<longrightarrow>
        map_get (n_Labels n) key = Some v)"

definition nodes_served ::
  "'w cluster \<Rightarrow> Deployment \<Rightarrow> 'v semver \<Rightarrow> (string \<times> 'v PlatformDescription) list \<Rightarrow>
   (string \<Rightarrow> string \<Rightarrow> CoreNode option) \<Rightarrow> (string \<Rightarrow> string \<Rightarrow> DaemonSet option) \<Rightarrow> bool" where
  "nodes_served k csi sv ps lookN lookD \<longleftrightarrow>
     (\<forall>ns m n. lookN ns m = Some n \<longrightarrow> selected csi n \<longrightarrow>
        (\<exists>p d. platform_of sv ps n = Some p \<and> expected_node_daemonset k csi sv p = Some d
          \<and> daemonset_current k lookD d
          \<and> (\<forall>q e. expected_node_daemonset k csi sv q = Some e \<longrightarrow> (runs_on e n \<longleftrightarrow> q = p))))"

text \<open>What the API server is taken to be for nodes and for daemonsets.\<close>

definition node_store :: "'w cluster \<Rightarrow> ('w \<Rightarrow> string \<Rightarrow> string \<Rightarrow> CoreNode option) \<Rightarrow> bool" where
  "node_store k look \<longleftrightarrow> truthful (k_Nodes k) n_Meta look node_changed \<and> isolated (k_Nodes k) n_Meta look
     \<and> lists_all (k_Nodes k) n_Meta look \<and> undisturbed k K_CoreNode look"

definition daemonset_store :: "'w cluster \<Rightarrow> ('w \<Rightarrow> string \<Rightarrow> string \<Rightarrow> DaemonSet option) \<Rightarrow> bool" where
  "daemonset_store k look \<longleftrightarrow> truthful (k_DaemonSets k) ds_Meta look (daemonsetChanged k)
     \<and> isolated (k_DaemonSets k) ds_Meta look \<and> undisturbed k K_DaemonSet look"

definition deployment_store :: "'w cluster \<Rightarrow> ('w \<Rightarrow> string \<Rightarrow> string \<Rightarrow> AppsDeployment option) \<Rightarrow> bool" where
  "deployment_store k look \<longleftrightarrow> truthful (k_Deployments k) ad_Meta look (deploymentChanged k)
     \<and> isolated (k_Deployments k) ad_Meta look \<and> undisturbed k K_AppsDeployment look"

text \<open>The iteration orders of the maps of platforms name all platforms.\<close>

definition platform_orders :: "'v operator \<Rightarrow> bool" where
  "platform_orders op \<longleftrightarrow> map_order (platforms (op_semver op)) (op_platformOrder op)
     \<and> fst ` set (platforms (op_semver op)) \<subseteq> set (op_deployOrder op)"

lemma node_selector_of_expected:
  assumes "expected_node_daemonset k csi sv q = Some d"
  shows "map_get (ps_NodeSelector (pt_Spec (dss_Template (ds_Spec d)))) key =
    (if key = platformLabel then Some q
     else case sp_NodeSelector (dep_Spec csi) of
       None \<Rightarrow> None
     | Some sel \<Rightarrow> if key = ns_Key sel then Some (ns_Value sel) else None)"
proof -
  from assms obtain pd d0 m where d: "map_of (platforms sv) q = Some pd" "createNodeDaemonSet csi pd = Some d0"
      "d = d0\<lparr>ds_Meta := m\<rparr>"
    by (auto simp: expected_node_daemonset_def split: Option.bind_splits sum.splits)
  from d(2) obtain sel where
    "map_set (MakeNodeSelectorMap (sp_NodeSelector (dep_Spec csi))) platformLabel (pd_labeltag pd) = Some sel"
    "ps_NodeSelector (pt_Spec (dss_Template (ds_Spec d0))) = sel"
    by (auto simp: createNodeDaemonSet_def split: Option.bind_splits)
  with d(3) platform_names(2) [OF d(1)] map_get_set show ?thesis
    by (auto simp: MakeNodeSelectorMap_def go_map_def split: option.splits)
qed

lemma runs_on_labelled:
  assumes "expected_node_daemonset k csi sv q = Some d" and "labelled_for sv ps n z" and "selected csi n"
    and "platform_of sv ps n = Some p"
  shows "runs_on d z \<longleftrightarrow> q = p"
proof
  have z: "map_get (n_Labels z) key = (if key = platformLabel then Some p else map_get (n_Labels n) key)" for key
    using assms(2,4) by (auto simp: labelled_for_def)
  note s = node_selector_of_expected [OF assms(1)]
  show "q = p" if "runs_on d z"
    using that s [of platformLabel] z [of platformLabel] by (auto simp: runs_on_def)
  show "runs_on d z" if "q = p"
    unfolding runs_on_def using that s z assms(3) by (auto simp: selected_def split: option.splits if_splits)
qed

lemma platform_of_known:
  "map_order (platforms sv) ps \<Longrightarrow> platform_of sv ps n = Some p \<Longrightarrow> p \<in> fst ` set (platforms sv)"
  using findPlatform_cases by (fastforce simp: platform_of_def platforms_def split: sum.splits)

text \<open>Every selected node of the cluster gets its driver: when \<open>Update\<close> of the node component,
  past its security checks, reports success, each node the node selector picks carries the
  label of the platform of its kernel, the daemonset of that platform is in the cluster and
  up to date, and of the node daemonsets exactly this one runs on the node. This holds
  against an API server that stores and lists faithfully, whatever the order of the maps.\<close>

lemma node_deploy_serves_nodes:
  assumes order: "map_order (platforms sv) ps" and all: "fst ` set (platforms sv) \<subseteq> set order"
    and nodes: "node_store k lookN" and sets: "daemonset_store k lookD"
    and own: "takes_ownership k csi"
    and run: "node_deploy k sv ps order csi s = Some (None, t)"
  shows "nodes_served k csi sv ps (lookN (world t)) (lookD (world t))"
proof -
  from run obtain need s1 ns s2 where g: "GetSelectedNodes k (sp_NodeSelector (dep_Spec csi)) s = Some (Inr ns, s1)"
    and l: "node_labels_loop k sv ps ns (createPlatformsSet sv) None s1 = Some (need, None, s2)"
    and d: "deploy_loop k sv csi need order None s2 = Some (None, t)"
    by (auto simp: node_deploy_def updateNodeLabels_def Let_def split: Option.bind_splits option.splits sum.splits)
  note N = nodes [unfolded node_store_def] and D = sets [unfolded daemonset_store_def]
  note sel = GetSelectedNodes_lists [OF N [THEN conjunct2, THEN conjunct2, THEN conjunct1] g]
  have "\<forall>n \<in> set ns. lookN (world s1) (m_Namespace (n_Meta n)) (m_Name (n_Meta n)) = Some n"
    using sel(1,3) by simp
  from node_labels_loop_store [OF order N [THEN conjunct1] N [THEN conjunct2, THEN conjunct1] l sel(2) this]
  have L: "\<And>n. n \<in> set ns \<Longrightarrow> \<exists>z. lookN (world s2) (m_Namespace (n_Meta n)) (m_Name (n_Meta n)) = Some z
        \<and> labelled_for sv ps n z \<and> (\<forall>p. platform_of sv ps n = Some p \<longrightarrow> fmlookup need p = Some True)"
    "\<And>a b. (a, b) \<notin> node_key ` set ns \<Longrightarrow> lookN (world s2) a b = lookN (world s) a b"
    using sel(1) by simp_all
  have same: "lookN (world t) = lookN (world s2)"
    by (rule undisturbed_calls [OF N [THEN conjunct2, THEN conjunct2, THEN conjunct2] _
        flow_calls(2) [OF d flow_deploy_loop [where K = "{K_DaemonSet}"]]]) simp_all
  from deploy_loop_store [OF own D [THEN conjunct1] D [THEN conjunct2, THEN conjunct1] d]
  have cur: "\<And>p. p \<in> set order \<Longrightarrow> fmlookup need p = Some True \<Longrightarrow>
       \<exists>d. expected_node_daemonset k csi sv p = Some d \<and> daemonset_current k (lookD (world t)) d" by blast
  have keyed: "\<And>w a b x. lookN w a b = Some x \<Longrightarrow> m_Namespace (n_Meta x) = a \<and> m_Name (n_Meta x) = b"
    using N unfolding lists_all_def by blast
  show ?thesis
    unfolding nodes_served_def
  proof (intro allI impI)
    fix a b z
    assume z: "lookN (world t) a b = Some z" "selected csi z"
    show "\<exists>p d. platform_of sv ps z = Some p \<and> expected_node_daemonset k csi sv p = Some d
          \<and> daemonset_current k (lookD (world t)) d
          \<and> (\<forall>q e. expected_node_daemonset k csi sv q = Some e \<longrightarrow> (runs_on e z \<longleftrightarrow> q = p))"
    proof (cases "(a, b) \<in> node_key ` set ns")
      case False
      with L(2) z same have s: "lookN (world s) a b = Some z" by metis
      with keyed [OF s] z(2) sel(3) have "z \<in> set ns" by simp
      with False keyed [OF s] show ?thesis by force
    next
      case True
      then obtain n where n: "n \<in> set ns" "node_key n = (a, b)" by auto
      from L(1) [OF n(1)] n(2) z(1) same have lz: "labelled_for sv ps n z"
        and need: "\<And>p. platform_of sv ps n = Some p \<Longrightarrow> fmlookup need p = Some True" by auto
      then obtain p where p: "platform_of sv ps n = Some p" "platform_of sv ps z = Some p"
        unfolding labelled_for_def by blast
      have "selected csi n" using sel(3) n(1) by blast
      with cur [OF _ need [OF p(1)]] all platform_of_known [OF order p(1)] runs_on_labelled [OF _ lz _ p(1)] p(2)
      show ?thesis by blast
    qed
  qed
qed

end
