(* ===== verification/Parts.thy ===== *)
theory Parts
  imports NodeCoverage
begin

text \<open>
  Worlds made of three parts, each behind a client of its own, as the witnesses use them: a
  client of one part keeps the laws it has alone, and the parts do not disturb each other.
\<close>

text \<open>A client of one part of the world.\<close>

definition at_part :: "('w \<Rightarrow> 'm) \<Rightarrow> ('m \<Rightarrow> 'w \<Rightarrow> 'w) \<Rightarrow> ('o, 'm) kclient \<Rightarrow> ('o, 'w) kclient" where
  "at_part pick into c = \<lparr>
     kc_get = (\<lambda>ns n w. case kc_get c ns n (pick w) of (r, m) \<Rightarrow> (r, into m w)),
     kc_list = (\<lambda>opts w. case kc_list c opts (pick w) of (r, m) \<Rightarrow> (r, into m w)),
     kc_create = (\<lambda>x w. case kc_create c x (pick w) of (r, m) \<Rightarrow> (r, into m w)),
     kc_update = (\<lambda>x w. case kc_update c x (pick w) of (r, m) \<Rightarrow> (r, into m w)),
     kc_delete = (\<lambda>ns n w. case kc_delete c ns n (pick w) of (r, m) \<Rightarrow> (r, into m w))\<rparr>"

lemma at_part_laws:
  assumes "\<And>m w. pick (into m w) = m"
  shows "truthful c meta look chg \<Longrightarrow> truthful (at_part pick into c) meta (\<lambda>w. look (pick w)) chg"
    and "isolated c meta look \<Longrightarrow> isolated (at_part pick into c) meta (\<lambda>w. look (pick w))"
    and "lists_all c meta look \<Longrightarrow> lists_all (at_part pick into c) meta (\<lambda>w. look (pick w))"
  unfolding truthful_def isolated_def lists_all_def at_part_def kclient.simps
  by (intro conjI allI impI; elim conjE; auto simp: assms split: prod.splits)+

lemma at_part_call:
  assumes "client_call (at_part pick into c) mk kd K s t" "\<And>m w. view (into m w) = view w"
  shows "view (world t) = view (world s)"
  using assms
  by (auto simp: client_call_def kget_def klist_def kcreate_def kupdate_def kdelete_def in_world_def at_part_def
      log_event_def split: prod.splits)

definition reads_only :: "('o, 'm) kclient \<Rightarrow> bool" where
  "reads_only c \<longleftrightarrow> (\<forall>ns n m. snd (kc_get c ns n m) = m) \<and> (\<forall>opts m. snd (kc_list c opts m) = m)"

lemma at_part_read:
  assumes "client_call (at_part pick into c) mk kd K s t" "kd \<notin> K" "reads_only c" "\<And>w. into (pick w) w = w"
  shows "world t = world s"
proof -
  have "snd (kc_get (at_part pick into c) ns n w) = w" "snd (kc_list (at_part pick into c) opts w) = w" for ns n opts w
    using assms(3,4) by (auto simp: at_part_def reads_only_def split: prod.splits) (metis snd_conv)+
  with assms(1,2) show ?thesis
    by (auto simp: client_call_def kget_def klist_def in_world_def split: prod.splits) (metis snd_conv)+
qed

lemma reads_only_store: "reads_only (store_client meta)"
  by (simp add: reads_only_def store_client_def)

abbreviation part1 :: "('o, 'a) kclient \<Rightarrow> ('o, 'a \<times> 'b \<times> 'c) kclient" where
  "part1 \<equiv> at_part fst (\<lambda>m w. (m, snd w))"

abbreviation part2 :: "('o, 'b) kclient \<Rightarrow> ('o, 'a \<times> 'b \<times> 'c) kclient" where
  "part2 \<equiv> at_part (\<lambda>w. fst (snd w)) (\<lambda>m w. (fst w, m, snd (snd w)))"

abbreviation part3 :: "('o, 'c) kclient \<Rightarrow> ('o, 'a \<times> 'b \<times> 'c) kclient" where
  "part3 \<equiv> at_part (\<lambda>w. snd (snd w)) (\<lambda>m w. (fst w, fst (snd w), m))"

lemma at_part_client:
  assumes "client_call (at_part pick into c) mk kd K s t" "reads_only c" "\<And>w. into (pick w) w = w"
    and "\<And>m w. view (into m w) = view w"
  shows "view (world t) = view (world s) \<and> (kd \<in> K \<or> world t = world s)"
  using at_part_call [where view = view, OF assms(1) assms(4)] at_part_read [OF assms(1) _ assms(2,3)] by blast

lemma part1_call:
  "client_call (part1 c) mk kd K s t \<Longrightarrow> reads_only c \<Longrightarrow>
     snd (world t) = snd (world s) \<and> (kd \<in> K \<or> world t = world s)"
  by (drule at_part_client [where view = snd]) simp_all

lemma part2_call:
  "client_call (part2 c) mk kd K s t \<Longrightarrow> reads_only c \<Longrightarrow>
     (fst (world t), snd (snd (world t))) = (fst (world s), snd (snd (world s))) \<and> (kd \<in> K \<or> world t = world s)"
  by (drule at_part_client [where view = "\<lambda>w. (fst w, snd (snd w))"]) simp_all

lemma part3_call:
  "client_call (part3 c) mk kd K s t \<Longrightarrow> reads_only c \<Longrightarrow>
     (fst (world t), fst (snd (world t))) = (fst (world s), fst (snd (world s))) \<and> (kd \<in> K \<or> world t = world s)"
  by (drule at_part_client [where view = "\<lambda>w. (fst w, fst (snd w))"]) simp_all

lemma three_undisturbed:
  assumes "\<And>K s t. one_call k K s t \<Longrightarrow> world t = world s
      \<or> client_call (part1 c1) mk1 kd1 K s t \<or> client_call (part2 c2) mk2 kd2 K s t
      \<or> client_call (part3 c3) mk3 kd3 K s t"
    and "reads_only c1" "reads_only c2" "reads_only c3"
  shows "undisturbed k kd1 (\<lambda>w. look (fst w))" "undisturbed k kd2 (\<lambda>w. look' (fst (snd w)))"
    "undisturbed k kd3 (\<lambda>w. look'' (snd (snd w)))"
proof -
  note parts = part1_call [OF _ assms(2)] part2_call [OF _ assms(3)] part3_call [OF _ assms(4)]
  show "undisturbed k kd1 (\<lambda>w. look (fst w))" "undisturbed k kd2 (\<lambda>w. look' (fst (snd w)))"
    "undisturbed k kd3 (\<lambda>w. look'' (snd (snd w)))"
    unfolding undisturbed_def by (intro allI impI; drule assms(1); elim disjE; auto dest: parts)+
qed

end
