(* ===== verification/ExampleSite.thy ===== *)
theory ExampleSite
  imports Parts Reconciler
begin

text \<open>
  A concrete installation for the witness of \<open>Installed\<close>: a world of three parts, one per kind of
  object that counts there, with a client for each; a custom resource, an operator and the
  result of every step of its reconciliation.
\<close>

section \<open>The cluster\<close>

text \<open>A server for one node.\<close>

definition one_node :: "CoreNode option \<Rightarrow> string \<Rightarrow> string \<Rightarrow> CoreNode option" where
  "one_node w ns n = (case w of None \<Rightarrow> None | Some z \<Rightarrow> if node_key z = (ns, n) then Some z else None)"

definition node_client :: "(CoreNode, CoreNode option) kclient" where
  "node_client = \<lparr>
     kc_get = (\<lambda>ns n w. (case one_node w ns n of Some x \<Rightarrow> Inr x | None \<Rightarrow> Inl (True, ''not found''), w)),
     kc_list = (\<lambda>opts w. (Inr (case w of None \<Rightarrow> [] | Some z \<Rightarrow>
        if labels_match (lo_Labels opts) (n_Labels z) then [z] else []), w)),
     kc_create = (\<lambda>x w. (Inl (False, ''forbidden''), w)),
     kc_update = (\<lambda>x w. case one_node w (m_Namespace (n_Meta x)) (m_Name (n_Meta x)) of
        Some z \<Rightarrow> (Inr x, Some (with_labels z (n_Labels x)\<lparr>n_KernelVersion := n_KernelVersion x\<rparr>))
      | None \<Rightarrow> (Inl (True, ''not found''), w)),
     kc_delete = (\<lambda>ns n w. (Some (False, ''forbidden''), w))\<rparr>"

lemma with_labels_meta [simp]:
  "m_Namespace (n_Meta (with_labels z ls)) = m_Namespace (n_Meta z)" "m_Name (n_Meta (with_labels z ls)) = m_Name (n_Meta z)"
  by (simp_all add: with_labels_def)

lemma node_client_laws:
  "truthful node_client n_Meta one_node node_changed" "isolated node_client n_Meta one_node"
  "lists_all node_client n_Meta one_node" "reads_only node_client"
proof -
  show "truthful node_client n_Meta one_node node_changed"
    by (auto simp: truthful_def node_client_def one_node_def node_changed_def split: option.splits if_splits)
  show "isolated node_client n_Meta one_node"
    by (auto simp: isolated_def node_client_def one_node_def split: option.splits if_splits)
  show "lists_all node_client n_Meta one_node"
    by (auto simp: lists_all_def node_client_def one_node_def split: option.splits if_splits)
  show "reads_only node_client" by (simp add: reads_only_def node_client_def)
qed

text \<open>A site with stores for deployments and daemonsets and one worker, and a custom resource with
  the finalizer, without patching and without pod security policies.\<close>

type_synonym site =
  "(string \<times> string \<Rightarrow> AppsDeployment option) \<times> (string \<times> string \<Rightarrow> DaemonSet option) \<times> CoreNode option"

definition site_scheduler :: Scheduler where
  "site_scheduler = example_scheduler\<lparr>sch_PodSecurityPolicy := None,
     sch_Patcher := map_option (\<lambda>p. p\<lparr>pat_Enable := False\<rparr>) (sch_Patcher example_scheduler)\<rparr>"

definition site_csi :: Deployment where
  "site_csi = (example_csi PlatformVanilla)\<lparr>dep_Meta := (object_meta ''ns'' ''csi'' None)\<lparr>m_Finalizers := [csiFinalizer]\<rparr>,
     dep_Spec := (dep_Spec (example_csi PlatformVanilla))\<lparr>
       sp_Driver := Some \<lparr>drv_Controller = Some example_controller,
         drv_Node = Some (example_spec_node\<lparr>nd_PodSecurityPolicy := None\<rparr>),
         drv_Metrics = None, drv_LogReceiver = None, drv_MountRootHost = False\<rparr>,
       sp_Scheduler := Some site_scheduler\<rparr>\<rparr>"

definition site_cluster :: "site cluster" where
  "site_cluster = quiet_cluster\<lparr>
     k_Deployments := part1 (store_client ad_Meta),
     k_DaemonSets := part2 (store_client ds_Meta),
     k_Nodes := part3 node_client,
     k_CsiDeployments := holding site_csi\<rparr>"

definition site_op :: "(nat \<times> nat) operator" where
  "site_op = NewCSIDeployment two_numbers (platforms two_numbers) [''default'', ''kernel-5.4'']
     ''nodes.csi-baremetal.dell.com/uuid'' NewMatcher matchSecurityContextConstraintsPolicies
     matchPodSecurityPolicyTemplate"

definition site_start :: site where
  "site_start = (\<lambda>_. None, \<lambda>_. None, Some example_worker)"

abbreviation look_apps :: "site \<Rightarrow> string \<Rightarrow> string \<Rightarrow> AppsDeployment option" where
  "look_apps \<equiv> (\<lambda>w. stored ad_Meta (fst w))"

abbreviation look_sets :: "site \<Rightarrow> string \<Rightarrow> string \<Rightarrow> DaemonSet option" where
  "look_sets \<equiv> (\<lambda>w. stored ds_Meta (fst (snd w)))"

abbreviation look_nodes :: "site \<Rightarrow> string \<Rightarrow> string \<Rightarrow> CoreNode option" where
  "look_nodes \<equiv> (\<lambda>w. one_node (snd (snd w)))"

lemma site_clients:
  "k_Deployments site_cluster = part1 (store_client ad_Meta)"
  "k_DaemonSets site_cluster = part2 (store_client ds_Meta)"
  "k_Nodes site_cluster = part3 node_client"
  "k_CsiDeployments site_cluster = holding site_csi"
  by (simp_all add: site_cluster_def)

lemma site_call:
  assumes "one_call site_cluster K s t"
  shows "world t = world s
    \<or> client_call (k_Deployments site_cluster) O_AppsDeployment K_AppsDeployment K s t
    \<or> client_call (k_DaemonSets site_cluster) O_DaemonSet K_DaemonSet K s t
    \<or> client_call (k_Nodes site_cluster) O_CoreNode K_CoreNode K s t"
proof -
  have "other_call site_cluster s t \<Longrightarrow> world t = world s"
    by (erule quiet_other_call) (simp_all add: site_cluster_def)
  with assms show ?thesis
    unfolding one_call_def by (auto simp: site_cluster_def dest: canned_client_call holding_call)
qed

lemma site_undisturbed:
  "undisturbed site_cluster K_AppsDeployment look_apps" "undisturbed site_cluster K_DaemonSet look_sets"
  "undisturbed site_cluster K_CoreNode look_nodes"
proof -
  note u = three_undisturbed [OF site_call [unfolded site_clients] reads_only_store reads_only_store node_client_laws(4)]
  show "undisturbed site_cluster K_AppsDeployment look_apps" by (rule u(1) [where look = "stored ad_Meta"])
  show "undisturbed site_cluster K_DaemonSet look_sets" by (rule u(2) [where look' = "stored ds_Meta"])
  show "undisturbed site_cluster K_CoreNode look_nodes" by (rule u(3) [where look'' = one_node])
qed

lemma site_stores:
  "deployment_store site_cluster look_apps" "daemonset_store site_cluster look_sets" "node_store site_cluster look_nodes"
  unfolding deployment_store_def daemonset_store_def node_store_def site_clients
  by (intro conjI site_undisturbed at_part_laws truthful_store isolated_store node_client_laws;
      simp add: deploymentChanged_def daemonsetChanged_def site_cluster_def)+

lemma site_owner: "takes_ownership site_cluster csi"
  by (simp add: takes_ownership_def owner_keeps_key_def set_owner_def site_cluster_def)

lemma site_orders: "platform_orders site_op"
  by (simp add: platform_orders_def site_op_def NewCSIDeployment_def platforms_order) (simp add: platforms_def)

text \<open>Its runs: every upsert succeeds, and nothing but writes is added to the trace.\<close>

definition calm :: "site sys \<Rightarrow> site sys \<Rightarrow> bool" where
  "calm s t \<longleftrightarrow> emits (\<lambda>e. event_kind e \<noteq> None) s t"

definition worker_ready :: "site sys \<Rightarrow> bool" where
  "worker_ready s \<longleftrightarrow> (\<exists>y. snd (snd (world s)) = Some y \<and> n_Labels y \<noteq> None
     \<and> n_KernelVersion y = ''5.15.0'' \<and> n_Taints y = None)"

lemma calm_trans: "calm s t \<Longrightarrow> calm t u \<Longrightarrow> calm s u"
  unfolding calm_def by (rule emits_trans)

lemma calm_silent: "silent s t \<Longrightarrow> calm s t"
  unfolding calm_def by (rule silent_emits)

definition goes :: "(site sys \<Rightarrow> (goerr option \<times> site sys) option) \<Rightarrow> bool" where
  "goes f \<longleftrightarrow> (\<forall>s. worker_ready s \<longrightarrow> (\<exists>t. f s = Some (None, t) \<and> calm s t \<and> worker_ready t))"

lemma goes_upserts: "goes (UpdateDeployment site_cluster x)" "goes (UpdateDaemonSet site_cluster y)"
proof -
  show "goes (UpdateDeployment site_cluster x)"
    unfolding goes_def
  proof (intro allI impI)
    fix s
    assume "worker_ready s"
    then show "\<exists>t. UpdateDeployment site_cluster x s = Some (None, t) \<and> calm s t \<and> worker_ready t"
      by (cases "stored ad_Meta (fst (world s)) (m_Namespace (ad_Meta x)) (m_Name (ad_Meta x))")
        (auto simp: UpdateDeployment_def site_clients at_part_def store_client_def kget_def kcreate_def kupdate_def
          in_world_def api_err_def Let_def calm_def emits_def log_event_def worker_ready_def)
  qed
  show "goes (UpdateDaemonSet site_cluster y)"
    unfolding goes_def
  proof (intro allI impI)
    fix s
    assume "worker_ready s"
    then show "\<exists>t. UpdateDaemonSet site_cluster y s = Some (None, t) \<and> calm s t \<and> worker_ready t"
      by (cases "stored ds_Meta (fst (snd (world s))) (m_Namespace (ds_Meta y)) (m_Name (ds_Meta y))")
        (auto simp: UpdateDaemonSet_def site_clients at_part_def store_client_def kget_def kcreate_def kupdate_def
          in_world_def api_err_def Let_def calm_def emits_def log_event_def worker_ready_def)
  qed
qed

lemma site_csi_simps:
  "sp_Platform (dep_Spec site_csi) = PlatformVanilla" "spec_controller site_csi = Some example_controller"
  "spec_node site_csi = Some (example_spec_node\<lparr>nd_PodSecurityPolicy := None\<rparr>)"
  "sp_Scheduler (dep_Spec site_csi) = Some site_scheduler"
  "sp_NodeController (dep_Spec site_csi) = Some example_node_controller" "sp_NodeSelector (dep_Spec site_csi) = None"
  by (simp_all add: site_csi_def example_csi_def spec_node_def spec_controller_def)

lemma site_complete: "complete site_csi"
proof -
  have "complete (example_csi PlatformVanilla)" by (rule complete_example)
  then show ?thesis
    by (simp add: complete_def complete_controller_def complete_node_def complete_scheduler_def site_csi_simps
        site_scheduler_def) (auto simp: example_csi_def spec_node_def spec_controller_def example_scheduler_def)
qed

lemma site_set_owner: "set_owner site_cluster csi m = Inr m"
  by (simp add: set_owner_def site_cluster_def)

lemma goes_updates:
  "goes (node_controller_Update site_cluster site_csi)" "goes (controller_Update site_cluster site_csi)"
  "goes (extender_Update site_cluster (extender_psp site_cluster op) (extender_scc site_cluster op) site_csi)"
proof -
  from constructors_total [OF site_complete] obtain c n e where
    "createControllerDeployment site_csi = Some c" "createNodeControllerDeployment site_csi = Some n"
    "createExtenderDaemonSet site_csi = Some e" by blast
  then show "goes (node_controller_Update site_cluster site_csi)" "goes (controller_Update site_cluster site_csi)"
    "goes (extender_Update site_cluster (extender_psp site_cluster op) (extender_scc site_cluster op) site_csi)"
    using goes_upserts
    by (simp_all add: goes_def node_controller_Update_def controller_Update_def extender_Update_def extender_deploy_def
        site_set_owner site_csi_simps site_scheduler_def)
qed

lemma goes_deploy_loop:
  assumes "set order \<subseteq> fst ` set (platforms sv)"
  shows "goes (deploy_loop site_cluster sv site_csi need order None)"
  using assms
proof (induction order)
  case Nil
  show ?case by (auto simp: goes_def intro: calm_silent)
next
  case (Cons p order)
  then have IH: "goes (deploy_loop site_cluster sv site_csi need order None)" by simp
  show ?case
  proof (cases "fmlookup need p = Some True")
    case True
    from Cons.prems obtain pd where pd: "map_of (platforms sv) p = Some pd"
      by (cases "map_of (platforms sv) p") (auto simp: map_of_eq_None_iff)
    obtain nd where nd: "spec_node site_csi = Some nd" "complete_node nd"
      using site_complete by (auto simp: complete_def)
    have same: "(case x of None \<Rightarrow> None | Some e \<Rightarrow> Some e) = x" for x :: "goerr option" by (cases x) simp_all
    from createNodeDaemonSet_total [OF nd] obtain d where "createNodeDaemonSet site_csi pd = Some d" by blast
    with pd True have eq: "deploy_loop site_cluster sv site_csi need (p # order) None s = do {
        (err, s) \<leftarrow> UpdateDaemonSet site_cluster (d\<lparr>ds_Meta := ds_Meta d\<rparr>) s;
        deploy_loop site_cluster sv site_csi need order err s }" for s
      using same by (simp add: site_set_owner Let_def)
    show ?thesis
      unfolding goes_def eq
    proof (intro allI impI)
      fix s
      assume "worker_ready s"
      with goes_upserts(2) obtain t where t: "UpdateDaemonSet site_cluster (d\<lparr>ds_Meta := ds_Meta d\<rparr>) s = Some (None, t)"
        "calm s t" "worker_ready t" unfolding goes_def by meson
      with IH obtain u where "deploy_loop site_cluster sv site_csi need order None t = Some (None, u)"
        "calm t u" "worker_ready u" unfolding goes_def by meson
      with t show "\<exists>u. UpdateDaemonSet site_cluster (d\<lparr>ds_Meta := ds_Meta d\<rparr>) s \<bind>
            (\<lambda>(err, s). deploy_loop site_cluster sv site_csi need order err s) = Some (None, u)
          \<and> calm s u \<and> worker_ready u"
        using calm_trans by auto
    qed
  qed (use IH in \<open>simp add: goes_def\<close>)
qed

text \<open>The worker has kernel 5.15, a label map and no taint.\<close>

lemma worker_kernel: "\<exists>v. GetKernelVersion two_numbers ''5.15.0'' = Inr v"
proof -
  have "find_major_minor ''5.15.0'' = ''5.15''" "find_major_minor ''5.15'' = ''5.15''" by code_simp+
  then show ?thesis by (simp add: GetKernelVersion_def two_numbers_def)
qed

lemma goes_node_labels:
  assumes "worker_ready s"
  shows "\<exists>need t. updateNodeLabels site_cluster two_numbers (platforms two_numbers) None s = Some (need, None, t)
    \<and> calm s t \<and> worker_ready t"
proof -
  from assms obtain y where y: "snd (snd (world s)) = Some y" "n_Labels y \<noteq> None" "n_KernelVersion y = ''5.15.0''"
    "n_Taints y = None" unfolding worker_ready_def by blast
  obtain v where v: "GetKernelVersion two_numbers ''5.15.0'' = Inr v" using worker_kernel by blast
  from platform_tag [OF platforms_order, of two_numbers v] obtain pd where
    pd: "map_of (platforms two_numbers) (findPlatform (platforms two_numbers) v) = Some pd" by blast
  obtain ls where ls: "map_set (n_Labels y) platformLabel (pd_labeltag pd) = Some (Some ls)"
    using y(2) by (auto simp: map_set_def)
  have "klist (k_Nodes site_cluster) list_all_objects s = Some (Inr [y], s)"
    using y(1) by (simp add: klist_def in_world_def site_clients at_part_def node_client_def labels_match_def
        list_all_objects_def)
  then have g: "GetSelectedNodes site_cluster None s = Some (Inr [y], s)" by (simp add: GetSelectedNodes_def)
  show ?thesis
  proof (cases "map_get (n_Labels y) platformLabel = Some (pd_labeltag pd)")
    case True
    with g v pd y(3) assms show ?thesis
      by (simp add: updateNodeLabels_def GetNodeKernelVersion_def Let_def calm_silent)
  next
    case False
    have "\<exists>t. kupdate (k_Nodes site_cluster) O_CoreNode (with_labels y (Some ls)) s = Some (Inr (with_labels y (Some ls)), t)
        \<and> calm s t \<and> worker_ready t"
      using y by (auto simp: kupdate_def in_world_def site_clients at_part_def node_client_def one_node_def
          calm_def emits_def log_event_def worker_ready_def with_labels_def)
    with False g v pd y(3) ls show ?thesis
      by (auto simp: updateNodeLabels_def GetNodeKernelVersion_def Let_def)
  qed
qed

lemma goes_node_Update:
  "goes (node_Update site_cluster (node_psp site_cluster site_op) (node_scc site_cluster site_op)
     (op_semver site_op) (op_platformOrder site_op) (op_deployOrder site_op) site_csi)"
  unfolding goes_def
proof (intro allI impI)
  fix s
  assume "worker_ready s"
  from goes_node_labels [OF this] obtain need t where
    t: "updateNodeLabels site_cluster two_numbers (platforms two_numbers) None s = Some (need, None, t)"
      "calm s t" "worker_ready t" by blast
  have "set [''default'', ''kernel-5.4''] \<subseteq> fst ` set (platforms two_numbers)" by (simp add: platforms_def)
  from goes_deploy_loop [OF this] t(3) obtain u where
    u: "deploy_loop site_cluster two_numbers site_csi need [''default'', ''kernel-5.4''] None t = Some (None, u)"
      "calm t u" "worker_ready u" unfolding goes_def by meson
  from t u calm_trans [OF t(2) u(2)]
  show "\<exists>t. node_Update site_cluster (node_psp site_cluster site_op) (node_scc site_cluster site_op)
     (op_semver site_op) (op_platformOrder site_op) (op_deployOrder site_op) site_csi s = Some (None, t)
     \<and> calm s t \<and> worker_ready t"
    unfolding node_Update_def node_deploy_def site_op_def NewCSIDeployment_def by (simp add: site_csi_simps)
qed

lemma goes_ReconcileNodes: "goes (ReconcileNodes site_cluster site_csi)"
  unfolding goes_def
proof (intro allI impI)
  fix s
  assume w: "worker_ready s"
  then obtain y where y: "snd (snd (world s)) = Some y" "n_Taints y = None" unfolding worker_ready_def by blast
  have "klist (k_Nodes site_cluster) list_all_objects s = Some (Inr [y], s)"
    using y(1) by (simp add: klist_def in_world_def site_clients at_part_def node_client_def labels_match_def
        list_all_objects_def)
  moreover have "k_CsibmNodes site_cluster = canned []" by (simp add: site_cluster_def)
  moreover have "\<not> hasTaint (Some y) mTaint" using y(2) by (simp add: hasTaint_def)
  ultimately have "ReconcileNodes site_cluster site_csi s = Some (None, s)"
    by (simp add: ReconcileNodes_def node_ops_reconcile_def GetSelectedNodes_def site_csi_simps Let_def
        handleNodeRemoval_def removeNodes_def handleNodeMaintenance_def join_errors_def)
  with w show "\<exists>t. ReconcileNodes site_cluster site_csi s = Some (None, t) \<and> calm s t \<and> worker_ready t"
    by (auto intro: calm_silent)
qed

lemma site_run:
  "\<exists>t. Reconcile site_cluster site_op ''ns'' ''csi'' new_patcher (start site_start) = Some ((False, None), new_patcher, t)
     \<and> calm (start site_start) t"
proof -
  have p: "patcher_Update site_cluster v site_csi new_patcher s = Some (None, new_patcher, s)" for v s
    by (simp add: patcher_Update_def IsPatchingEnabled_def site_csi_simps spec_patcher_def site_scheduler_def
        example_scheduler_def)
  have "worker_ready (start site_start)"
    by (simp add: worker_ready_def site_start_def example_worker_def go_map_def)
  with goes_updates(1) obtain s1 where 1: "node_controller_Update site_cluster site_csi (start site_start) = Some (None, s1)"
    "calm (start site_start) s1" "worker_ready s1" unfolding goes_def by meson
  with goes_node_Update obtain s2 where 2: "node_Update site_cluster (node_psp site_cluster site_op)
      (node_scc site_cluster site_op) (op_semver site_op) (op_platformOrder site_op) (op_deployOrder site_op) site_csi s1
      = Some (None, s2)" "calm s1 s2" "worker_ready s2" unfolding goes_def by meson
  with goes_updates(2) obtain s3 where 3: "controller_Update site_cluster site_csi s2 = Some (None, s3)"
    "calm s2 s3" "worker_ready s3" unfolding goes_def by meson
  with goes_updates(3) obtain s4 where 4: "extender_Update site_cluster (extender_psp site_cluster site_op)
      (extender_scc site_cluster site_op) site_csi s3 = Some (None, s4)" "calm s3 s4" "worker_ready s4"
    unfolding goes_def by meson
  with goes_ReconcileNodes obtain t where 5: "ReconcileNodes site_cluster site_csi s4 = Some (None, t)" "calm s4 t"
    unfolding goes_def by meson
  have "containsFinalizer site_csi" "deletion_IsZero site_csi"
    by (simp_all add: site_csi_def containsFinalizer_def deletion_IsZero_def object_meta_def strings_Contains_iff)
  with 1 2 3 4 5 p have "Reconcile site_cluster site_op ''ns'' ''csi'' new_patcher (start site_start)
      = Some ((False, None), new_patcher, t)"
    by (simp add: Reconcile_def deploy_phase_def csi_Update_def site_clients)
  with 1 2 3 4 5 calm_trans show ?thesis by meson
qed

end
