(* ===== verification/Installed.thy ===== *)
theory Installed
  imports ExampleSite
begin

text \<open>
  What a successful reconciliation leaves in the cluster. Each component brings its own
  objects up to date; that they are all there at the end needs that no later component undoes
  what an earlier one did. The components share the client of daemonsets, so there the frame
  is by the name of the daemonset, not by its kind.
\<close>

named_theorems frame "which view of the world an operation keeps"

section \<open>Views that are kept\<close>

definition same_view :: "('w \<Rightarrow> 'l) \<Rightarrow> 'w sys \<Rightarrow> 'w sys \<Rightarrow> bool" where
  "same_view V s t \<longleftrightarrow> V (world t) = V (world s)"

lemma same_view_refl [simp]: "same_view V s s"
  by (simp add: same_view_def)

lemma same_view_trans: "same_view V s t \<Longrightarrow> same_view V t u \<Longrightarrow> same_view V s u"
  by (simp add: same_view_def)

definition keep2 :: "('w \<Rightarrow> 'l) \<Rightarrow> 'w sys \<Rightarrow> ('a \<times> 'w sys) option \<Rightarrow> bool" where
  "keep2 V s m \<longleftrightarrow> (\<forall>a t. m = Some (a, t) \<longrightarrow> same_view V s t)"

definition keep3 :: "('w \<Rightarrow> 'l) \<Rightarrow> 'w sys \<Rightarrow> ('a \<times> 'b \<times> 'w sys) option \<Rightarrow> bool" where
  "keep3 V s m \<longleftrightarrow> (\<forall>a b t. m = Some (a, b, t) \<longrightarrow> same_view V s t)"

lemma keep_results [frame]:
  "keep2 V s (Some (a, s))" "keep3 V s (Some (a, b, s))" "keep2 V s None" "keep3 V s None"
  by (simp_all add: keep2_def keep3_def same_view_refl)

lemma keep_pure [frame]:
  "(\<And>x. keep2 V s (f x)) \<Longrightarrow> keep2 V s (p \<bind> f)"
  "(\<And>x. keep3 V s (g x)) \<Longrightarrow> keep3 V s (p \<bind> g)"
  by (cases p; simp add: keep2_def keep3_def)+

lemma keep_seq2 [frame]:
  "keep2 V s m \<Longrightarrow> (\<And>a t. keep2 V t (f (a, t))) \<Longrightarrow> keep2 V s (m \<bind> f)"
  "keep2 V s m \<Longrightarrow> (\<And>a t. keep3 V t (g (a, t))) \<Longrightarrow> keep3 V s (m \<bind> g)"
  by (cases m; fastforce simp: keep2_def keep3_def intro: same_view_trans)+

lemma keep_seq3 [frame]:
  "keep3 V s m \<Longrightarrow> (\<And>a b t. keep2 V t (f (a, b, t))) \<Longrightarrow> keep2 V s (m \<bind> f)"
  "keep3 V s m \<Longrightarrow> (\<And>a b t. keep3 V t (g (a, b, t))) \<Longrightarrow> keep3 V s (m \<bind> g)"
  by (cases m; fastforce simp: keep2_def keep3_def intro: same_view_trans)+

lemma keep_flow:
  assumes "undisturbed k kd V"
  shows "flow2 k (- {kd}) s m \<Longrightarrow> keep2 V s m" "flow3 k (- {kd}) s n \<Longrightarrow> keep3 V s n"
  unfolding keep2_def keep3_def same_view_def
  by (blast intro: undisturbed_calls [OF assms, of "- {kd}"] flow_calls(2,3))+

text \<open>The objects of all names but one.\<close>

definition without :: "string \<Rightarrow> ('w \<Rightarrow> string \<Rightarrow> string \<Rightarrow> 'o option) \<Rightarrow> 'w \<Rightarrow> string \<Rightarrow> string \<Rightarrow> 'o option" where
  "without x look w ns n = (if n = x then None else look w ns n)"

lemma undisturbed_without: "undisturbed k kd look \<Longrightarrow> undisturbed k kd (without x look)"
  by (auto simp: undisturbed_def without_def fun_eq_iff)

lemma without_same: "without x look w = without x look w' \<longleftrightarrow> (\<forall>ns n. n \<noteq> x \<longrightarrow> look w ns n = look w' ns n)"
  by (auto simp: without_def fun_eq_iff)

lemma keep_UpdateDaemonSet:
  assumes "daemonset_store k look" and "m_Name (ds_Meta d) = x"
  shows "keep2 (without x look) s (UpdateDaemonSet k d s)"
proof -
  note D = assms(1) [unfolded daemonset_store_def]
  show ?thesis
    unfolding keep2_def same_view_def without_same
    by (intro allI impI, rule dss.keeps_other [OF D [THEN conjunct1] D [THEN conjunct2, THEN conjunct1]], assumption)
      (simp add: assms(2))
qed

lemma keep_deleteDaemonSet:
  assumes "daemonset_store k look"
  shows "keep2 (without x look) s (kdelete (k_DaemonSets k) K_DaemonSet ns x s)"
proof -
  note D = assms [unfolded daemonset_store_def]
  show ?thesis
    unfolding keep2_def same_view_def without_same
    by (intro allI impI, rule isolated_calls(3) [OF D [THEN conjunct2, THEN conjunct1]], assumption) simp
qed

section \<open>The scheduler extender and the patcher\<close>

definition expected_extender :: "'w cluster \<Rightarrow> Deployment \<Rightarrow> DaemonSet option" where
  "expected_extender k csi = do {
     d \<leftarrow> createExtenderDaemonSet csi;
     case set_owner k csi (ds_Meta d) of Inl _ \<Rightarrow> None | Inr m \<Rightarrow> Some (d\<lparr>ds_Meta := m\<rparr>)
   }"

lemma createExtenderDaemonSet_meta:
  "createExtenderDaemonSet csi = Some d \<Longrightarrow> ds_Meta d = object_meta (dep_Namespace csi) extenderName app_labels"
  by (auto simp: createExtenderDaemonSet_def Let_def split: Option.bind_splits)

lemma expected_extender_name:
  "owner_keeps_key k csi \<Longrightarrow> expected_extender k csi = Some d \<Longrightarrow> m_Name (ds_Meta d) = extenderName"
  by (auto simp: owner_keeps_key_def expected_extender_def object_meta_def
      dest!: createExtenderDaemonSet_meta split: Option.bind_splits sum.splits)

lemma keep_extender_deploy:
  assumes "daemonset_store k look" "owner_keeps_key k csi"
  shows "keep2 (without extenderName look) s (extender_deploy k csi s)"
proof -
  have "extender_deploy k csi s = (case expected_extender k csi of None \<Rightarrow> extender_deploy k csi s
      | Some d \<Rightarrow> UpdateDaemonSet k d s)"
    by (auto simp: extender_deploy_def expected_extender_def split: Option.bind_splits sum.splits option.splits)
  moreover have "keep2 V s (extender_deploy k csi s)" if "expected_extender k csi = None" for V :: "'a \<Rightarrow> 'b"
    using that by (auto simp: keep2_def extender_deploy_def expected_extender_def split: Option.bind_splits sum.splits)
  ultimately show ?thesis
    using keep_UpdateDaemonSet [OF assms(1)] expected_extender_name [OF assms(2)]
    by (cases "expected_extender k csi") auto
qed

lemma keep_extender_Update:
  assumes "daemonset_store k look" "owner_keeps_key k csi"
  shows "keep2 (without extenderName look) s (extender_Update k (extender_psp k op) (extender_scc k op) csi s)"
proof -
  have "undisturbed k K_DaemonSet (without extenderName look)"
    using assms(1) by (simp add: daemonset_store_def undisturbed_without)
  note k = keep_flow [OF this] keep_extender_deploy [OF assms]
  show ?thesis
    by (simp add: frame k flow extender_Update_def extender_psp_def extender_scc_def split: flow_splits)
qed

lemma keep_patcher_deploy:
  assumes "daemonset_store k look" "owner_keeps_key k csi"
  shows "keep2 (without patcherName look) s (patcher_deploy k csi s)"
proof -
  have n: "m_Name (ds_Meta (d\<lparr>ds_Meta := m\<rparr>)) = patcherName"
    if "createPatcherDaemonSet cfg = Some d" "set_owner k csi (ds_Meta d) = Inr m" for cfg d m
    using that assms(2) by (auto simp: owner_keeps_key_def createPatcherDaemonSet_def object_meta_def
        split: Option.bind_splits)
  show ?thesis
    using keep_UpdateDaemonSet [OF assms(1) n]
    by (auto simp: patcher_deploy_def keep2_def split: Option.bind_splits sum.splits)
qed

lemma keep_patcher_Update:
  assumes "daemonset_store k look" "owner_keeps_key k csi"
  shows "keep3 (without patcherName look) s (patcher_Update k (patcher_psp k op) csi p s)"
proof -
  have "undisturbed k K_DaemonSet (without patcherName look)"
    using assms(1) by (simp add: daemonset_store_def undisturbed_without)
  note k = keep_flow [OF this] keep_patcher_deploy [OF assms] keep_deleteDaemonSet [OF assms(1)]
  have v: "keep2 (without patcherName look) s (updateVanilla k (patcher_psp k op) csi s)" for s
    by (simp add: frame k flow updateVanilla_def updateVanillaConfigMap_def updateVanillaDaemonset_def patcher_psp_def
        split: flow_splits)
  have r: "keep2 (without patcherName look) s (retryPatchVanilla k (patcher_psp k op) csi s)" for s
    by (simp add: frame k v flow retryPatchVanilla_def split: flow_splits)
  have u: "keep3 (without patcherName look) s (UpdateReadinessConfigMap k (patcher_psp k op) csi use p s)" for use p s
    by (simp add: frame k r flow UpdateReadinessConfigMap_def Let_def split: flow_splits)
  show ?thesis
    by (simp add: frame k v u flow patcher_Update_def Let_def split: flow_splits)
qed

section \<open>Past the security checks\<close>

text \<open>A run that adds nothing but the named kind of event; a warning is how a refused gate shows.\<close>

definition warned :: "'w sys \<Rightarrow> 'w sys \<Rightarrow> bool" where
  "warned s t \<longleftrightarrow> (\<exists>reason account. Emitted reason account \<in> set (new_events s t))"

definition grows :: "'w sys \<Rightarrow> 'w sys \<Rightarrow> bool" where
  "grows s t \<longleftrightarrow> (\<exists>es. trace t = trace s @ es)"

lemma grows_trans: "grows s t \<Longrightarrow> grows t u \<Longrightarrow> grows s u"
  by (auto simp: grows_def)

lemma silent_grows: "silent s t \<Longrightarrow> grows s t"
  by (simp add: grows_def)

lemma calls_grow: "calls k K s t \<Longrightarrow> grows s t"
  by (drule calls_writes) (auto simp: emits_def grows_def)

lemma flow_grow: "m = Some (a, t) \<Longrightarrow> flow2 k K s m \<Longrightarrow> grows s t" "n = Some (a, b, t) \<Longrightarrow> flow3 k K s n \<Longrightarrow> grows s t"
  by (blast intro: calls_grow flow_calls)+

lemma warned_middle: "grows s s1 \<Longrightarrow> grows s1 s2 \<Longrightarrow> grows s2 t \<Longrightarrow> warned s1 s2 \<Longrightarrow> warned s t"
  unfolding warned_def grows_def new_events_def by force

text \<open>A check that passes adds nothing to the trace, and one that is refused adds a warning.\<close>

definition honest :: "'w sys \<Rightarrow> (goerr option option \<times> 'w sys) option \<Rightarrow> bool" where
  "honest s m \<longleftrightarrow>
     (\<forall>t. (m = Some (None, t) \<longrightarrow> silent s t) \<and> (m = Some (Some None, t) \<longrightarrow> warned s t))"

lemma honest_gates:
  "honest s (security_gate (NewPodSecurityPolicyVerifier k m rule) csi c account s)"
  "honest s (security_gate (NewSecurityContextConstraintsVerifier k m rules) csi c account s)"
  unfolding honest_def
  by (intro conjI allI impI; erule psp.gate_cases scc.gate_cases; simp add: warned_def new_events_def)+

lemma honest_results: "honest s (Some (None, s))" "honest s None"
  by (simp_all add: honest_def)

lemma honest_pure: "(\<And>x. honest s (f x)) \<Longrightarrow> honest s (p \<bind> f)"
  by (cases p) (simp_all add: honest_results)

lemma past_gate:
  assumes "m \<bind> (\<lambda>(early, u). case early of Some err \<Rightarrow> Some (err, u) | None \<Rightarrow> rest u) = Some (None, t)"
    and "honest s m" "\<not> warned s t"
  obtains u where "silent s u" "rest u = Some (None, t)" "\<not> warned u t"
proof -
  from assms have "\<exists>u. m = Some (None, u) \<and> rest u = Some (None, t)"
    by (auto simp: honest_def split: Option.bind_splits option.splits)
  with assms(2,3) that show ?thesis by (auto simp: honest_def warned_def new_events_def)
qed

lemma node_Update_passed:
  assumes "node_Update k (node_psp k op) (node_scc k op) sv ps order csi s = Some (None, t)" and "\<not> warned s t"
  shows "\<exists>u. silent s u \<and> node_deploy k sv ps order csi u = Some (None, t)"
  using assms(1) unfolding node_Update_def
proof (rule past_gate [OF _ _ assms(2)], goal_cases)
  case 1
  show ?case by (simp add: honest_results honest_pure honest_gates node_scc_def)
next
  case (2 u)
  then obtain nd where nd: "spec_node csi = Some nd" by (auto split: Option.bind_splits)
  from 2(2) [unfolded nd bind.simps] show ?case
  proof (rule past_gate [OF _ _ 2(3)], goal_cases)
    case 1
    show ?case by (simp add: honest_results honest_gates node_psp_def split: option.split)
  next
    case (2 v)
    with \<open>silent s u\<close> show ?case by auto
  qed
qed

lemma extender_Update_passed:
  assumes "extender_Update k (extender_psp k op) (extender_scc k op) csi s = Some (None, t)" and "\<not> warned s t"
  shows "\<exists>u. silent s u \<and> extender_deploy k csi u = Some (None, t)"
  using assms(1) unfolding extender_Update_def
proof (rule past_gate [OF _ _ assms(2)], goal_cases)
  case 1
  show ?case by (simp add: honest_results honest_pure honest_gates extender_scc_def)
next
  case (2 u)
  then obtain sch where sch: "sp_Scheduler (dep_Spec csi) = Some sch" by (auto split: Option.bind_splits)
  from 2(2) [unfolded sch bind.simps] show ?case
  proof (rule past_gate [OF _ _ 2(3)], goal_cases)
    case 1
    show ?case by (simp add: honest_results honest_gates extender_psp_def split: option.split)
  next
    case (2 v)
    with \<open>silent s u\<close> show ?case by auto
  qed
qed

lemma extender_deploy_current:
  assumes "truthful (k_DaemonSets k) ds_Meta look (daemonsetChanged k)" "extender_deploy k csi s = Some (None, t)"
  shows "\<exists>d. expected_extender k csi = Some d \<and> daemonset_current k (look (world t)) d"
proof -
  from assms(2) obtain d where "expected_extender k csi = Some d" "UpdateDaemonSet k d s = Some (None, t)"
    by (auto simp: extender_deploy_def expected_extender_def split: Option.bind_splits sum.splits)
  with dss.converges [OF _ assms(1)] show ?thesis by (auto simp: daemonset_current_def)
qed

section \<open>The driver is installed\<close>

definition installed ::
  "'w cluster \<Rightarrow> 'v operator \<Rightarrow> Deployment \<Rightarrow> (string \<Rightarrow> string \<Rightarrow> AppsDeployment option) \<Rightarrow>
   (string \<Rightarrow> string \<Rightarrow> DaemonSet option) \<Rightarrow> (string \<Rightarrow> string \<Rightarrow> CoreNode option) \<Rightarrow> bool" where
  "installed k op csi lookA lookD lookN \<longleftrightarrow>
     deployments_current k csi lookA
     \<and> (\<exists>d. expected_extender k csi = Some d \<and> daemonset_current k lookD d)
     \<and> nodes_served k csi (op_semver op) (op_platformOrder op) lookN lookD"

lemma daemonset_names:
  assumes "takes_ownership k csi" "expected_node_daemonset k csi sv p = Some d"
  shows "m_Name (ds_Meta d) \<noteq> extenderName" "m_Name (ds_Meta d) \<noteq> patcherName"
  using expected_node_daemonset_key [OF assms]
  by (auto simp: extenderName_def patcherName_def nodeName_def node_def extender_def patcher_def split: if_splits)

lemma extender_not_patcher: "extenderName \<noteq> patcherName"
  by (simp add: extenderName_def patcherName_def extender_def patcher_def)

lemma nodes_served_frame:
  assumes "nodes_served k csi sv ps lN lD" "takes_ownership k csi"
    and "\<forall>ns n. n \<noteq> x \<longrightarrow> lD' ns n = lD ns n" "x \<in> {extenderName, patcherName}"
  shows "nodes_served k csi sv ps lN lD'"
proof -
  have "daemonset_current k lD' d" if "expected_node_daemonset k csi sv p = Some d" "daemonset_current k lD d" for p d
  proof -
    have "m_Name (ds_Meta d) \<noteq> x" using daemonset_names [OF assms(2) that(1)] assms(4) by auto
    with assms(3) have "lD' ns (m_Name (ds_Meta d)) = lD ns (m_Name (ds_Meta d))" for ns
      by simp
    with that(2) show ?thesis by (simp add: daemonset_current_def)
  qed
  with assms(1) show ?thesis unfolding nodes_served_def by meson
qed

lemma csi_Update_success:
  assumes "csi_Update k op csi p s = Some (None, q, t)"
  obtains s1 s2 s3 s4 where "node_controller_Update k csi s = Some (None, s1)"
    "node_Update k (node_psp k op) (node_scc k op) (op_semver op) (op_platformOrder op) (op_deployOrder op) csi s1
      = Some (None, s2)"
    "controller_Update k csi s2 = Some (None, s3)"
    "extender_Update k (extender_psp k op) (extender_scc k op) csi s3 = Some (None, s4)"
    "patcher_Update k (patcher_psp k op) csi p s4 = Some (None, q, t)"
  using assms by (auto simp: csi_Update_def split: Option.bind_splits option.splits)

text \<open>Nothing after the node component takes its work back.\<close>

lemma nodes_stay_served:
  assumes api: "daemonset_store k lookD" "node_store k lookN" and own: "takes_ownership k csi"
    and c: "controller_Update k csi s2 = Some (c3, s3)"
    and e: "extender_Update k (extender_psp k op) (extender_scc k op) csi s3 = Some (c4, s4)"
    and p: "patcher_Update k (patcher_psp k op) csi p s4 = Some (c5, q, t)"
    and served: "nodes_served k csi sv ps (lookN (world s2)) (lookD (world s2))"
  shows "nodes_served k csi sv ps (lookN (world t)) (lookD (world t))"
proof -
  have keys: "owner_keeps_key k csi" using own by (simp add: takes_ownership_def)
  have n: "undisturbed k K_CoreNode lookN" and d: "undisturbed k K_DaemonSet lookD"
    using api by (simp_all add: node_store_def daemonset_store_def)
  have N: "lookN (world t) = lookN (world s2)"
    using keep_flow(1) [OF n flow_controllers(1)] keep_flow(1) [OF n flow_middle(2) [where op = op]]
      keep_flow(2) [OF n flow_middle(3) [where op = op]] c e p
    by (simp add: keep2_def keep3_def same_view_def)
  have D3: "lookD (world s3) = lookD (world s2)"
    using keep_flow(1) [OF d flow_controllers(1)] c by (simp add: keep2_def same_view_def)
  have D4: "without extenderName lookD (world s4) = without extenderName lookD (world s3)"
    using keep_extender_Update [OF api(1) keys, where op = op] e by (simp add: keep2_def same_view_def)
  have D5: "without patcherName lookD (world t) = without patcherName lookD (world s4)"
    using keep_patcher_Update [OF api(1) keys, where op = op] p by (simp add: keep3_def same_view_def)
  have "nodes_served k csi sv ps (lookN (world s2)) (lookD (world s4))"
    by (rule nodes_served_frame [OF served own, where x = extenderName])
      (use D4 [unfolded without_same] D3 in simp_all)
  then have "nodes_served k csi sv ps (lookN (world s2)) (lookD (world t))"
    by (rule nodes_served_frame [OF _ own, where x = patcherName])
      (use D5 [unfolded without_same] in simp_all)
  with N show ?thesis by simp
qed

lemma extender_stays_current:
  assumes api: "daemonset_store k lookD" and keys: "owner_keeps_key k csi" and no: "\<not> warned s3 s4"
    and e: "extender_Update k (extender_psp k op) (extender_scc k op) csi s3 = Some (None, s4)"
    and p: "patcher_Update k (patcher_psp k op) csi p s4 = Some (c5, q, t)"
  shows "\<exists>d. expected_extender k csi = Some d \<and> daemonset_current k (lookD (world t)) d"
proof -
  from extender_Update_passed [OF e no] obtain v where "extender_deploy k csi v = Some (None, s4)" by blast
  from extender_deploy_current [OF api [unfolded daemonset_store_def, THEN conjunct1] this] obtain d where
    d: "expected_extender k csi = Some d" "daemonset_current k (lookD (world s4)) d" by blast
  have "without patcherName lookD (world t) = without patcherName lookD (world s4)"
    using keep_patcher_Update [OF api keys, where op = op] p by (simp add: keep3_def same_view_def)
  moreover have "m_Name (ds_Meta d) \<noteq> patcherName"
    using expected_extender_name [OF keys d(1)] extender_not_patcher by simp
  ultimately have "lookD (world t) ns (m_Name (ds_Meta d)) = lookD (world s4) ns (m_Name (ds_Meta d))" for ns
    by (metis without_def)
  with d show ?thesis by (auto simp: daemonset_current_def)
qed

lemma csi_Update_installs:
  assumes api: "deployment_store k lookA" "daemonset_store k lookD" "node_store k lookN"
    and own: "takes_ownership k csi" and orders: "platform_orders op"
    and run: "csi_Update k op csi p s = Some (None, q, t)" and no: "\<not> warned s t"
  shows "installed k op csi (lookA (world t)) (lookD (world t)) (lookN (world t))"
proof -
  have keys: "owner_keeps_key k csi" using own by (simp add: takes_ownership_def)
  note A = api(1) [unfolded deployment_store_def]
  from run obtain s1 s2 s3 s4 where
    1: "node_controller_Update k csi s = Some (None, s1)" and
    2: "node_Update k (node_psp k op) (node_scc k op) (op_semver op) (op_platformOrder op) (op_deployOrder op) csi s1
      = Some (None, s2)" and
    3: "controller_Update k csi s2 = Some (None, s3)" and
    4: "extender_Update k (extender_psp k op) (extender_scc k op) csi s3 = Some (None, s4)" and
    5: "patcher_Update k (patcher_psp k op) csi p s4 = Some (None, q, t)"
    by (rule csi_Update_success)
  have g: "grows s s1" "grows s1 s2" "grows s2 s3" "grows s3 s4" "grows s4 t"
    by (rule flow_grow(1) [OF 1 flow_controllers(2) [OF UNIV_I]] flow_grow(1) [OF 2 flow_middle(1) [OF subset_UNIV]]
        flow_grow(1) [OF 3 flow_controllers(1) [OF UNIV_I]] flow_grow(1) [OF 4 flow_middle(2) [OF UNIV_I]]
        flow_grow(2) [OF 5 flow_middle(3) [OF subset_UNIV]])+
  have w: "\<not> warned s1 s2" "\<not> warned s3 s4"
    using no warned_middle g grows_trans by metis+
  from node_Update_passed [OF 2 w(1)] obtain u where
    u: "node_deploy k (op_semver op) (op_platformOrder op) (op_deployOrder op) csi u = Some (None, s2)" by blast
  have served: "nodes_served k csi (op_semver op) (op_platformOrder op) (lookN (world s2)) (lookD (world s2))"
    using node_deploy_serves_nodes [OF _ _ api(3,2) own u] orders by (simp add: platform_orders_def)
  from nodes_stay_served [OF api(2,3) own 3 4 5 served] extender_stays_current [OF api(2) keys w(2) 4 5]
    first_run_current [OF _ _ _ keys run] A
  show ?thesis by (auto simp: installed_def)
qed

lemma installed_by_deploy_phase:
  assumes api: "deployment_store k lookA" "daemonset_store k lookD" "node_store k lookN"
    and own: "takes_ownership k csi" and orders: "platform_orders op"
    and run: "deploy_phase k op csi p s = Some ((False, None), q, t)" and no: "\<not> warned s t"
  shows "installed k op csi (lookA (world t)) (lookD (world t)) (lookN (world t))"
proof -
  from run obtain u where c: "csi_Update k op csi p s = Some (None, q, u)"
    and r: "ReconcileNodes k csi u = Some (None, t)"
    by (auto simp: deploy_phase_def split: Option.bind_splits option.splits)
  have "grows s u" "grows u t"
    by (rule flow_grow(2) [OF c flow_csi_Update [OF subset_UNIV]] flow_grow(1) [OF r flow_ReconcileNodes [OF subset_UNIV]])+
  with no have "\<not> warned s u"
    using warned_middle [of s s u t] silent_grows by blast
  from csi_Update_installs [OF api own orders c this]
  have i: "installed k op csi (lookA (world u)) (lookD (world u)) (lookN (world u))" .
  have "undisturbed k K_AppsDeployment lookA" "undisturbed k K_DaemonSet lookD" "undisturbed k K_CoreNode lookN"
    using api by (simp_all add: deployment_store_def daemonset_store_def node_store_def)
  note k = this [THEN keep_flow(1), OF flow_ReconcileNodes]
  from k r have "lookA (world t) = lookA (world u)" "lookD (world t) = lookD (world u)" "lookN (world t) = lookN (world u)"
    by (simp_all add: keep2_def same_view_def)
  with i show ?thesis by simp
qed

text \<open>C4. A reconciliation that reports success has installed the driver. Let \<open>Reconcile\<close> of a live
  custom resource end without error and without a request to run again, and without a
  security warning. Then both deployments and the daemonset of the scheduler extender are in
  the cluster and up to date, every node that the node selector picks carries the label of
  the platform of its kernel, the daemonset of that platform is up to date, and exactly this
  one of the node daemonsets runs on the node. Nothing a later component does in the same
  run, failed requests included, undoes it. This is under the following conditions. The API
  servers for deployments, daemonsets and nodes store what they accept, answer reads and
  lists with what they store, not with something outdated, and keep kinds and keys apart, and
  during the run nobody else writes these three kinds. The owner reference on the custom
  resource can be set on every new object in its namespace, and setting it keeps the
  namespace and the name; where it cannot be set, a daemonset of the nodes is skipped and
  success is reported all the same. And the orders in which the map of platforms is
  iterated name all platforms.\<close>

theorem Reconcile_installs:
  assumes api: "deployment_store k lookA" "daemonset_store k lookD" "node_store k lookN"
    and own: "\<forall>csi. takes_ownership k csi" and orders: "platform_orders op"
    and read: "kget (k_CsiDeployments k) ns name s = Some (Inr d, s1)" and live: "deletion_IsZero d"
    and run: "Reconcile k op ns name p s = Some ((False, None), q, t)"
    and quiet: "\<forall>reason account. Emitted reason account \<notin> set (new_events s t)"
  shows "\<exists>csi. (if containsFinalizer d then csi = d
       else \<exists>u. kupdate (k_CsiDeployments k) O_Deployment
         (with_finalizers d (dep_Finalizers d @ [csiFinalizer])) s1 = Some (Inr csi, u))
     \<and> installed k op csi (lookA (world t)) (lookD (world t)) (lookN (world t))"
proof -
  have no: "\<not> warned s t" using quiet by (simp add: warned_def)
  from run read live obtain csi u where
    csi: "if containsFinalizer d then csi = d \<and> u = s1
       else kupdate (k_CsiDeployments k) O_Deployment
         (with_finalizers d (dep_Finalizers d @ [csiFinalizer])) s1 = Some (Inr csi, u)"
    and dep: "deploy_phase k op csi p u = Some ((False, None), q, t)"
    by (cases "containsFinalizer d") (auto simp: Reconcile_def Let_def split: Option.bind_splits sum.splits)
  have "grows s u" "grows u t"
  proof -
    show "grows u t" by (rule calls_grow [OF deploy_phase_calls [OF dep]])
    show "grows s u" using csi kget_silent [OF read] by (auto simp: grows_def dest: kupdate_trace split: if_splits)
  qed
  with no have "\<not> warned u t" using warned_middle [of s u t t] by (auto simp: grows_def)
  from installed_by_deploy_phase [OF api spec [OF own] orders dep this] csi show ?thesis
    by (intro exI [of _ csi]) (auto split: if_splits)
qed

section \<open>A deletion that is undone\<close>

lemma deployments_by_deploy_phase:
  assumes api: "deployment_store k look" and own: "owner_keeps_key k csi"
    and run: "deploy_phase k op csi p s = Some ((False, None), q, t)"
  shows "deployments_current k csi (look (world t))" "\<forall>e \<in> set (new_events s t). event_kind e \<noteq> Some K_Deployment"
proof -
  from run obtain u where c: "csi_Update k op csi p s = Some (None, q, u)"
    and r: "ReconcileNodes k csi u = Some (None, t)"
    by (auto simp: deploy_phase_def split: Option.bind_splits option.splits)
  have A: "truthful (k_Deployments k) ad_Meta look (deploymentChanged k)"
    "isolated (k_Deployments k) ad_Meta look" "undisturbed k K_AppsDeployment look"
    using api by (simp_all add: deployment_store_def)
  have "look (world t) = look (world u)"
    using keep_flow(1) [OF A(3) flow_ReconcileNodes] r by (simp add: keep2_def same_view_def)
  with first_run_current [OF A own c] show "deployments_current k csi (look (world t))" by simp
  show "\<forall>e \<in> set (new_events s t). event_kind e \<noteq> Some K_Deployment"
    using calls_writes [OF deploy_phase_calls [OF run]] by (auto simp: touches_def dest!: emits_new_events)
qed

text \<open>C40. A deletion can be undone by the operator itself. Let the custom resource that is read have
  its deletion time set and no finalizer that contains the text of the operator's, as after
  the release when finalizers of others still keep the resource there. If then the
  reconciliation ends without error, both deployments of the driver are in the cluster and
  up to date (given an API server for deployments that stores what it accepts and answers
  reads with it, no other writer of deployments, and owner references that keep namespaces and
  names), and the run has written no custom resource: the finalizer is not put back, so
  nothing uninstalls this deployment again.\<close>

theorem released_resource_is_deployed_again:
  assumes api: "deployment_store k look" and own: "owner_keeps_key k d"
    and read: "kget (k_CsiDeployments k) ns name s = Some (Inr d, s1)"
    and deleted: "\<not> deletion_IsZero d" and released: "\<forall>f \<in> set (dep_Finalizers d). \<not> sublist csiFinalizer f"
    and run: "Reconcile k op ns name p s = Some ((False, None), q, t)"
  shows "deployments_current k d (look (world t))
    \<and> (\<forall>e \<in> set (new_events s t). event_kind e \<noteq> Some K_Deployment)"
proof -
  have "\<not> containsFinalizer d" using released by (simp add: containsFinalizer_def any_contains_iff)
  with run read deleted have dep: "deploy_phase k op d p s1 = Some ((False, None), q, t)"
    by (simp add: Reconcile_def)
  note D = deployments_by_deploy_phase [OF api own dep]
  have "new_events s t = new_events s1 t" using kget_silent [OF read] by (simp add: new_events_def)
  with D show ?thesis by simp
qed

section \<open>Witnesses\<close>

theorem Reconcile_installs_witness:
  "\<exists>t. Reconcile site_cluster site_op ''ns'' ''csi'' new_patcher (start site_start) = Some ((False, None), new_patcher, t)
     \<and> installed site_cluster site_op site_csi (look_apps (world t)) (look_sets (world t)) (look_nodes (world t))"
proof -
  obtain t where t: "Reconcile site_cluster site_op ''ns'' ''csi'' new_patcher (start site_start)
      = Some ((False, None), new_patcher, t)" and c: "calm (start site_start) t"
    using site_run by blast
  have read: "kget (k_CsiDeployments site_cluster) ''ns'' ''csi'' (start site_start) = Some (Inr site_csi, start site_start)"
    by (simp add: site_clients)
  have f: "containsFinalizer site_csi" and live: "deletion_IsZero site_csi"
    by (simp_all add: site_csi_def containsFinalizer_def deletion_IsZero_def object_meta_def strings_Contains_iff)
  have quiet: "\<forall>reason account. Emitted reason account \<notin> set (new_events (start site_start) t)"
    using emits_new_events [OF c [unfolded calm_def]] by fastforce
  from Reconcile_installs [OF site_stores allI [OF site_owner] site_orders read live t quiet] f t
  show ?thesis by auto
qed

lemma plain_reconcile:
  "\<exists>t. Reconcile plain_cluster plain_op ''ns'' ''csi'' new_patcher (start (\<lambda>_. None)) = Some ((False, None), new_patcher, t)"
proof -
  obtain u where u: "csi_Update plain_cluster plain_op plain_csi new_patcher (start (\<lambda>_. None)) = Some (None, new_patcher, u)"
    using plain_run by blast
  have "ReconcileNodes plain_cluster plain_csi u = Some (None, u)"
    by (simp add: ReconcileNodes_def node_ops_reconcile_def GetSelectedNodes_def handleNodeRemoval_def
        handleNodeMaintenance_def removeNodes_def join_errors_def plain_cluster_def ad_cluster_def)
  with u have "deploy_phase plain_cluster plain_op plain_csi new_patcher (start (\<lambda>_. None)) = Some ((False, None), new_patcher, u)"
    by (simp add: deploy_phase_def)
  moreover have "\<not> deletion_IsZero plain_csi" "\<not> containsFinalizer plain_csi"
    by (simp_all add: plain_csi_def deletion_IsZero_def containsFinalizer_def csiFinalizer_def)
  moreover have "kget (k_CsiDeployments plain_cluster) ''ns'' ''csi'' s = Some (Inr plain_csi, s)" for s
    by (simp add: plain_cluster_def)
  ultimately show ?thesis by (simp add: Reconcile_def)
qed

theorem released_resource_is_deployed_again_witness:
  "\<exists>t. Reconcile plain_cluster plain_op ''ns'' ''csi'' new_patcher (start (\<lambda>_. None)) = Some ((False, None), new_patcher, t)
     \<and> \<not> deletion_IsZero plain_csi \<and> deployments_current plain_cluster plain_csi (stored ad_Meta (world t))"
proof -
  obtain t where t: "Reconcile plain_cluster plain_op ''ns'' ''csi'' new_patcher (start (\<lambda>_. None))
      = Some ((False, None), new_patcher, t)" using plain_reconcile by blast
  have store: "deployment_store plain_cluster (stored ad_Meta)"
    using plain_cluster_laws by (simp add: deployment_store_def)
  have read: "kget (k_CsiDeployments plain_cluster) ''ns'' ''csi'' (start (\<lambda>_. None)) = Some (Inr plain_csi, start (\<lambda>_. None))"
    by (simp add: plain_cluster_def)
  have d: "\<not> deletion_IsZero plain_csi" by (simp add: plain_csi_def deletion_IsZero_def)
  have "\<not> strings_Contains ''foregroundDeletion'' csiFinalizer" by (simp add: csiFinalizer_def)
  then have f: "\<forall>f \<in> set (dep_Finalizers plain_csi). \<not> sublist csiFinalizer f"
    by (simp add: plain_csi_def strings_Contains_iff)
  from released_resource_is_deployed_again [OF store plain_cluster_laws(4) read d f t] t d
  show ?thesis by blast
qed

end
