(* ===== verification/Crash.thy ===== *)
theory Crash
  imports Lifecycle
begin

text \<open>
  A crash of the operator in the middle of a run. \<open>crashing k\<close> is the cluster \<open>k\<close> with a number
  of calls the operator may still make and a flag. When the number is used up and the flag is
  set, one more request reaches the API server, but its answer is lost; after that every
  request is refused and changes nothing, so the world stays as it was when the operator
  stopped. A step of the users may set number and flag anew, and \<open>restart\<close> gives the operator
  a fresh state.
\<close>

section \<open>Clusters that may be cut off\<close>

type_synonym 'w cuttable = "'w \<times> nat \<times> bool"

definition cut :: "'r \<Rightarrow> ('w \<Rightarrow> 'r \<times> 'w) \<Rightarrow> 'w cuttable \<Rightarrow> 'r \<times> 'w cuttable" where
  "cut refused f wn =
     (case wn of
        (w, 0, lost) \<Rightarrow> (refused, (if lost then snd (f w) else w, 0, False))
      | (w, Suc n, lost) \<Rightarrow> (case f w of (r, w') \<Rightarrow> (r, (w', n, lost))))"

definition cut_client :: "('o, 'w) kclient \<Rightarrow> ('o, 'w cuttable) kclient" where
  "cut_client c = \<lparr>
     kc_get = (\<lambda>ns n. cut (Inl (False, ''connection refused'')) (kc_get c ns n)),
     kc_list = (\<lambda>opts. cut (Inl (False, ''connection refused'')) (kc_list c opts)),
     kc_create = (\<lambda>x. cut (Inl (False, ''connection refused'')) (kc_create c x)),
     kc_update = (\<lambda>x. cut (Inl (False, ''connection refused'')) (kc_update c x)),
     kc_delete = (\<lambda>ns n. cut (Some (False, ''connection refused'')) (kc_delete c ns n))\<rparr>"

definition crashing :: "'w cluster \<Rightarrow> ('w cuttable) cluster" where
  "crashing k = \<lparr>
     k_ConfigMaps = cut_client (k_ConfigMaps k), k_DaemonSets = cut_client (k_DaemonSets k),
     k_Deployments = cut_client (k_Deployments k), k_Nodes = cut_client (k_Nodes k),
     k_Pods = cut_client (k_Pods k), k_Roles = cut_client (k_Roles k),
     k_RoleBindings = cut_client (k_RoleBindings k), k_CsibmNodes = cut_client (k_CsibmNodes k),
     k_Drives = cut_client (k_Drives k), k_ACs = cut_client (k_ACs k), k_LVGs = cut_client (k_LVGs k),
     k_Volumes = cut_client (k_Volumes k), k_ACRs = cut_client (k_ACRs k),
     k_Schedulers = cut_client (k_Schedulers k), k_SecondarySchedulers = cut_client (k_SecondarySchedulers k),
     k_CsiDeployments = cut_client (k_CsiDeployments k),
     k_ServerVersion = cut (Inl (False, ''connection refused'')) (k_ServerVersion k),
     k_HTTPGet = (\<lambda>url. cut (Inl ''connection refused'') (k_HTTPGet k url)),
     k_Now = cut 0 (k_Now k),
     k_After = (\<lambda>d wn. snd (cut () (\<lambda>w. ((), k_After k d w)) wn)),
     k_Eventf = (\<lambda>csi reason account wn. snd (cut () (\<lambda>w. ((), k_Eventf k csi reason account w)) wn)),
     lib_SetControllerReference = lib_SetControllerReference k,
     lib_EqualReplicas = lib_EqualReplicas k, lib_EqualSelector = lib_EqualSelector k,
     lib_EqualTemplate = lib_EqualTemplate k, lib_YamlReadiness = lib_YamlReadiness k\<rparr>"

text \<open>The system without the counter.\<close>

definition inner :: "'w cuttable sys \<Rightarrow> 'w sys" where
  "inner s = \<lparr>world = fst (world s), trace = trace s\<rparr>"

lemma inner_simps [simp]: "world (inner s) = fst (world s)" "trace (inner s) = trace s"
  by (simp_all add: inner_def)

text \<open>What reaches the API server: nothing, or the request itself, whatever is answered.\<close>

definition reached :: "'w cuttable sys \<Rightarrow> 'w cuttable sys \<Rightarrow> ('w sys \<Rightarrow> bool) \<Rightarrow> bool" where
  "reached s t P \<longleftrightarrow> fst (world t) = fst (world s) \<or> (\<exists>t'. P t' \<and> world t' = fst (world t))"

lemma reached_mono: "reached s t P \<Longrightarrow> (\<And>t'. P t' \<Longrightarrow> Q t') \<Longrightarrow> reached s t Q"
  by (auto simp: reached_def)

lemma cut_cases:
  assumes "in_world (cut e f) s = (r, t)"
  obtains (refused) "r = e" "fst (world t) = fst (world s)"
  | (arrived) r' t' where "in_world f (inner s) = (r', t')" "world t' = fst (world t)" "r = r' \<or> r = e"
proof -
  obtain w n l where "world s = (w, n, l)" by (cases "world s")
  with assms that show ?thesis
    by (cases n; cases l; cases "f w") (auto simp: in_world_def cut_def inner_def)
qed

lemma cut_get_value:
  "kget (cut_client c) ns n s = Some (Inr d, t) \<Longrightarrow> \<exists>t'. kget c ns n (inner s) = Some (Inr d, t')"
  unfolding kget_def cut_client_def
  by (auto elim!: cut_cases split: prod.splits)

lemma cut_update:
  assumes "kupdate (cut_client c) mk x s = Some (r, t)"
  obtains (refused) e where "r = Inl e" "fst (world t) = fst (world s)"
  | (arrived) r' t' where "kupdate c mk x (inner s) = Some (r', t')" "world t' = fst (world t)" "r = r' \<or> (\<exists>e. r = Inl e)"
proof -
  from assms obtain r0 t0 where c: "in_world (cut (Inl (False, ''connection refused'')) (kc_update c x)) s = (r0, t0)"
    and r: "r = api_res r0" "world t = world t0"
    by (auto simp: kupdate_def cut_client_def split: prod.splits)
  from c show ?thesis
  proof (cases rule: cut_cases)
    case refused
    with r that(1) show ?thesis by simp
  next
    case (arrived r' t')
    then have "kupdate c mk x (inner s) = Some (api_res r', log_event (Updated (mk x) (err_of (api_res r'))) t')"
      by (simp add: kupdate_def)
    from that(2) [OF this] arrived(2,3) r show ?thesis by auto
  qed
qed

lemma cut_reached:
  "in_world (cut e f) s = (r, t) \<Longrightarrow> reached s t (\<lambda>t'. \<exists>r'. in_world f (inner s) = (r', t'))"
  by (erule cut_cases) (auto simp: reached_def)

lemma cut_get: "kget (cut_client c) ns n s = Some (r, t) \<Longrightarrow> reached s t (\<lambda>t'. \<exists>r'. kget c ns n (inner s) = Some (r', t'))"
  unfolding kget_def cut_client_def
  by (auto split: prod.splits dest!: cut_reached intro: reached_mono)

lemma cut_list: "klist (cut_client c) opts s = Some (r, t) \<Longrightarrow> reached s t (\<lambda>t'. \<exists>r'. klist c opts (inner s) = Some (r', t'))"
  unfolding klist_def cut_client_def
  by (auto split: prod.splits dest!: cut_reached intro: reached_mono)

lemma reached_log: "reached s t P \<Longrightarrow> (\<And>t'. P t' \<Longrightarrow> \<exists>e. Q (log_event e t')) \<Longrightarrow> reached s (log_event e' t) Q"
  unfolding reached_def by fastforce

lemma cut_create:
  "kcreate (cut_client c) mk x s = Some (r, t) \<Longrightarrow> reached s t (\<lambda>t'. \<exists>r'. kcreate c mk x (inner s) = Some (r', t'))"
  unfolding kcreate_def cut_client_def
  by (auto split: prod.splits dest!: cut_reached intro: reached_log)

lemma cut_update':
  "kupdate (cut_client c) mk x s = Some (r, t) \<Longrightarrow> reached s t (\<lambda>t'. \<exists>r'. kupdate c mk x (inner s) = Some (r', t'))"
  unfolding kupdate_def cut_client_def
  by (auto split: prod.splits dest!: cut_reached intro: reached_log)

lemma cut_delete:
  "kdelete (cut_client c) kd ns n s = Some (r, t) \<Longrightarrow> reached s t (\<lambda>t'. \<exists>r'. kdelete c kd ns n (inner s) = Some (r', t'))"
  unfolding kdelete_def cut_client_def
  by (auto split: prod.splits dest!: cut_reached intro: reached_log)

lemma cut_client_call: "client_call (cut_client c) mk kd K s t \<Longrightarrow> reached s t (client_call c mk kd K (inner s))"
  unfolding client_call_def
  by (elim disjE exE conjE; drule cut_get cut_list cut_create cut_update' cut_delete; erule reached_mono; blast)

lemma cut_silent:
  "fst (snd (cut () (\<lambda>w. ((), f w)) wn)) = fst wn \<or> fst (snd (cut () (\<lambda>w. ((), f w)) wn)) = f (fst wn)"
proof -
  obtain w n l where "wn = (w, n, l)" by (cases wn)
  then show ?thesis by (cases n) (simp_all add: cut_def)
qed

lemma cut_other_call:
  assumes "other_call (crashing k) s t"
  shows "reached s t (other_call k (inner s))"
  using assms [unfolded other_call_def]
proof (elim disjE exE conjE)
  fix r u url ok
  assume "in_world (k_HTTPGet (crashing k) url) s = (r, u)" and t: "t = log_event (Probed url ok) u"
  then have "reached s u (\<lambda>u'. \<exists>r'. in_world (k_HTTPGet k url) (inner s) = (r', u'))"
    by (auto simp: crashing_def dest!: cut_reached)
  then show ?thesis unfolding t by (rule reached_log) (unfold other_call_def, blast)
next
  fix r d
  assume "pause (crashing k) d s = Some (r, t)"
  with cut_silent [of "k_After k d" "world s"] show ?thesis
    unfolding reached_def other_call_def pause_def crashing_def by fastforce
next
  fix r csi reason a
  assume "eventf (crashing k) csi reason a s = Some (r, t)"
  with cut_silent [of "k_Eventf k csi reason a" "world s"] show ?thesis
    unfolding reached_def other_call_def eventf_def crashing_def by fastforce
qed (auto simp: crashing_def other_call_def dest!: cut_reached elim!: reached_mono)

lemma cut_one_call: "one_call (crashing k) K s t \<Longrightarrow> reached s t (one_call k K (inner s))"
  unfolding one_call_def
  by (elim disjE) (auto simp: crashing_def dest!: cut_client_call cut_other_call [unfolded crashing_def] elim!: reached_mono)

lemma crashing_versions:
  assumes "api_versions k ns name cr"
  shows "api_versions (crashing k) ns name (\<lambda>w. cr (fst w))"
proof -
  have c: "k_CsiDeployments (crashing k) = cut_client (k_CsiDeployments k)" by (simp add: crashing_def)
  show ?thesis
    unfolding api_versions_def c
  proof (intro conjI allI impI)
    fix K s t
    assume "K_Deployment \<notin> K" "one_call (crashing k) K s t"
    moreover from this(1) have "one_call k K u v \<Longrightarrow> user_changes (cr (world u)) (cr (world v))" for u v
      using assms unfolding api_versions_def by blast
    ultimately show "user_changes (cr (fst (world s))) (cr (fst (world t)))"
      by (auto simp: reached_def dest!: cut_one_call) (metis inner_simps(1))
  next
    fix s d t
    assume "kget (cut_client (k_CsiDeployments k)) ns name s = Some (Inr d, t)"
    then obtain t' where "kget (k_CsiDeployments k) ns name (inner s) = Some (Inr d, t')"
      by (auto dest!: cut_get_value)
    with assms show "only_ours (Some d)" "dep_Namespace d = ns" "dep_Name d = name"
      unfolding api_versions_def by blast+
  next
    fix x s r t
    assume x: "dep_Namespace x = ns" "dep_Name x = name"
      and "kupdate (cut_client (k_CsiDeployments k)) O_Deployment x s = Some (r, t)"
    from this(3) show "err_of r \<noteq> None \<and> user_changes (cr (fst (world s))) (cr (fst (world t)))
        \<or> applied x (cr (fst (world s))) (cr (fst (world t)))"
    proof (cases rule: cut_update)
      case (arrived r' t')
      from api_versions_update [OF assms x arrived(1)] show ?thesis
        using arrived(2,3) by (cases) auto
    qed simp
  qed
qed

section \<open>The life cycle with crashes\<close>

text \<open>C5. A crash at any request does no harm: let the operator be cut off after any number of calls,
  in the middle of deploying or of uninstalling, with the request it was waiting for performed
  or not, restart with a fresh state, and be cut off again, any number of times and
  interleaved with users. The custom resource still only moves along the steps of its life
  cycle, and unless some run was misled by an outdated read, whenever the resource is gone or
  not held by the finalizer nothing of the driver has been written since the last request for
  the release. The API server without the crashes is one of which \<open>api_versions\<close> holds: reads may
  be outdated, but every version read has the key that was asked for and no finalizers but the
  operator's, updates of the resource are applied only to the version they were made from, one
  answered with success was applied, and only the operator adds or removes finalizers.\<close>

theorem crashes_keep_lifecycle:
  assumes api: "api_versions k ns name cr" and ours: "only_ours (cr (fst (world s0)))"
    and run: "op_history (crashing k) op ns name (\<lambda>w. cr (fst w)) (p0, s0) misled (p, s)" and init: "trace s0 = []"
  shows "(life misled)\<^sup>*\<^sup>* (phase_of (cr (fst (world s0))), False) (phase_of (cr (fst (world s))), \<not> clean (trace s))
    \<and> (\<not> misled \<longrightarrow> \<not> held (cr (fst (world s))) \<longrightarrow> (\<forall>e \<in> set (since_release (trace s)). \<not> driver_write e))"
proof -
  from history_lives [OF crashing_versions [OF api] _ run] ours
  have l: "lives misled (life_of (\<lambda>w. cr (fst w)) s0) (life_of (\<lambda>w. cr (fst w)) s)"
    and o: "only_ours (cr (fst (world s)))" by simp_all
  have z: "life_of (\<lambda>w. cr (fst w)) s0 = (phase_of (cr (fst (world s0))), False)"
    using init by (simp add: life_of_def)
  have "(life misled)\<^sup>*\<^sup>* (phase_of (cr (fst (world s0))), False) (phase_of (cr (fst (world s))), \<not> clean (trace s))"
    using l z by (simp add: life_of_def)
  moreover have "\<not> misled \<longrightarrow> \<not> held (cr (fst (world s))) \<longrightarrow> (\<forall>e \<in> set (since_release (trace s)). \<not> driver_write e)"
  proof (intro impI)
    assume m: "\<not> misled" and "\<not> held (cr (fst (world s)))"
    with o have "phase_of (cr (fst (world s))) \<in> {Absent, Fresh}"
      by (cases "cr (fst (world s))") (auto simp: phase_simps held_def only_ours_def)
    with lives_safe [of "life_of (\<lambda>w. cr (fst w)) s0" "life_of (\<lambda>w. cr (fst w)) s"] l z m have "clean (trace s)"
      by (simp add: life_of_def)
    then show "\<forall>e \<in> set (since_release (trace s)). \<not> driver_write e" by (simp add: clean_def)
  qed
  ultimately show ?thesis by blast
qed

section \<open>Witness\<close>

text \<open>The operator stops after reading a resource that is being deleted; it comes back and removes
  the finalizer, but is cut off again before the answer arrives.\<close>

abbreviation cut_cr :: "Deployment option cuttable \<Rightarrow> Deployment option" where
  "cut_cr \<equiv> (\<lambda>w. fst w)"

definition cut_world :: "nat \<Rightarrow> bool \<Rightarrow> Deployment option cuttable sys" where
  "cut_world n lost = start (Some held_csi, n, lost)"

abbreviation release_request :: "Deployment" where
  "release_request \<equiv> with_finalizers held_csi []"

lemma cut_client_of: "k_CsiDeployments (crashing cr_cluster) = cut_client cr_client"
  by (simp add: crashing_def cr_cluster_def)

lemma cut_read:
  "world s = (w, Suc n, l) \<Longrightarrow>
   kget (cut_client cr_client) ''ns'' ''csi'' s = Some (Inr held_csi, s\<lparr>world := (w, n, l)\<rparr>)"
  by (simp add: kget_def in_world_def cut_client_def cut_def cr_client_def)

lemma cut_nodes:
  "world s = (w, Suc n, l) \<Longrightarrow>
   klist (k_Nodes (crashing cr_cluster)) list_all_objects s = Some (Inr [], s\<lparr>world := (w, n, l)\<rparr>)"
  "world s = (w, 0, False) \<Longrightarrow>
   klist (k_Nodes (crashing cr_cluster)) list_all_objects s = Some (Inl (ApiError False ''connection refused''), s)"
  by (cases s; simp add: klist_def in_world_def crashing_def cut_client_def cut_def cr_cluster_def canned_def api_err_def)+

lemma cut_release:
  assumes "world s = (Some held_csi, 0, l)"
  shows "kupdate (cut_client cr_client) O_Deployment release_request s =
     Some (Inl (ApiError False ''connection refused''), log_event
       (Updated (O_Deployment release_request) (Some (ApiError False ''connection refused'')))
       (s\<lparr>world := (if l then None else Some held_csi, 0, False)\<rparr>))"
proof -
  have "release_request = with_finalizers held_csi (dep_Finalizers release_request)"
    by (simp add: with_finalizers_def)
  with assms show ?thesis
    by (cases s) (simp add: kupdate_def in_world_def cut_client_def cut_def cr_client_def held_csi_facts api_err_def)
qed

lemma cut_uninstall_refused:
  assumes "world s = (w, 0, False)"
  shows "\<exists>e. csi_Uninstall (crashing cr_cluster) op held_csi p s = Some (Some e, p, s)"
proof -
  have "IsPatchingEnabled held_csi \<noteq> None"
    by (simp add: IsPatchingEnabled_def spec_patcher_def held_csi_def example_csi_def example_scheduler_def)
  then obtain b where "IsPatchingEnabled held_csi = Some b" by blast
  with cut_nodes(2) [OF assms] show ?thesis
    by (simp add: csi_Uninstall_def patcher_Uninstall_def held_csi_facts node_Uninstall_def cleanNodeLabels_def
        join_errors_def)
qed

text \<open>Either run ends with the request for the release that is not answered.\<close>

lemma cut_run:
  assumes "world s = (Some held_csi, if l then 2 else 1, l)"
  shows "\<exists>t e. Reconcile (crashing cr_cluster) op ''ns'' ''csi'' p s = Some ((True, Some e), p, t)
     \<and> world t = (if l then None else Some held_csi, 0, False)
     \<and> trace t = trace s @ [Updated (O_Deployment release_request) (Some e)]"
proof (cases l)
  case True
  let ?s = "\<lambda>n. s\<lparr>world := (Some held_csi, n, True)\<rparr>"
  have "csi_Uninstall (crashing cr_cluster) op held_csi p (?s 1) = Some (None, p, ?s 0)"
    using cut_nodes(1) [of "?s 1" "Some held_csi" 0 True] by (intro held_csi_uninstall) simp
  with cut_read [of s "Some held_csi" 1 l] cut_release [of "?s 0" True] assms True show ?thesis
    by (simp add: Reconcile_def cut_client_of held_csi_facts numeral_2_eq_2 log_event_def)
next
  case False
  let ?s = "s\<lparr>world := (Some held_csi, 0, False)\<rparr>"
  obtain e where "csi_Uninstall (crashing cr_cluster) op held_csi p ?s = Some (Some e, p, ?s)"
    using cut_uninstall_refused [of ?s "Some held_csi"] by auto
  with cut_read [of s "Some held_csi" 0 l] cut_release [of ?s False] assms False show ?thesis
    by (simp add: Reconcile_def cut_client_of held_csi_facts log_event_def)
qed

lemma cut_informed: "fst (world s) = Some held_csi \<Longrightarrow> \<not> outdated (crashing cr_cluster) ''ns'' ''csi'' cut_cr s"
proof
  assume w: "fst (world s) = Some held_csi" and "outdated (crashing cr_cluster) ''ns'' ''csi'' cut_cr s"
  then obtain d t where g: "kget (cut_client cr_client) ''ns'' ''csi'' s = Some (Inr d, t)"
    and o: "phase_of (fst (world t)) \<notin> (if deletion_IsZero d then {Managed, Terminating} else {Terminating})"
    unfolding outdated_def cut_client_of by blast
  have "fst (world t) = Some held_csi"
    using cut_get [OF g] w by (auto simp: reached_def cr_client_reads)
  with o show False by (simp add: held_csi_facts split: if_splits)
qed

lemma cut_history:
  "\<exists>t. op_history (crashing cr_cluster) example_op ''ns'' ''csi'' cut_cr (new_patcher, cut_world 1 False) False
       (new_patcher, t) \<and> fst (world t) = None"
proof -
  let ?k = "crashing cr_cluster"
  let ?H = "op_history ?k example_op ''ns'' ''csi'' cut_cr (new_patcher, cut_world 1 False) False"
  obtain t e where f: "Reconcile ?k (with_orders example_op [] []) ''ns'' ''csi'' new_patcher (cut_world 1 False)
      = Some ((True, Some e), new_patcher, t)" and t: "fst (world t) = Some held_csi"
    using cut_run [of "cut_world 1 False" False "with_orders example_op [] []" new_patcher]
    by (auto simp: cut_world_def)
  let ?u = "t\<lparr>world := (Some held_csi, 2 :: nat, True)\<rparr>"
  obtain v e' where g: "Reconcile ?k (with_orders example_op [] []) ''ns'' ''csi'' new_patcher ?u
      = Some ((True, Some e'), new_patcher, v)" and v: "fst (world v) = None"
    using cut_run [of ?u True "with_orders example_op [] []" new_patcher] by auto
  from op_history.run [where cr = cut_cr, OF op_history.start f] have "?H (new_patcher, t)"
    using cut_informed [of "cut_world 1 False"] by (simp add: cut_world_def)
  then have "?H (new_patcher, ?u)"
    by (rule op_history.between) (rule between_runs.users, simp_all add: t)
  from op_history.run [OF this g] have "?H (new_patcher, v)" using cut_informed [of ?u] by simp
  with v show ?thesis by blast
qed

theorem crashes_keep_lifecycle_witness:
  "\<exists>t. op_history (crashing cr_cluster) example_op ''ns'' ''csi'' cut_cr (new_patcher, cut_world 1 False) False
         (new_patcher, t)
     \<and> fst (world t) = None \<and> (life False)\<^sup>*\<^sup>* (Terminating, False) (Absent, \<not> clean (trace t))
     \<and> list_all (\<lambda>e. \<not> driver_write e) (since_release (trace t))"
proof -
  from cut_history obtain t where
    run: "op_history (crashing cr_cluster) example_op ''ns'' ''csi'' cut_cr (new_patcher, cut_world 1 False) False
       (new_patcher, t)" and t: "fst (world t) = None" by blast
  have "only_ours (fst (world (cut_world 1 False)))" by (simp add: cut_world_def held_csi_facts)
  from crashes_keep_lifecycle [where cr = "\<lambda>w. w", OF cr_cluster_versions this run] run t show ?thesis
    by (auto simp: cut_world_def held_csi_facts phase_simps(2) held_def list_all_iff)
qed

end
