(* ===== verification/Ownership.thy ===== *)
theory Ownership
  imports Lifecycle
begin

text \<open>
  What the operator creates, and who will remove it. An object that has the custom resource as
  its controlling owner is removed by the garbage collector of the cluster when the resource
  is gone; what has no owner the operator has to remove itself. The judgements \<open>creates1\<close> to
  \<open>creates4\<close> say of a computation which objects it may create; their rules are the
  collection \<open>creates\<close>.
\<close>

named_theorems creates "which objects an operation creates"

section \<open>Which objects a computation creates\<close>

definition creates_only :: "(obj \<Rightarrow> bool) \<Rightarrow> event \<Rightarrow> bool" where
  "creates_only Q e = (case e of Created x _ \<Rightarrow> Q x | _ \<Rightarrow> True)"

lemma creates_only_simps [simp]:
  "creates_only Q (Created x r) \<longleftrightarrow> Q x" "creates_only Q (Updated x r)" "creates_only Q (Deleted kd ns n r)"
  "creates_only Q (Emitted a b)" "creates_only Q (Probed u ok)" "creates_only Q (Paused d)"
  by (simp_all add: creates_only_def)

definition creates1 :: "(obj \<Rightarrow> bool) \<Rightarrow> 'w sys \<Rightarrow> 'w sys option \<Rightarrow> bool" where
  "creates1 Q s m \<longleftrightarrow> (\<forall>t. m = Some t \<longrightarrow> emits (creates_only Q) s t)"

definition creates2 :: "(obj \<Rightarrow> bool) \<Rightarrow> 'w sys \<Rightarrow> ('a \<times> 'w sys) option \<Rightarrow> bool" where
  "creates2 Q s m \<longleftrightarrow> (\<forall>a t. m = Some (a, t) \<longrightarrow> emits (creates_only Q) s t)"

definition creates3 :: "(obj \<Rightarrow> bool) \<Rightarrow> 'w sys \<Rightarrow> ('a \<times> 'b \<times> 'w sys) option \<Rightarrow> bool" where
  "creates3 Q s m \<longleftrightarrow> (\<forall>a b t. m = Some (a, b, t) \<longrightarrow> emits (creates_only Q) s t)"

definition creates4 :: "(obj \<Rightarrow> bool) \<Rightarrow> 'w sys \<Rightarrow> ('a \<times> 'b \<times> 'c \<times> 'w sys) option \<Rightarrow> bool" where
  "creates4 Q s m \<longleftrightarrow> (\<forall>a b c t. m = Some (a, b, c, t) \<longrightarrow> emits (creates_only Q) s t)"

lemmas creates_defs = creates1_def creates2_def creates3_def creates4_def

lemma creates_results [creates]:
  "creates1 Q s (Some s)" "creates2 Q s (Some (a, s))" "creates3 Q s (Some (a, b, s))"
  "creates4 Q s (Some (a, b, c, s))"
  "creates1 Q s None" "creates2 Q s None" "creates3 Q s None" "creates4 Q s None"
  by (simp_all add: creates_defs)

lemma creates_pure [creates]:
  "(\<And>x. creates1 Q s (f1 x)) \<Longrightarrow> creates1 Q s (p \<bind> f1)"
  "(\<And>x. creates2 Q s (f2 x)) \<Longrightarrow> creates2 Q s (p \<bind> f2)"
  "(\<And>x. creates3 Q s (f3 x)) \<Longrightarrow> creates3 Q s (p \<bind> f3)"
  "(\<And>x. creates4 Q s (f4 x)) \<Longrightarrow> creates4 Q s (p \<bind> f4)"
  by (cases p; simp add: creates_defs)+

lemma creates_seq1 [creates]:
  "creates1 Q s m \<Longrightarrow> (\<And>t. creates1 Q t (f1 t)) \<Longrightarrow> creates1 Q s (m \<bind> f1)"
  "creates1 Q s m \<Longrightarrow> (\<And>t. creates2 Q t (f2 t)) \<Longrightarrow> creates2 Q s (m \<bind> f2)"
  "creates1 Q s m \<Longrightarrow> (\<And>t. creates3 Q t (f3 t)) \<Longrightarrow> creates3 Q s (m \<bind> f3)"
  by (cases m; fastforce simp: creates_defs intro: emits_trans)+

lemma creates_seq2 [creates]:
  "creates2 Q s m \<Longrightarrow> (\<And>a t. creates1 Q t (f1 (a, t))) \<Longrightarrow> creates1 Q s (m \<bind> f1)"
  "creates2 Q s m \<Longrightarrow> (\<And>a t. creates2 Q t (f2 (a, t))) \<Longrightarrow> creates2 Q s (m \<bind> f2)"
  "creates2 Q s m \<Longrightarrow> (\<And>a t. creates3 Q t (f3 (a, t))) \<Longrightarrow> creates3 Q s (m \<bind> f3)"
  "creates2 Q s m \<Longrightarrow> (\<And>a t. creates4 Q t (f4 (a, t))) \<Longrightarrow> creates4 Q s (m \<bind> f4)"
  by (cases m; fastforce simp: creates_defs intro: emits_trans)+

lemma creates_seq3 [creates]:
  "creates3 Q s m \<Longrightarrow> (\<And>a b t. creates2 Q t (f2 (a, b, t))) \<Longrightarrow> creates2 Q s (m \<bind> f2)"
  "creates3 Q s m \<Longrightarrow> (\<And>a b t. creates3 Q t (f3 (a, b, t))) \<Longrightarrow> creates3 Q s (m \<bind> f3)"
  "creates3 Q s m \<Longrightarrow> (\<And>a b t. creates4 Q t (f4 (a, b, t))) \<Longrightarrow> creates4 Q s (m \<bind> f4)"
  by (cases m; fastforce simp: creates_defs intro: emits_trans)+

lemma creates_seq4 [creates]:
  "creates4 Q s m \<Longrightarrow> (\<And>a b c t. creates3 Q t (f3 (a, b, c, t))) \<Longrightarrow> creates3 Q s (m \<bind> f3)"
  "creates4 Q s m \<Longrightarrow> (\<And>a b c t. creates4 Q t (f4 (a, b, c, t))) \<Longrightarrow> creates4 Q s (m \<bind> f4)"
  by (cases m; fastforce simp: creates_defs intro: emits_trans)+

text \<open>Of the calls only \<open>kcreate\<close> creates anything.\<close>

lemma creates_calls [creates]:
  "creates2 Q s (kget c ns n s)" "creates2 Q s (klist c opts s)" "creates2 Q s (kupdate c mk x s)"
  "creates2 Q s (kdelete c kd ns n s)" "creates2 Q s (now k s)" "creates2 Q s (pause k d s)"
  "creates2 Q s (eventf k csi reason a s)" "creates2 Q s (server_version k s)" "creates2 Q s (http_get k url s)"
  by (auto simp: creates2_def emits_def server_version_def http_get_def log_event_def split: prod.splits sum.splits
      dest!: kget_silent klist_silent kupdate_trace kdelete_trace now_silent pause_trace eventf_trace in_world_trace)

lemma creates_create [creates]: "Q (mk x) \<Longrightarrow> creates2 Q s (kcreate c mk x s)"
  by (auto simp: creates2_def emits_def dest!: kcreate_trace)

lemma creates_for_errors [creates]:
  assumes "\<And>x s. x \<in> set xs \<Longrightarrow> creates2 Q s (f x s)"
  shows "creates2 Q s (for_errors f xs s)"
  using assms by (auto simp: creates2_def intro: for_errors_emits)

section \<open>Operations that create nothing\<close>

lemma creates_gates [creates]:
  "creates2 Q s (security_gate (NewPodSecurityPolicyVerifier k m tmpl) csi c a s)"
  "creates2 Q s (security_gate (NewSecurityContextConstraintsVerifier k m pols) csi c a s)"
proof -
  have v: "creates2 Q s (ValidateRBAC k m rules s)" for m rules s
    by (simp add: creates ValidateRBAC_def ValidateServiceAccountIsBound_def Let_def
        split: flow_splits rbac_data.split)
  show "creates2 Q s (security_gate (NewPodSecurityPolicyVerifier k m tmpl) csi c a s)"
    by (simp add: v creates security_gate_def NewPodSecurityPolicyVerifier_def pspVerify_def pspHandleError_def
        Let_def split: flow_splits)
  show "creates2 Q s (security_gate (NewSecurityContextConstraintsVerifier k m pols) csi c a s)"
    by (simp add: v creates security_gate_def NewSecurityContextConstraintsVerifier_def sccVerify_def
        sccHandleError_def Let_def split: flow_splits)
qed

lemma creates_labels [creates]:
  "creates3 Q s (node_labels_loop k sv ps nodes need err s)" "creates1 Q s (clean_labels_loop k idLabel nodes s)"
  by (induction nodes arbitrary: need err s)
    (simp_all add: clean_labels_loop.simps creates Let_def split: flow_splits)

lemma creates_node_Uninstall [creates]: "creates2 Q s (node_Uninstall k idLabel s)"
  by (simp add: creates node_Uninstall_def cleanNodeLabels_def split: flow_splits)

lemma creates_updateNodeLabels [creates]: "creates3 Q s (updateNodeLabels k sv ps sel s)"
  by (simp add: creates updateNodeLabels_def GetSelectedNodes_def Let_def split: flow_splits)

lemma creates_probes [creates]:
  "creates3 Q s (useOpenshiftSecondaryScheduler k platform p s)" "creates3 Q s (checkSchedulerExtender k ip extPort p s)"
  by (simp_all add: creates useOpenshiftSecondaryScheduler_def checkSchedulerExtender_def Let_def split: flow_splits)

lemma creates_unpatch [creates]:
  "creates2 Q s (unpatchSecondaryScheduler k s)" "creates2 Q s (unpatchScheduler k c s)"
  "creates2 Q s (patchScheduler k c s)" "creates3 Q s (unPatchOpenShift k p s)" "creates3 Q s (patcher_Uninstall k csi p s)"
  by (simp_all add: creates unpatchSecondaryScheduler_def unpatchScheduler_def patchScheduler_def
      unPatchOpenShift_def patcher_Uninstall_def Let_def split: flow_splits)

lemma creates_statuses [creates]:
  "creates2 Q s (updateReadinessStatuses k lbl created s)" "creates2 Q s (getConfigMapCreationTime k options s)"
  "creates2 Q s (poll_statuses k lbl created iv n statuses s)"
proof -
  show r [creates]: "creates2 Q s (updateReadinessStatuses k lbl created s)" for s
    by (simp add: creates updateReadinessStatuses_def split: flow_splits)
  show "creates2 Q s (getConfigMapCreationTime k options s)"
    by (simp add: creates getConfigMapCreationTime_def split: flow_splits)
  show "creates2 Q s (poll_statuses k lbl created iv n statuses s)"
    by (induction n arbitrary: statuses s) (simp_all add: r creates split: flow_splits)
qed

lemma creates_secondary_statuses [creates]:
  "creates2 Q s (updateReadinessStatusesForOpenshiftSecondaryScheduler k lbl created iv n s)"
  by (simp add: creates updateReadinessStatusesForOpenshiftSecondaryScheduler_def Let_def split: flow_splits)

lemma creates_deletions [creates]: "creates2 Q s (deleteObject rs x patch s)"
  by (simp add: creates deleteObject_def Let_def split: flow_splits)

lemma creates_delete_lists [creates]:
  "creates2 Q s (deleteDrives k n s)" "creates2 Q s (deleteACs k n s)" "creates2 Q s (deleteLVGs k n s)"
  "creates2 Q s (deleteVolumes k n s)"
  by (simp_all add: creates deleteDrives_def deleteACs_def deleteLVGs_def deleteVolumes_def split: flow_splits)

lemma creates_deleteCSIResources [creates]: "creates2 Q s (deleteCSIResources k b s)"
  by (simp add: creates deleteCSIResources_def Let_def)

lemma creates_removal [creates]:
  "creates2 Q s (removeNode k b s)" "creates3 Q s (removal_loop k tainted bs s)"
proof -
  show "creates2 Q s (removeNode k b s)"
    by (simp add: creates removeNode_def checkDaemonsetPodRunning_def split: flow_splits)
  show "creates3 Q s (removal_loop k tainted bs s)"
    by (induction bs arbitrary: s) (simp_all add: removal_loop.simps creates Let_def split: flow_splits)
qed

lemma creates_node_handlers [creates]:
  "creates2 Q s (handleNodeRemoval k bs nodes s)" "creates2 Q s (handleNodeMaintenance k nodes s)"
  by (simp_all add: creates handleNodeRemoval_def removeNodes_def handleNodeMaintenance_def deleteCSIPods_def
      deleteCSIPod_def split: flow_splits list.split)

lemma creates_ReconcileNodes [creates]: "creates2 Q s (ReconcileNodes k csi s)"
  by (simp add: creates ReconcileNodes_def node_ops_reconcile_def GetSelectedNodes_def Let_def split: flow_splits)

lemma creates_csi_Uninstall [creates]: "creates3 Q s (csi_Uninstall k op csi p s)"
  by (simp add: creates csi_Uninstall_def)

lemma creates_validateACRs [creates]: "creates1 Q s (validateACRs k s)"
proof -
  have "creates1 Q s (validate_loop k acrs s)" for acrs s
    by (induction acrs arbitrary: s) (simp_all add: creates needToRemoveACR_def Let_def split: flow_splits)
  then show ?thesis by (simp add: creates validateACRs_def split: flow_splits)
qed

section \<open>What is created\<close>

text \<open>\<open>owned\<close>: metadata as \<open>SetControllerReference\<close> returned it for the custom resource.\<close>

definition owned :: "'w cluster \<Rightarrow> Deployment \<Rightarrow> ObjectMeta \<Rightarrow> bool" where
  "owned k csi m \<longleftrightarrow> (\<exists>m0. set_owner k csi m0 = Inr m)"

text \<open>The objects the operator leaves without an owner, all of them on OpenShift: the
  configuration of the scheduler and the secondary scheduler, which live in namespaces of
  the platform, and the remembered address of an extender when the owner was refused.\<close>

definition scheduler_map :: "ObjectMeta \<Rightarrow> bool" where
  "scheduler_map m \<longleftrightarrow> (m_Namespace m, m_Name m) \<in>
     {(openshiftConfigNamespace, openshiftSchedulerPolicyConfigMapName),
      (OpenshiftSecondarySchedulerNamespace, csiOpenshiftSecondarySchedulerConfigMapName)}"

definition refused_map :: "'w cluster \<Rightarrow> Deployment \<Rightarrow> ObjectMeta \<Rightarrow> bool" where
  "refused_map k csi m \<longleftrightarrow> m = object_meta (dep_Namespace csi) selectedSchedulerExtenderIPConfigMapName None
     \<and> (\<exists>e. set_owner k csi m = Inl e)"

fun may_create :: "'w cluster \<Rightarrow> Deployment \<Rightarrow> obj \<Rightarrow> bool" where
  "may_create k csi (O_AppsDeployment x) \<longleftrightarrow> owned k csi (ad_Meta x)"
| "may_create k csi (O_DaemonSet x) \<longleftrightarrow> owned k csi (ds_Meta x)"
| "may_create k csi (O_ConfigMap x) \<longleftrightarrow> owned k csi (cm_Meta x)
     \<or> sp_Platform (dep_Spec csi) = PlatformOpenShift \<and> (scheduler_map (cm_Meta x) \<or> refused_map k csi (cm_Meta x))"
| "may_create k csi (O_SecondaryScheduler x) \<longleftrightarrow> sp_Platform (dep_Spec csi) = PlatformOpenShift
     \<and> ss_Meta x = object_meta OpenshiftSecondarySchedulerNamespace openshiftSchedulerResourceName None
     \<and> ss_SchedulerConfig x = csiOpenshiftSecondarySchedulerConfigMapName"
| "may_create k csi _ \<longleftrightarrow> False"

lemma ownedI: "set_owner k csi m0 = Inr m \<Longrightarrow> owned k csi m"
  by (auto simp: owned_def)

lemma creates_upserts:
  "Q (O_ConfigMap cm) \<Longrightarrow> creates2 Q s (UpdateConfigMap k cm s)"
  "Q (O_DaemonSet ds) \<Longrightarrow> creates2 Q s (UpdateDaemonSet k ds s)"
  "Q (O_AppsDeployment d) \<Longrightarrow> creates2 Q s (UpdateDeployment k d s)"
  by (simp_all add: creates UpdateConfigMap_def UpdateDaemonSet_def UpdateDeployment_def Let_def split: flow_splits)

text \<open>An upsert of an object whose owner has been set.\<close>

lemma creates_owned [creates]:
  "set_owner k csi m0 = Inr m \<Longrightarrow> creates2 (may_create k csi) s (UpdateConfigMap k (cm\<lparr>cm_Meta := m\<rparr>) s)"
  "set_owner k csi m0 = Inr m \<Longrightarrow> creates2 (may_create k csi) s (UpdateDaemonSet k (ds\<lparr>ds_Meta := m\<rparr>) s)"
  "set_owner k csi m0 = Inr m \<Longrightarrow> creates2 (may_create k csi) s (UpdateDeployment k (d\<lparr>ad_Meta := m\<rparr>) s)"
  by (simp_all add: creates_upserts ownedI)

text \<open>The components with an owner for all they create.\<close>

lemma creates_controllers [creates]:
  "creates2 (may_create k csi) s (controller_Update k csi s)"
  "creates2 (may_create k csi) s (node_controller_Update k csi s)"
  "creates2 (may_create k csi) s (extender_deploy k csi s)"
  "creates2 (may_create k csi) s (patcher_deploy k csi s)"
  "creates2 (may_create k csi) s (updateVanillaConfigMap k csi s)"
  by (simp_all add: creates controller_Update_def node_controller_Update_def extender_deploy_def patcher_deploy_def
      updateVanillaConfigMap_def split: flow_splits)

lemma creates_deploy_loop [creates]:
  "creates2 (may_create k csi) s (deploy_loop k sv csi need order err s)"
  by (induction order arbitrary: err s) (simp_all add: creates Let_def split: flow_splits)

lemma creates_gated [creates]:
  "creates2 (may_create k csi) s (node_Update k (NewPodSecurityPolicyVerifier k m tmpl)
     (NewSecurityContextConstraintsVerifier k m' pols) sv ps order csi s)"
  "creates2 (may_create k csi) s (extender_Update k (NewPodSecurityPolicyVerifier k m tmpl)
     (NewSecurityContextConstraintsVerifier k m' pols) csi s)"
  "creates2 (may_create k csi) s (updateVanilla k (NewPodSecurityPolicyVerifier k m tmpl) csi s)"
  by (simp_all add: creates node_Update_def node_deploy_def extender_Update_def updateVanilla_def
      updateVanillaDaemonset_def split: flow_splits)

text \<open>On OpenShift: the remembered address has an owner unless it is refused; the configuration of
  the scheduler never has one.\<close>

lemma creates_probe_pods:
  assumes "sp_Platform (dep_Spec csi) = PlatformOpenShift"
  shows "creates3 (may_create k csi) s (probe_pods k csi extPort pods p s)"
proof (induction pods arbitrary: p s)
  case (Cons pod pods)
  let ?cm = "createSelectedSchedulerExtenderIPConfigMap (p_PodIP pod) csi"
  have "cm_Meta ?cm = object_meta (dep_Namespace csi) selectedSchedulerExtenderIPConfigMapName None"
    by (simp add: createSelectedSchedulerExtenderIPConfigMap_def)
  then have "may_create k csi (O_ConfigMap (case set_owner k csi (cm_Meta ?cm) of Inl _ \<Rightarrow> ?cm | Inr m \<Rightarrow> ?cm\<lparr>cm_Meta := m\<rparr>))"
    using assms by (cases "set_owner k csi (cm_Meta ?cm)") (auto simp: refused_map_def intro: ownedI)
  then have "creates2 (may_create k csi) s (UpdateConfigMap k
      (case set_owner k csi (cm_Meta ?cm) of Inl _ \<Rightarrow> ?cm | Inr m \<Rightarrow> ?cm\<lparr>cm_Meta := m\<rparr>) s)" for s
    by (rule creates_upserts)
  with Cons.IH show ?case by (simp add: creates Let_def split: if_split option.split)
qed (simp add: creates)

lemma creates_extender_attempts:
  assumes "sp_Platform (dep_Spec csi) = PlatformOpenShift"
  shows "creates4 (may_create k csi) s (extender_attempts k csi iv n err p s)"
proof (induction n arbitrary: err p s)
  case (Suc n)
  have "creates3 (may_create k csi) s (getSchedulerExtenderIP k csi p s)" for p s
    by (simp add: creates creates_probe_pods [OF assms] getSchedulerExtenderIP_def probe_remembered_def probe_listed_def
        Let_def split: flow_splits)
  with Suc.IH show ?case by (simp add: creates Let_def split: flow_splits)
qed (simp add: creates)

lemma scheduler_map_config: "scheduler_map (cm_Meta (createOpenshiftConfigMapObject config use))"
  by (simp add: scheduler_map_def createOpenshiftConfigMapObject_def openshift_config_key_def)

lemma creates_patchOpenShift:
  assumes "sp_Platform (dep_Spec csi) = PlatformOpenShift"
  shows "creates3 (may_create k csi) s (patchOpenShift k csi use p s)"
    and "creates3 (may_create k csi) s (retryPatchOpenshift k csi use p s)"
proof -
  have c: "creates3 (may_create k csi) s (createOpenshiftConfig k csi use iv n p s)" for iv n p s
    by (simp add: creates creates_extender_attempts [OF assms] createOpenshiftConfig_def split: flow_splits)
  have u: "creates2 (may_create k csi) s (UpdateConfigMap k (createOpenshiftConfigMapObject config use) s)" for config s
    using assms by (intro creates_upserts) (simp add: scheduler_map_config)
  have b: "creates2 (may_create k csi) s (patchSecondaryScheduler k csi s)" for s
    using assms by (simp add: creates patchSecondaryScheduler_def new_secondary_scheduler_def Let_def split: flow_splits)
  show p: "creates3 (may_create k csi) s (patchOpenShift k csi use p s)" for p s
    by (simp add: c u b creates patchOpenShift_def Let_def split: flow_splits)
  show "creates3 (may_create k csi) s (retryPatchOpenshift k csi use p s)"
    by (simp add: p creates retryPatchOpenshift_def split: flow_splits)
qed

lemma creates_UpdateReadinessConfigMap:
  "creates3 (may_create k csi) s (UpdateReadinessConfigMap k (NewPodSecurityPolicyVerifier k m tmpl) csi use p s)"
  by (simp add: creates creates_patchOpenShift UpdateReadinessConfigMap_def retryPatchVanilla_def Let_def
      split: flow_splits)

lemma creates_csi_Update: "creates3 (may_create k csi) s (csi_Update k op csi p s)"
proof -
  have "creates3 (may_create k csi) s (patcher_Update k (patcher_psp k op) csi p s)" for p s
    by (simp add: creates creates_patchOpenShift creates_UpdateReadinessConfigMap patcher_Update_def patcher_psp_def
        Let_def split: flow_splits)
  then show ?thesis
    by (simp add: creates csi_Update_def node_psp_def node_scc_def extender_psp_def extender_scc_def split: flow_splits)
qed

lemma creates_deploy_phase: "creates3 (may_create k csi) s (deploy_phase k op csi p s)"
  by (simp add: creates creates_csi_Update deploy_phase_def split: flow_splits)

section \<open>Whole histories\<close>

definition of_resource :: "string \<Rightarrow> string \<Rightarrow> Deployment \<Rightarrow> bool" where
  "of_resource ns name csi \<longleftrightarrow> dep_Namespace csi = ns \<and> dep_Name csi = name"

lemma of_resource_with_finalizers: "of_resource ns name (with_finalizers d fs) \<longleftrightarrow> of_resource ns name d"
  by (simp add: of_resource_def with_finalizers_def)

lemma deploy_phase_creates:
  "deploy_phase k op csi p s = Some (res, q, t) \<Longrightarrow> emits (creates_only (may_create k csi)) s t"
  using creates_deploy_phase [of k csi s op p] by (simp add: creates3_def)

lemma csi_Uninstall_creates:
  "csi_Uninstall k op csi p s = Some (e, q, t) \<Longrightarrow> emits (creates_only Q) s t"
  using creates_csi_Uninstall [of Q s k op csi p] by (simp add: creates3_def)

lemma Reconcile_creates:
  assumes key: "same_key (k_CsiDeployments k) dep_Meta" and run: "Reconcile k op ns name p s = Some (res, q, t)"
  shows "\<exists>csi. of_resource ns name csi \<and> emits (creates_only (may_create k csi)) s t"
proof -
  obtain r s1 where g: "kget (k_CsiDeployments k) ns name s = Some (r, s1)" using calls_return_ex(1) by blast
  then have q: "silent s s1" by (rule kget_silent)
  have upd: "emits (creates_only Q) u v" if "kupdate (k_CsiDeployments k) O_Deployment x u = Some (y, v)" for Q x u y v
    using kupdate_trace [OF that] by (simp add: emits_def)
  have d: "of_resource ns name d" if "r = Inr d" for d
    using kget_same_key [OF key] g that by (simp add: of_resource_def)
  consider (fresh) d where "r = Inr d" "deletion_IsZero d" "\<not> containsFinalizer d"
    | (deleted) d where "r = Inr d" "\<not> deletion_IsZero d" "containsFinalizer d"
    | (other) "\<And>d. r = Inr d \<Longrightarrow> deletion_IsZero d = containsFinalizer d" by blast
  then show ?thesis
  proof cases
    case fresh
    show ?thesis
    proof (cases rule: Reconcile_not_deleted_cases [OF g [unfolded fresh(1)] fresh(2,3) run])
      case (1 e s2)
      with d [OF fresh(1)] q upd show ?thesis by (metis silent_then_emits)
    next
      case (2 d' s2)
      have "of_resource ns name d'"
        using kupdate_same_key [OF key 2(1)] d [OF fresh(1)] of_resource_with_finalizers
        by (simp add: of_resource_def)
      with q upd [OF 2(1)] deploy_phase_creates [OF 2(2)] show ?thesis
        by (metis silent_then_emits emits_trans)
    qed
  next
    case deleted
    from Reconcile_deleted_cases [OF g [unfolded deleted(1)] deleted(2,3) run] obtain e s2 u where
      "csi_Uninstall k op d p s1 = Some (e, q, s2)"
      "kupdate (k_CsiDeployments k) O_Deployment (with_finalizers d (deleteFinalizer d)) s2 = Some (u, t)" .
    with d [OF deleted(1)] q upd csi_Uninstall_creates show ?thesis by (metis silent_then_emits emits_trans)
  next
    case other
    show ?thesis
    proof (cases rule: Reconcile_other_cases [OF g run other])
      case (2 e)
      have "of_resource ns name (undefined\<lparr>dep_Meta := object_meta ns name None\<rparr>)"
        by (simp add: of_resource_def)
      with 2 q show ?thesis by (metis silent_emits)
    next
      case (3 d)
      with d q deploy_phase_creates show ?thesis by (metis silent_then_emits)
    qed
  qed
qed

text \<open>C6. Everything the operator creates is accounted for. Over any history of reconciliations,
  validator passes, restarts and actions of users, every object it ever asked the API server
  to create has the custom resource as its controlling owner, and so goes with it, or is one
  of the few objects made for the scheduler of OpenShift: the configuration map under one of
  its two names, the secondary scheduler that points to it, or the remembered address of an
  extender when the owner was refused. It creates nothing else.\<close>

theorem created_objects_accounted:
  assumes key: "same_key (k_CsiDeployments k) dep_Meta"
    and run: "op_reachable k op ns name cr (p0, s0) (p, s)" and init: "trace s0 = []"
    and created: "Created x r \<in> set (trace s)"
  shows "\<exists>csi. of_resource ns name csi \<and> may_create k csi x"
proof -
  let ?Q = "\<lambda>x. \<exists>csi. of_resource ns name csi \<and> may_create k csi x"
  have step: "emits (creates_only ?Q) (snd c) (snd c')" if "op_step k op ns name cr c c'" for c c'
    using that
  proof cases
    case (reconcile ps ds p s res q t)
    from Reconcile_creates [OF key reconcile(3)] obtain csi where
      "of_resource ns name csi" "emits (creates_only (may_create k csi)) s t" by blast
    with reconcile(1,2) show ?thesis by (auto elim!: emits_mono simp: creates_only_def split: event.splits)
  next
    case other
    then show ?thesis
    proof cases
      case (validate s t p)
      with creates_validateACRs [of ?Q s k] show ?thesis by (simp add: creates1_def)
    qed (simp_all add: silent_emits)
  qed
  have "emits (creates_only ?Q) (snd c) (snd c')" if "(op_step k op ns name cr)\<^sup>*\<^sup>* c c'" for c c'
    using that by (induction rule: rtranclp_induct) (auto intro: emits_trans step)
  from this [OF run [unfolded op_reachable_def]] have "emits (creates_only ?Q) s0 s" by simp
  with init created show ?thesis by (auto simp: emits_set)
qed

section \<open>Witness\<close>

text \<open>A namespace whose quota is used up: the first deployment is refused.\<close>

definition quota_csi :: Deployment where
  "quota_csi = with_finalizers (example_csi PlatformVanilla) [csiFinalizer]"

definition quota_cluster :: "(string \<times> string \<Rightarrow> Deployment option) cluster" where
  "quota_cluster = quiet_cluster\<lparr>k_CsiDeployments := store_client dep_Meta,
     k_Deployments := (canned [])\<lparr>kc_create := (\<lambda>x w. (Inl (False, ''quota exceeded''), w))\<rparr>\<rparr>"

definition quota_start :: "(string \<times> string \<Rightarrow> Deployment option) sys" where
  "quota_start = start [(''ns'', ''csi'') \<mapsto> quota_csi]"

lemma store_same_key: "same_key (store_client meta) meta"
  by (auto simp: same_key_def store_client_def stored_def split: option.splits if_splits)

lemma quota_run:
  "\<exists>x e. Reconcile quota_cluster example_op ''ns'' ''csi'' new_patcher quota_start
     = Some ((True, Some e), new_patcher, log_event (Created (O_AppsDeployment x) (Some e)) quota_start)"
proof -
  have m: "dep_Meta quota_csi = (object_meta ''ns'' ''csi'' None)\<lparr>m_Finalizers := [csiFinalizer]\<rparr>"
    and n: "sp_NodeController (dep_Spec quota_csi) = Some example_node_controller"
    by (simp_all add: quota_csi_def with_finalizers_def example_csi_def)
  from constructors_total [OF complete_example] obtain x where
    "createNodeControllerDeployment (example_csi PlatformVanilla) = Some x" by blast
  then obtain x where x: "createNodeControllerDeployment quota_csi = Some x"
    by (auto simp: createNodeControllerDeployment_def createNodeControllerContainers_def quota_csi_def
        with_finalizers_def split: Option.bind_splits)
  let ?e = "ApiError False ''quota exceeded''"
  have g: "kget (k_CsiDeployments quota_cluster) ''ns'' ''csi'' quota_start = Some (Inr quota_csi, quota_start)"
    by (simp add: quota_cluster_def quota_start_def store_client_def kget_def in_world_def stored_def m start_def)
  have "UpdateDeployment quota_cluster x quota_start
      = Some (Some ?e, log_event (Created (O_AppsDeployment x) (Some ?e)) quota_start)"
    by (simp add: UpdateDeployment_def quota_cluster_def kget_def kcreate_def in_world_def canned_def api_err_def)
  then have "node_controller_Update quota_cluster quota_csi quota_start
      = Some (Some ?e, log_event (Created (O_AppsDeployment x) (Some ?e)) quota_start)"
    using x n by (simp add: node_controller_Update_def set_owner_def quota_cluster_def example_node_controller_def)
  moreover have "deletion_IsZero quota_csi" "containsFinalizer quota_csi"
    by (simp_all add: deletion_IsZero_def containsFinalizer_def m strings_Contains_iff object_meta_def)
  ultimately have "Reconcile quota_cluster example_op ''ns'' ''csi'' new_patcher quota_start
     = Some ((True, Some ?e), new_patcher, log_event (Created (O_AppsDeployment x) (Some ?e)) quota_start)"
    using g by (simp add: Reconcile_def deploy_phase_def csi_Update_def)
  then show ?thesis by blast
qed

theorem created_objects_accounted_witness:
  "\<exists>x r t. op_reachable quota_cluster example_op ''ns'' ''csi'' (\<lambda>w. None) (new_patcher, quota_start) (new_patcher, t)
     \<and> Created x r \<in> set (trace t) \<and> (\<exists>csi. of_resource ''ns'' ''csi'' csi \<and> may_create quota_cluster csi x)"
proof -
  obtain x e where run: "Reconcile quota_cluster example_op ''ns'' ''csi'' new_patcher quota_start
     = Some ((True, Some e), new_patcher, log_event (Created (O_AppsDeployment x) (Some e)) quota_start)"
    using quota_run by blast
  let ?t = "log_event (Created (O_AppsDeployment x) (Some e)) quota_start"
  have r: "op_reachable quota_cluster example_op ''ns'' ''csi'' (\<lambda>w. None) (new_patcher, quota_start) (new_patcher, ?t)"
    unfolding op_reachable_def by (rule r_into_rtranclp, rule op_step.reconcile [of _ _ "op_platformOrder example_op" "op_deployOrder example_op"],
        simp add: with_orders_same run)
  have "same_key (k_CsiDeployments quota_cluster) dep_Meta" by (simp add: quota_cluster_def store_same_key)
  from created_objects_accounted [OF this r, of "O_AppsDeployment x" "Some e"] r show ?thesis
    by (intro exI [of _ "O_AppsDeployment x"] exI [of _ "Some e"] exI [of _ ?t]) (simp add: quota_start_def)
qed

end
