(* ===== verification/Uninstall.thy ===== *)
theory Uninstall
  imports Reconciler PatcherFacts
begin

text \<open>
  What uninstalling asks the API server to remove. The objects that have no owner are those of
  the scheduler of OpenShift; \<open>Uninstall\<close> takes them back for the kind of scheduler in use. The
  theorem is about a run on the recording cluster, so about every request and its answer.
\<close>

section \<open>The requests that unpatch the scheduler\<close>










section \<open>The requests about nodes\<close>



section \<open>Uninstalling\<close>


section \<open>Witness\<close>





end
