(* ===== verification/Spec2Isabelle.thy ===== *)
theory Spec2Isabelle
  imports Reconciler NodeAudit NodeLifecycle AcrValidator Lifecycle Convergence PanicFree Startup DeepCopy Installed
    Crash Ownership Uninstall
begin

text \<open>
  A model of csi-baremetal-operator, the Kubernetes operator that installs the bare-metal CSI
  driver of Dell: it reconciles one custom resource, \<open>Deployment\<close> of
  \<open>csi-baremetal.dell.com/v1\<close>, into the deployments and daemonsets of the driver, hooks the
  scheduler extender of the driver into the scheduler of the platform, and removes the
  resources of drained nodes.

  The parts of the program and the theories.

  \<^item> \<open>controllers/deployment_controller.go\<close> is in \<open>Reconciler\<close>: \<open>Reconcile\<close> with its finalizer, and
    the functions that map changes of pods, nodes, roles and role bindings to requests. It
    calls the components below through \<open>pkg/csi_deployment.go\<close> (\<open>CsiDeployment\<close>): node controller,
    node daemonsets, controller, scheduler extender, scheduler patcher, in this order, then the
    node operations; the first error ends the chain.
  \<^item> \<open>pkg/controller.go\<close>, \<open>pkg/node_controller.go\<close> and \<open>pkg/scheduler_extender.go\<close> are in
    \<open>Workloads\<close>: the constructors of the workloads field by field and the \<open>Update\<close> methods.
  \<^item> \<open>pkg/node\<close>: \<open>parser.go\<close> and \<open>platform_description.go\<close> are in \<open>Platform\<close>, \<open>node_daemonset.go\<close>
    in \<open>NodeDaemonSet\<close>, \<open>node.go\<close> in \<open>NodeComponent\<close>.
  \<^item> \<open>pkg/nodeoperations\<close> is in \<open>NodeOps\<close>; \<open>NodeRemoval\<close> and \<open>NodeAudit\<close> prove what it guarantees in
    one pass, \<open>NodeLifecycle\<close> what it guarantees over many.
  \<^item> \<open>pkg/patcher\<close>: the constructors and texts are in \<open>PatcherConfig\<close>,
    \<open>scheduler_patcher_openshift.go\<close> in \<open>PatcherOpenshift\<close>, the rest (Vanilla and RKE, the
    readiness of the schedulers, \<open>Update\<close>) in \<open>Patcher\<close>; \<open>PatcherFacts\<close> has the theorems.
  \<^item> \<open>pkg/validator\<close> and \<open>pkg/feature/security_verifier\<close> are in \<open>Rbac\<close>; the gates of the components
    use them through the record \<open>SecurityVerifier\<close>.
  \<^item> \<open>pkg/acrvalidator\<close> is in \<open>AcrValidator\<close>; its loop runs beside the reconciliation and shares
    only the API server with it.
  \<^item> \<open>main.go\<close>, \<open>SetupWithManager\<close>, \<open>PrepareScheme\<close> and the scheme builder of \<open>api/v1\<close> are in
    \<open>Startup\<close>: how the parts above are put
    together before the first reconciliation.
  \<^item> \<open>api/v1/deployment_types.go\<close> and the generated \<open>zz_generated.deepcopy.go\<close> are in \<open>DeepCopy\<close>,
    over an explicit heap, since there aliasing is the point; everywhere else an object is a
    value.
  \<^item> \<open>pkg/common/common.go\<close> and \<open>pkg/constant\<close> are in \<open>Common\<close>, \<open>pkg/common/update.go\<close> in \<open>Update\<close>.
  \<^item> \<open>Objects\<close> has the data, the specification of the custom resource (\<open>api/v1\<close>) and the fields
    of the Kubernetes objects the code touches; \<open>Workload\<close> the vocabulary of pod templates;
    \<open>Prelude\<close> the errors, nil maps, strings and loops; \<open>ExampleCluster\<close>, \<open>Parts\<close> and
    \<open>ExampleSite\<close> concrete clusters and custom resources for the witnesses.

  How the code is modelled. \<open>Effects\<close> has the outside: the API server, the clock, the network
  and the libraries are the record \<open>'w cluster\<close>, over an arbitrary type of worlds, and any call
  may answer anything. A run passes on the world and the trace of its requests; a theorem over
  all clusters and worlds holds whatever the API answers, so for every interleaving with other
  writers. A function of the code is a function here, of the same name where that is free;
  \<open>None\<close> is a panic of the Go runtime (a nil pointer or nil map, an index out of range), \<open>Inl\<close> or
  \<open>Some\<close> error an error value. Errors keep what the code inspects (not found, and the error types
  found by \<open>errors.As\<close>) and their text where it is composed here. The state that outlives a
  reconciliation is the record \<open>SchedulerPatcher\<close>. Values of Go maps are finite maps with \<open>None\<close>
  for nil; where the code iterates over a Go map the order is a parameter, new for every run of a
  history. Within a run the map of platforms is searched for every node in the same order; by
  \<open>kernel_selects_platform\<close> the platform found does not depend on it.

  The trace holds what is written. Where a theorem is about what was read too, the run is one
  on the cluster \<open>recording k\<close> of \<open>Recording\<close>, which behaves like \<open>k\<close> and keeps a list of all
  requests to the API server with their answers: \<open>NodeAudit\<close> (what justified the deletion of the
  resources of a node), \<open>AcrValidator\<close> (which answers a reservation was removed on) and
  \<open>Uninstall\<close> (the exact requests). Since \<open>k\<close> is arbitrary this says the same of every API server.

  Bounds. All loops of the code but two run over a list and are structural recursion. The two
  polling loops (the extender's IP, the readiness of the secondary scheduler) have the retry
  count of the code as fuel: it is 12 in both, and their result without more fuel is the result
  of the code. The endless loop of the reservation validator is its first \<open>n\<close> rounds, for any
  \<open>n\<close>. The timeout of the readiness check is a product of 64-bit durations and is computed on
  \<open>64 word\<close>; every other integer the code computes with stays small or is only printed.

  The lemmas. Each component has its functional specification on all branches, the errors it
  swallows included; \<open>Update\<close> shows the three upserts as instances of one contract, with
  convergence on a store; \<open>NodeOps\<close> the deletions of the four resources as instances of
  another; \<open>Rbac\<close> states the matcher and the verifiers as contracts and discharges them for the
  code. \<open>NodeLifecycle\<close> is a step relation over the life of one node with its invariant.

  Theorems about whole runs rest on two collections of facts, one per operation of the code.
  \<open>Calls\<close> describes a run as a sequence of single calls to clients of given kinds; \<open>Footprint\<close>,
  \<open>CsiDeployment\<close> and \<open>Reconciler\<close> show this for every operation (\<open>flow\<close>), which bounds the kinds of
  objects each may write (\<open>writes_in\<close>) and lets an invariant of single calls be lifted to the
  chain. \<open>PanicFree\<close> does the same for returning at all (\<open>total\<close>) and concludes that \<open>Reconcile\<close>
  ends with a result on complete input. \<open>Convergence\<close> lifts the convergence of one upsert to the
  chain of updates of \<open>csi_deployment.go\<close>. \<open>Lifecycle\<close> puts the operator, its restarts, the
  validator and the users of the API into one step relation and shows that it refines the
  life cycle of the custom resource (absent, fresh, managed, terminating) the finalizer is
  there for. The API server is described by \<open>api_versions\<close>: reads of the custom resource may be
  outdated, as those of the cached client of the manager may be, and the answer to an update may
  be lost after it was applied; an update is applied only to the version it was made from. A
  run that starts with an outdated read which shows the finalizer on a resource that was
  released or has moved on is called misled; histories carry a flag for it, since after such a read
  the operator works on a resource that no longer holds it. \<open>Crash\<close> adds that the operator may
  be cut off at any request of a run, with that request performed or not.

  \<open>NodeLifecycle\<close> lets the passes of node removal interleave with the administrator and with
  passes that saw older lists; its invariant keeps apart the removals that followed a taint
  and those that a list from before the administrator changed his mind led to.

  \<open>NodeCoverage\<close> and \<open>Installed\<close> say what a successful reconciliation leaves behind, taken
  together: the loops over nodes and daemonsets end, without an error, with every selected node
  labelled for the platform of its kernel and that platform's daemonset up to date. That no
  later component of the same run undoes this is a frame argument: \<open>Update\<close> shows that an
  upsert leaves the other objects of its store alone, the names of the daemonsets are
  distinct, and the judgements \<open>keep2\<close> and \<open>keep3\<close> carry a view of the world over every
  operation of the extender and the patcher.

  \<open>Ownership\<close> and \<open>Uninstall\<close> say what stays behind when the custom resource goes. Over any
  history, what the operator creates is owned by the custom resource, and so left to the
  garbage collector of the cluster, or is one of the few objects of the scheduler of OpenShift
  that cannot be. \<open>Uninstall\<close> lists the requests that take those back, for the kind of scheduler in
  use and while patching is enabled; a remembered extender address without an owner stays. The judgements \<open>creates1\<close> to \<open>creates4\<close> have a rule per operation.

  Not modelled, other than as answers of an arbitrary client: the API server, its cache and its
  garbage collector. Theorems that need more of them say so: \<open>api_versions\<close> above, the exact stores
  of \<open>Convergence\<close>, \<open>NodeCoverage\<close> and \<open>Installed\<close>. Not modelled at all: logging, the leader
  election and work queue of controller-runtime; the import pins of \<open>pkg/imports\<close>; charts and build
  files; and the libraries: \<open>equality.Semantic.DeepEqual\<close> of Kubernetes, with which
  \<open>pkg/common/update.go\<close> compares replicas, selectors and templates (\<open>lib_EqualReplicas\<close>,
  \<open>lib_EqualSelector\<close>, \<open>lib_EqualTemplate\<close>), \<open>SetControllerReference\<close>, the deep copy of
  \<open>metav1.ObjectMeta\<close>, the YAML encoder, the semver package and what \<open>main.go\<close> builds with
  (\<open>machinery\<close>) are parameters. In the texts of errors only what the code composes is kept.
\<close>

end
